(* ===== verification/Prelude.thy ===== *)
theory Prelude
  imports Main "HOL-Library.Word"
begin

text \<open>
  Shared vocabulary of the Z-BACS development: bytes and machine words, Rust's
  \<^verbatim>\<open>Result\<close> as a sum, the standard-library integer operations the sources call
  (\<^verbatim>\<open>to_le_bytes\<close>, \<^verbatim>\<open>div_ceil\<close>, \<^verbatim>\<open>saturating_sub\<close>,
  \<^verbatim>\<open>abs_diff\<close>, \<^verbatim>\<open>checked_add\<close>), UTF-8 validity, stream reads, and the two
  interface locales every layer uses: a codec (encoder and partial decoder) and a keyed store
  (insert and lookup).
\<close>

named_theorems res_simps \<open>inversion of the result combinators\<close>
named_theorems codec_simps \<open>round trips and lengths of the byte encodings\<close>
named_theorems store_simps \<open>lookup after update in the keyed stores\<close>

type_synonym byte = "8 word"
type_synonym bytes = "8 word list"
type_synonym u8 = "8 word"
type_synonym u16 = "16 word"
type_synonym u32 = "32 word"
type_synonym u64 = "64 word"

subsection \<open>Results\<close>

text \<open>
  \<open>Result<T, E>\<close> is \<open>'e + 'a\<close> with \<open>Inl\<close> the error. \<open>rbind\<close> is the
  \<^verbatim>\<open>?\<close> operator, \<open>ok_or\<close> and \<open>map_err\<close> are the methods of the same name.
\<close>

definition rbind :: "'e + 'a \<Rightarrow> ('a \<Rightarrow> 'e + 'b) \<Rightarrow> 'e + 'b" where
  "rbind r f = (case r of Inl e \<Rightarrow> Inl e | Inr x \<Rightarrow> f x)"

definition ok_or :: "'a option \<Rightarrow> 'e \<Rightarrow> 'e + 'a" where
  "ok_or v e = (case v of None \<Rightarrow> Inl e | Some x \<Rightarrow> Inr x)"

definition map_err :: "('e \<Rightarrow> 'f) \<Rightarrow> 'e + 'a \<Rightarrow> 'f + 'a" where
  "map_err f r = (case r of Inl e \<Rightarrow> Inl (f e) | Inr x \<Rightarrow> Inr x)"

definition is_ok :: "'e + 'a \<Rightarrow> bool" where
  "is_ok r = (case r of Inl _ \<Rightarrow> False | Inr _ \<Rightarrow> True)"

definition res_ok :: "'e + 'a \<Rightarrow> 'a option" where
  "res_ok r = (case r of Inl _ \<Rightarrow> None | Inr x \<Rightarrow> Some x)"

lemma rbind_simps [simp]:
  "rbind (Inl e) f = Inl e"
  "rbind (Inr x) f = f x"
  by (simp_all add: rbind_def)

lemma ok_or_simps [simp]:
  "ok_or None e = Inl e"
  "ok_or (Some x) e = Inr x"
  by (simp_all add: ok_or_def)

lemma map_err_simps [simp]:
  "map_err h (Inl e) = Inl (h e)"
  "map_err h (Inr x) = Inr x"
  by (simp_all add: map_err_def)

lemma is_ok_simps [simp]: "\<not> is_ok (Inl e)" "is_ok (Inr x)"
  by (simp_all add: is_ok_def)

lemma res_ok_simps [simp]: "res_ok (Inl e) = None" "res_ok (Inr x) = Some x"
  by (simp_all add: res_ok_def)

lemma res_ok_eq_Some [simp]: "res_ok r = Some x \<longleftrightarrow> r = Inr x"
  by (cases r) auto

lemma is_ok_iff: "is_ok r \<longleftrightarrow> (\<exists>x. r = Inr x)"
  by (cases r) auto

lemma rbind_eq_Inr [res_simps]: "rbind r f = Inr y \<longleftrightarrow> (\<exists>x. r = Inr x \<and> f x = Inr y)"
  by (cases r) auto

lemma rbind_eq_Inl [res_simps]:
  "rbind r f = Inl e \<longleftrightarrow> r = Inl e \<or> (\<exists>x. r = Inr x \<and> f x = Inl e)"
  by (cases r) auto

lemma ok_or_eq_Inr [res_simps]: "ok_or v e = Inr x \<longleftrightarrow> v = Some x"
  by (cases v) auto

lemma ok_or_eq_Inl [res_simps]: "ok_or v e = Inl e' \<longleftrightarrow> v = None \<and> e = e'"
  by (cases v) auto

lemma map_err_eq_Inr [res_simps]: "map_err h r = Inr x \<longleftrightarrow> r = Inr x"
  by (cases r) auto

lemma map_err_eq_Inl [res_simps]: "map_err h r = Inl e \<longleftrightarrow> (\<exists>d. r = Inl d \<and> h d = e)"
  by (cases r) auto

lemma if_Inl_eq_Inr [res_simps]: "(if b then Inl e else r) = Inr y \<longleftrightarrow> \<not> b \<and> r = Inr y"
  by auto

subsection \<open>Integer methods of the standard library\<close>

lemma unat_bound: "unat (a :: 'n::len word) < 2 ^ LENGTH('n)"
  by simp

definition div_ceil :: "nat \<Rightarrow> nat \<Rightarrow> nat" where
  "div_ceil a b = (if a mod b > 0 then a div b + 1 else a div b)"

definition saturating_sub :: "'n::len word \<Rightarrow> 'n word \<Rightarrow> 'n word" where
  "saturating_sub a b = (if b \<le> a then a - b else 0)"

definition abs_diff :: "'n::len word \<Rightarrow> 'n word \<Rightarrow> 'n word" where
  "abs_diff a b = (if a < b then b - a else a - b)"

definition checked_add :: "'n::len word \<Rightarrow> 'n word \<Rightarrow> 'n word option" where
  "checked_add a b = (if unat a + unat b < 2 ^ LENGTH('n) then Some (a + b) else None)"

lemma unat_saturating_sub: "unat (saturating_sub a b) = unat a - unat b"
proof (cases "b \<le> a")
  case True
  then show ?thesis by (simp add: saturating_sub_def unat_sub)
next
  case False
  then show ?thesis by (simp add: saturating_sub_def word_le_nat_alt)
qed

lemma unat_abs_diff:
  "unat (abs_diff a b) = (if unat a < unat b then unat b - unat a else unat a - unat b)"
  by (auto simp: abs_diff_def word_less_nat_alt word_le_nat_alt unat_sub not_less)

lemma checked_add_Some:
  fixes a b :: "'n::len word"
  assumes "checked_add a b = Some c"
  shows "unat c = unat a + unat b"
proof -
  from assms have lt: "unat a + unat b < 2 ^ LENGTH('n)" and c: "c = a + b"
    by (auto simp: checked_add_def split: if_splits)
  show ?thesis using lt by (simp add: c unat_word_ariths)
qed

lemma unat_add_one_eq:
  fixes a :: "'n::len word"
  assumes "unat a + 1 < 2 ^ LENGTH('n)"
  shows "unat (a + 1) = unat a + 1"
  using assms by (simp add: unat_word_ariths)

lemma div_ceil_bounds:
  assumes "0 < b"
  shows "a \<le> div_ceil a b * b" and "0 < a \<Longrightarrow> (div_ceil a b - 1) * b < a"
proof -
  have ab: "a = a div b * b + a mod b" by simp
  have mb: "a mod b < b" using assms by simp
  show "a \<le> div_ceil a b * b"
  proof (cases "a mod b > 0")
    case True
    then have "div_ceil a b * b = a div b * b + b" by (simp add: div_ceil_def)
    then show ?thesis using ab mb by linarith
  next
    case False
    then show ?thesis using ab by (simp add: div_ceil_def)
  qed
  assume "0 < a"
  then show "(div_ceil a b - 1) * b < a"
  proof (cases "a mod b > 0")
    case True
    then have "(div_ceil a b - 1) * b = a div b * b" by (simp add: div_ceil_def)
    with True show ?thesis using ab by linarith
  next
    case False
    then have eq: "a = a div b * b" using ab by simp
    then have "0 < a div b" using \<open>0 < a\<close> by (metis gr0I mult_0 not_gr0)
    moreover have "(a div b - 1) * b = a - b" using eq by (metis diff_mult_distrib mult_1)
    ultimately show ?thesis using False \<open>0 < a\<close> assms by (simp add: div_ceil_def)
  qed
qed

subsection \<open>Little- and big-endian integers\<close>

fun le_bytes :: "nat \<Rightarrow> nat \<Rightarrow> bytes" where
  "le_bytes 0 n = []"
| "le_bytes (Suc w) n = word_of_nat n # le_bytes w (n div 256)"

fun of_le_bytes :: "bytes \<Rightarrow> nat" where
  "of_le_bytes [] = 0"
| "of_le_bytes (b # bs) = unat b + 256 * of_le_bytes bs"

lemma length_le_bytes [simp]: "length (le_bytes w n) = w"
  by (induction w arbitrary: n) auto

lemma of_le_bytes_le_bytes: "n < 256 ^ w \<Longrightarrow> of_le_bytes (le_bytes w n) = n"
proof (induction w arbitrary: n)
  case 0
  then show ?case by simp
next
  case (Suc w)
  have "n div 256 < 256 ^ w" using Suc.prems by (simp add: less_mult_imp_div_less mult.commute)
  then have "of_le_bytes (le_bytes w (n div 256)) = n div 256" by (rule Suc.IH)
  then show ?case by (simp add: unat_of_nat)
qed

lemma of_le_bytes_bound: "of_le_bytes bs < 256 ^ length bs"
proof (induction bs)
  case Nil
  then show ?case by simp
next
  case (Cons b bs)
  have "unat b < 256" using unat_bound [of b] by simp
  with Cons show ?case by simp
qed

lemma le_bytes_of_le_bytes [simp]: "le_bytes (length bs) (of_le_bytes bs) = bs"
proof (induction bs)
  case Nil
  then show ?case by simp
next
  case (Cons b bs)
  have b: "unat b < 256" using unat_bound [of b] by simp
  have z: "(256 :: byte) = 0" by simp
  have "(word_of_nat (unat b + 256 * of_le_bytes bs) :: byte) = word_of_nat (unat b)"
    by (simp only: of_nat_add of_nat_mult of_nat_numeral z mult_zero_left add_0_right)
  then have "(word_of_nat (unat b + 256 * of_le_bytes bs) :: byte) = b" by simp
  moreover have "(unat b + 256 * of_le_bytes bs) div 256 = of_le_bytes bs" using b by simp
  ultimately show ?case using Cons by simp
qed

definition u16_le :: "u16 \<Rightarrow> bytes" where "u16_le v = le_bytes 2 (unat v)"
definition u32_le :: "u32 \<Rightarrow> bytes" where "u32_le v = le_bytes 4 (unat v)"
definition u64_le :: "u64 \<Rightarrow> bytes" where "u64_le v = le_bytes 8 (unat v)"
definition u64_be :: "u64 \<Rightarrow> bytes" where "u64_be v = rev (le_bytes 8 (unat v))"

definition u16_of_le :: "bytes \<Rightarrow> u16 option" where
  "u16_of_le bs = (if length bs = 2 then Some (word_of_nat (of_le_bytes bs)) else None)"

definition u32_of_le :: "bytes \<Rightarrow> u32 option" where
  "u32_of_le bs = (if length bs = 4 then Some (word_of_nat (of_le_bytes bs)) else None)"

definition u64_of_le :: "bytes \<Rightarrow> u64 option" where
  "u64_of_le bs = (if length bs = 8 then Some (word_of_nat (of_le_bytes bs)) else None)"

definition u64_of_be :: "bytes \<Rightarrow> u64 option" where
  "u64_of_be bs = u64_of_le (rev bs)"

lemma length_int_bytes [simp, codec_simps]:
  "length (u16_le a) = 2" "length (u32_le b) = 4" "length (u64_le c) = 8" "length (u64_be c) = 8"
  by (simp_all add: u16_le_def u32_le_def u64_le_def u64_be_def)

subsection \<open>The codec interface\<close>

text \<open>
  An encoder with a partial decoder. A codec of fixed width can be concatenated with anything
  and still be read back, which is what makes a domain-separated message unambiguous.
\<close>

locale codec =
  fixes enc :: "'a \<Rightarrow> bytes"
    and dec :: "bytes \<Rightarrow> 'a option"
    and valid :: "'a \<Rightarrow> bool"
  assumes dec_enc: "valid x \<Longrightarrow> dec (enc x) = Some x"
begin

lemma enc_inj: "valid x \<Longrightarrow> valid y \<Longrightarrow> enc x = enc y \<Longrightarrow> x = y"
  by (metis dec_enc option.inject)

lemma enc_eq_iff: "valid x \<Longrightarrow> valid y \<Longrightarrow> enc x = enc y \<longleftrightarrow> x = y"
  using enc_inj by blast

end

locale fixed_codec = codec +
  fixes width :: nat
  assumes enc_width: "valid x \<Longrightarrow> length (enc x) = width"
begin

lemma enc_append_inj:
  assumes "valid x" and "valid y" and "enc x @ r = enc y @ s"
  shows "x = y \<and> r = s"
proof -
  have "length (enc x) = length (enc y)" using assms(1,2) by (simp add: enc_width)
  then have "enc x = enc y \<and> r = s" using assms(3) by simp
  then show ?thesis using assms(1,2) enc_inj by blast
qed

end

lemma word_of_le_bytes:
  fixes v :: "'n::len word"
  assumes "256 ^ w = (2::nat) ^ LENGTH('n)"
  shows "word_of_nat (of_le_bytes (le_bytes w (unat v))) = v"
  using unat_bound [of v] assms by (simp add: of_le_bytes_le_bytes)

interpretation u16c: fixed_codec u16_le u16_of_le "\<lambda>_. True" 2
  by unfold_locales (simp_all add: u16_le_def u16_of_le_def word_of_le_bytes)

interpretation u32c: fixed_codec u32_le u32_of_le "\<lambda>_. True" 4
  by unfold_locales (simp_all add: u32_le_def u32_of_le_def word_of_le_bytes)

interpretation u64c: fixed_codec u64_le u64_of_le "\<lambda>_. True" 8
  by unfold_locales (simp_all add: u64_le_def u64_of_le_def word_of_le_bytes)

interpretation u64b: fixed_codec u64_be u64_of_be "\<lambda>_. True" 8
  by unfold_locales (simp_all add: u64_be_def u64_of_be_def u64_of_le_def word_of_le_bytes)

subsection \<open>The keyed store interface\<close>

text \<open>
  Every component keeps some table keyed by an identifier. The contract is a last-writer-wins
  map: an insert is visible under its key and leaves every other key alone.
\<close>

locale keyed_store =
  fixes put :: "'k \<Rightarrow> 'v \<Rightarrow> 's \<Rightarrow> 's"
    and get :: "'s \<Rightarrow> 'k \<Rightarrow> 'v option"
  assumes get_put: "get (put k v s) k = Some v"
    and get_put_other: "k' \<noteq> k \<Longrightarrow> get (put k v s) k' = get s k'"
begin

lemma get_put_if: "get (put k v s) k' = (if k' = k then Some v else get s k')"
  by (simp add: get_put get_put_other)

lemma get_foldl_put:
  "get (foldl (\<lambda>s (k, v). put k v s) s kvs) k =
     (case map_of (rev kvs) k of None \<Rightarrow> get s k | Some v \<Rightarrow> Some v)"
proof (induction kvs rule: rev_induct)
  case Nil
  then show ?case by simp
next
  case (snoc kv kvs)
  then show ?case by (cases kv) (simp add: get_put_if)
qed

end

subsection \<open>Stream reads\<close>

text \<open>
  \<open>Read::read_exact\<close> on a finite stream: the requested bytes and the rest, or an
  unexpected end of file.
\<close>

definition read_exact :: "nat \<Rightarrow> bytes \<Rightarrow> (bytes \<times> bytes) option" where
  "read_exact n r = (if n \<le> length r then Some (take n r, drop n r) else None)"

lemma read_exact_append [simp]: "length a = n \<Longrightarrow> read_exact n (a @ r) = Some (a, r)"
  by (simp add: read_exact_def)

lemma read_exact_Some: "read_exact n r = Some (a, r') \<longleftrightarrow> r = a @ r' \<and> length a = n"
  by (auto simp: read_exact_def)

subsection \<open>UTF-8 validity, as \<open>String::from_utf8\<close> checks it\<close>

definition cont :: "byte \<Rightarrow> bool" where
  "cont b \<longleftrightarrow> 0x80 \<le> b \<and> b \<le> 0xBF"

fun utf8_valid :: "bytes \<Rightarrow> bool" where
  "utf8_valid [] = True"
| "utf8_valid (a # bs) =
     (if a \<le> 0x7F then utf8_valid bs
      else if 0xC2 \<le> a \<and> a \<le> 0xDF then
        (case bs of b # r \<Rightarrow> cont b \<and> utf8_valid r | _ \<Rightarrow> False)
      else if 0xE0 \<le> a \<and> a \<le> 0xEF then
        (case bs of b # c # r \<Rightarrow>
           cont b \<and> cont c \<and> (a = 0xE0 \<longrightarrow> 0xA0 \<le> b) \<and> (a = 0xED \<longrightarrow> b \<le> 0x9F) \<and> utf8_valid r
         | _ \<Rightarrow> False)
      else if 0xF0 \<le> a \<and> a \<le> 0xF4 then
        (case bs of b # c # d # r \<Rightarrow>
           cont b \<and> cont c \<and> cont d \<and> (a = 0xF0 \<longrightarrow> 0x90 \<le> b) \<and> (a = 0xF4 \<longrightarrow> b \<le> 0x8F)
             \<and> utf8_valid r
         | _ \<Rightarrow> False)
      else False)"

subsection \<open>White space\<close>

text \<open>\<open>str::trim\<close> on the characters below 256.\<close>

definition char_whitespace :: "char \<Rightarrow> bool" where
  "char_whitespace c \<longleftrightarrow> (let n = of_char c :: nat in 9 \<le> n \<and> n \<le> 13 \<or> n = 32 \<or> n = 0x85 \<or> n = 0xA0)"

definition trim :: "string \<Rightarrow> string" where
  "trim s = rev (dropWhile char_whitespace (rev (dropWhile char_whitespace s)))"

lemma trim_blank: "trim s = [] \<longleftrightarrow> (\<forall>c \<in> set s. char_whitespace c)"
proof -
  have "dropWhile char_whitespace s = [] \<longleftrightarrow> (\<forall>c \<in> set s. char_whitespace c)" by (simp add: dropWhile_eq_Nil_conv)
  moreover have "(\<forall>c \<in> set (dropWhile char_whitespace s). char_whitespace c) \<longleftrightarrow> (\<forall>c \<in> set s. char_whitespace c)"
    by (induction s) auto
  ultimately show ?thesis by (simp add: trim_def)
qed

text \<open>\<open>str::split\<close> at a character; the second argument is the part read so far.\<close>

fun split_at :: "char \<Rightarrow> string \<Rightarrow> string \<Rightarrow> string list" where
  "split_at sep cur [] = [cur]"
| "split_at sep cur (c # cs) = (if c = sep then cur # split_at sep [] cs else split_at sep (cur @ [c]) cs)"

subsection \<open>Characters of ASCII literals as bytes\<close>

definition ascii :: "string \<Rightarrow> bytes" where
  "ascii s = map (\<lambda>c. of_char c) s"

lemma length_ascii [simp]: "length (ascii s) = length s"
  by (simp add: ascii_def)

lemma of_char_byte_inj: "(of_char c :: byte) = of_char d \<longleftrightarrow> c = d"
proof
  assume eq: "(of_char c :: byte) = of_char d"
  have un: "unat (of_char e :: byte) = of_char e" for e
  proof -
    have "(of_char e :: byte) = word_of_nat (of_char e)" by (simp add: of_nat_of_char)
    then show ?thesis by (simp only: unat_of_nat) simp
  qed
  have "(of_char c :: nat) = of_char d" using arg_cong [OF eq, of unat] by (simp only: un)
  then show "c = d" by simp
qed simp

lemma ascii_inj: "ascii a = ascii b \<longleftrightarrow> a = b"
  by (simp add: ascii_def inj_map_eq_map inj_def of_char_byte_inj)

lemma unat_ucast_up:
  fixes x :: "'a::len word"
  assumes "LENGTH('a) \<le> LENGTH('b)"
  shows "unat (ucast x :: 'b::len word) = unat x"
proof -
  have "(2::nat) ^ LENGTH('a) \<le> 2 ^ LENGTH('b)" using assms by simp
  then have "unat x < 2 ^ LENGTH('b)" using unat_bound [of x] by linarith
  then show ?thesis by (simp add: unsigned_ucast_eq take_bit_nat_eq_self)
qed

lemma ucast_inj_up:
  fixes a b :: "'a::len word"
  assumes "LENGTH('a) \<le> LENGTH('b)"
  shows "(ucast a :: 'b::len word) = ucast b \<longleftrightarrow> a = b"
proof
  assume "(ucast a :: 'b word) = ucast b"
  then have "unat (ucast a :: 'b word) = unat (ucast b :: 'b word)" by simp
  then show "a = b" using assms by (simp add: unat_ucast_up word_unat_eq_iff)
qed simp

end
