(* ===== verification/Core_Types.thy ===== *)
theory Core_Types
  imports Prelude
begin

text \<open>
  The shared types of \<open>crates/zbacs-core\<close>: the error enum (\<open>error.rs\<close>), the
  fixed-size identifiers (\<open>types.rs\<close>), the permission enum (\<open>header.rs\<close>) and
  the crate constants (\<open>lib.rs\<close>). A fixed-size array is a byte list whose length the
  operations keep; \<open>fixed_from_slice\<close> is the one place a length is checked.
\<close>

subsection \<open>error.rs\<close>

datatype core_error =
    Io
  | BadMagic
  | UnsupportedVersion u8 u8
  | HeaderTooLarge nat
  | HeaderEncode string
  | HeaderDecode string
  | HeaderSignature
  | UnsupportedCipher u8
  | BadChunkSize u32
  | ChunkAuth nat
  | Truncated
  | NoEnvelope
  | NoOwnerKey
  | EnvelopeOpen
  | EnvelopeSeal
  | NameAuth
  | BackupAuth
  | RecoveryCodeError
  | BrokenChain string
  | KeyLength

subsection \<open>types.rs\<close>

definition fixed_from_slice :: "nat \<Rightarrow> bytes \<Rightarrow> core_error + bytes" where
  "fixed_from_slice n b = (if length b = n then Inr b else Inl KeyLength)"

definition hex_digit :: "nat \<Rightarrow> char" where
  "hex_digit n = (if n < 10 then char_of (48 + n) else char_of (87 + n))"

fun fixed_display :: "bytes \<Rightarrow> string" where
  "fixed_display [] = []"
| "fixed_display (b # bs) =
     hex_digit (unat b div 16) # hex_digit (unat b mod 16) # fixed_display bs"

subsection \<open>header.rs: Permission\<close>

datatype permission = Deny | ReadOnly | Edit

fun permission_u8 :: "permission \<Rightarrow> u8" where
  "permission_u8 Deny = 0"
| "permission_u8 ReadOnly = 1"
| "permission_u8 Edit = 2"

subsection \<open>lib.rs and header.rs constants\<close>

definition DEFAULT_CHUNK :: nat where "DEFAULT_CHUNK = 64 * 1024"
definition MAX_HEADER_LEN :: nat where "MAX_HEADER_LEN = 1024 * 1024"
definition HDR_SIG_DOMAIN :: bytes where "HDR_SIG_DOMAIN = ascii ''ZBACS-HDR-v1''"
definition POL_HASH_DOMAIN :: bytes where "POL_HASH_DOMAIN = ascii ''ZBACS-POL-v1''"
definition DEK_INFO :: bytes where "DEK_INFO = ascii ''zbacs-dek-v1''"
definition MAGIC :: bytes where "MAGIC = ascii ''ZBACS'' @ [0]"
definition VERSION_MAJOR :: u8 where "VERSION_MAJOR = 1"
definition VERSION_MINOR :: u8 where "VERSION_MINOR = 1"
definition CIPHER_XCHACHA20_POLY1305_CHUNKED :: u8 where
  "CIPHER_XCHACHA20_POLY1305_CHUNKED = 1"

lemma length_MAGIC [simp]: "length MAGIC = 6"
  by (simp add: MAGIC_def)

lemma permission_u8_inj [simp]: "permission_u8 p = permission_u8 q \<longleftrightarrow> p = q"
  by (cases p; cases q) auto

lemma hex_digit_inj: "m < 16 \<Longrightarrow> n < 16 \<Longrightarrow> hex_digit m = hex_digit n \<Longrightarrow> m = n"
proof -
  assume m: "m < 16" and n: "n < 16" and eq: "hex_digit m = hex_digit n"
  have val: "of_char (hex_digit k) = (if k < 10 then 48 + k else 87 + k)" if "k < 16" for k :: nat
    using that by (simp add: hex_digit_def)
  have "(of_char (hex_digit m) :: nat) = of_char (hex_digit n)" using eq by simp
  then show ?thesis using val [OF m] val [OF n] m n by (auto split: if_splits)
qed

lemma length_fixed_display [simp]: "length (fixed_display b) = 2 * length b"
  by (induction b) auto

lemma fixed_display_inj: "fixed_display a = fixed_display b \<Longrightarrow> a = b"
proof (induction a arbitrary: b)
  case Nil
  then show ?case by (cases b) auto
next
  case (Cons x a)
  then obtain y b' where b: "b = y # b'" by (cases b) auto
  have lt: "unat z div 16 < 16" "unat z mod 16 < 16" for z :: byte
    using unat_bound [of z] by (auto simp: less_mult_imp_div_less)
  from Cons.prems b have hi: "unat x div 16 = unat y div 16" and lo: "unat x mod 16 = unat y mod 16"
    using hex_digit_inj lt by auto
  have "unat x = unat y" using hi lo by (metis div_mult_mod_eq)
  moreover have "a = b'" using Cons b by simp
  ultimately show ?case using b by (simp add: word_unat_eq_iff)
qed

end
