(* ===== verification/Keys.thy ===== *)
theory Keys
  imports Core_Types
begin

text \<open>
  Key material and DEK envelopes: \<open>keys.rs\<close> and \<open>envelope.rs\<close> of
  \<open>crates/zbacs-core\<close>.

  The primitives come from third-party crates (\<open>sha2\<close>, \<open>blake3\<close>,
  \<open>chacha20poly1305\<close>, \<open>hpke-rs\<close>, \<open>x25519-dalek\<close>, \<open>ed25519-dalek\<close>), so
  they are the fields of a record that every definition takes as its argument \<open>X\<close>.
  What the code relies on is stated by the predicates below it: lengths, that decryption
  inverts encryption exactly (RFC 8439: a ciphertext authenticates for a message if and only
  if it is that message's encryption under the same key, nonce and associated data), that HPKE
  opens what was sealed to the matching public key, that a signature by a key verifies under
  its public half. Randomness drawn from the operating system is an explicit argument.
\<close>

record crypto =
  sha256 :: "bytes \<Rightarrow> bytes"
  blake3 :: "bytes \<Rightarrow> bytes"
  aead_encrypt :: "bytes \<Rightarrow> bytes \<Rightarrow> bytes \<Rightarrow> bytes \<Rightarrow> bytes option"
  aead_decrypt :: "bytes \<Rightarrow> bytes \<Rightarrow> bytes \<Rightarrow> bytes \<Rightarrow> bytes option"
  hpke_seal :: "bytes \<Rightarrow> bytes \<Rightarrow> bytes \<Rightarrow> bytes \<Rightarrow> bytes \<Rightarrow> (bytes \<times> bytes) option"
  hpke_open :: "bytes \<Rightarrow> bytes \<Rightarrow> bytes \<Rightarrow> bytes \<Rightarrow> bytes \<Rightarrow> bytes option"
  x25519_base :: "bytes \<Rightarrow> bytes"
  ed25519_public :: "bytes \<Rightarrow> bytes"
  ed25519_key_ok :: "bytes \<Rightarrow> bool"
  ed25519_sign :: "bytes \<Rightarrow> bytes \<Rightarrow> bytes"
  ed25519_verify :: "bytes \<Rightarrow> bytes \<Rightarrow> bytes \<Rightarrow> bool"

subsection \<open>What the code relies on\<close>

definition hash_lengths :: "'x crypto_scheme \<Rightarrow> bool" where
  "hash_lengths X \<longleftrightarrow> (\<forall>m. length (sha256 X m) = 32 \<and> length (blake3 X m) = 32)"

definition aead_exact :: "'x crypto_scheme \<Rightarrow> bool" where
  "aead_exact X \<longleftrightarrow>
     (\<forall>k n a m c. aead_encrypt X k n a m = Some c \<longrightarrow> length c = length m + 16) \<and>
     (\<forall>k n a m c. aead_decrypt X k n a c = Some m \<longleftrightarrow> aead_encrypt X k n a m = Some c)"

definition hpke_opens :: "'x crypto_scheme \<Rightarrow> bool" where
  "hpke_opens X \<longleftrightarrow>
     (\<forall>sk info aad pt eph e c.
        hpke_seal X (x25519_base X sk) info aad pt eph = Some (e, c) \<longrightarrow>
        hpke_open X e sk info aad c = Some pt)"

definition ed25519_signs :: "'x crypto_scheme \<Rightarrow> bool" where
  "ed25519_signs X \<longleftrightarrow>
     (\<forall>sk m. length (ed25519_public X sk) = 32 \<and> length (ed25519_sign X sk m) = 64 \<and>
        ed25519_key_ok X (ed25519_public X sk) \<and>
        ed25519_verify X (ed25519_public X sk) m (ed25519_sign X sk m))"

lemma ed25519_signsD:
  assumes "ed25519_signs X"
  shows "length (ed25519_public X sk) = 32" and "length (ed25519_sign X sk m) = 64"
    and "ed25519_key_ok X (ed25519_public X sk)"
    and "ed25519_verify X (ed25519_public X sk) m (ed25519_sign X sk m)"
  using assms unfolding ed25519_signs_def by blast+

lemma hash_lengthsD:
  assumes "hash_lengths X"
  shows "length (sha256 X m) = 32" and "length (blake3 X m) = 32"
  using assms unfolding hash_lengths_def by blast+

lemma aead_exact_length: "aead_exact X \<Longrightarrow> aead_encrypt X k n a m = Some c \<Longrightarrow> length c = length m + 16"
  unfolding aead_exact_def by blast

lemma aead_exact_iff:
  "aead_exact X \<Longrightarrow> aead_decrypt X k n a c = Some m \<longleftrightarrow> aead_encrypt X k n a m = Some c"
  unfolding aead_exact_def by blast

lemma hpke_opensD:
  "hpke_opens X \<Longrightarrow> hpke_seal X (x25519_base X sk) info aad pt eph = Some (e, c) \<Longrightarrow>
     hpke_open X e sk info aad c = Some pt"
  unfolding hpke_opens_def by blast

subsection \<open>keys.rs\<close>

text \<open>A data encryption key is its 32 bytes; \<open>Dek::generate\<close> draws them.\<close>

definition dek_from_bytes :: "bytes \<Rightarrow> core_error + bytes" where
  "dek_from_bytes b = (if length b = 32 then Inr b else Inl KeyLength)"

record device_keys =
  x25519_sk :: bytes
  x25519_pk :: bytes

definition x25519_public :: "'x crypto_scheme \<Rightarrow> bytes \<Rightarrow> core_error + bytes" where
  "x25519_public X sk = (if length sk = 32 then Inr (x25519_base X sk) else Inl KeyLength)"

definition device_keys_from_secret :: "'x crypto_scheme \<Rightarrow> bytes \<Rightarrow> core_error + device_keys" where
  "device_keys_from_secret X sk =
     (if length sk \<noteq> 32 then Inl KeyLength
      else rbind (x25519_public X sk) (\<lambda>pk. Inr \<lparr>x25519_sk = sk, x25519_pk = pk\<rparr>))"

definition key_id_of :: "'x crypto_scheme \<Rightarrow> bytes \<Rightarrow> bytes" where
  "key_id_of X pk = take 16 (sha256 X pk)"

definition device_key_id :: "'x crypto_scheme \<Rightarrow> device_keys \<Rightarrow> bytes" where
  "device_key_id X k = key_id_of X (x25519_pk k)"

text \<open>A signing key pair is its 32-byte secret; the verifying key is derived from it.\<close>

definition signing_keys_from_secret :: "bytes \<Rightarrow> core_error + bytes" where
  "signing_keys_from_secret b = (if length b = 32 then Inr b else Inl KeyLength)"

definition verifying_key :: "'x crypto_scheme \<Rightarrow> bytes \<Rightarrow> bytes" where
  "verifying_key X sk = ed25519_public X sk"

record owner_keys =
  sealing :: device_keys
  signing :: bytes

definition keys_wf :: "'x crypto_scheme \<Rightarrow> device_keys \<Rightarrow> bool" where
  "keys_wf X k \<longleftrightarrow> length (x25519_sk k) = 32 \<and> x25519_pk k = x25519_base X (x25519_sk k)"

lemma device_keys_from_secret_Inr [res_simps]:
  "device_keys_from_secret X sk = Inr k \<longleftrightarrow>
     length sk = 32 \<and> k = \<lparr>x25519_sk = sk, x25519_pk = x25519_base X sk\<rparr>"
  by (auto simp: device_keys_from_secret_def x25519_public_def)

lemma device_keys_from_secret_wf: "device_keys_from_secret X sk = Inr k \<Longrightarrow> keys_wf X k"
  by (auto simp: device_keys_from_secret_Inr keys_wf_def)

subsection \<open>envelope.rs\<close>

definition ALG_HPKE_X25519_CHACHA :: string where
  "ALG_HPKE_X25519_CHACHA = ''hpke-x25519-chacha''"

record envelope =
  env_kid :: bytes
  env_alg :: string
  env_enc :: bytes
  env_ct :: bytes

definition envelope_seal ::
  "'x crypto_scheme \<Rightarrow> bytes \<Rightarrow> bytes \<Rightarrow> bytes \<Rightarrow> bytes \<Rightarrow> core_error + envelope" where
  "envelope_seal X eph recipient_pk dek aad =
     rbind (ok_or (hpke_seal X recipient_pk DEK_INFO aad dek eph) EnvelopeSeal)
       (\<lambda>(enc, ct). Inr \<lparr>env_kid = key_id_of X recipient_pk, env_alg = ALG_HPKE_X25519_CHACHA,
                          env_enc = enc, env_ct = ct\<rparr>)"

definition envelope_open ::
  "'x crypto_scheme \<Rightarrow> envelope \<Rightarrow> device_keys \<Rightarrow> bytes \<Rightarrow> core_error + bytes" where
  "envelope_open X e keys aad =
     (if env_alg e \<noteq> ALG_HPKE_X25519_CHACHA then Inl EnvelopeOpen
      else rbind (ok_or (hpke_open X (env_enc e) (x25519_sk keys) DEK_INFO aad (env_ct e)) EnvelopeOpen)
             dek_from_bytes)"

lemma envelope_seal_Inr [res_simps]:
  "envelope_seal X eph pk dek aad = Inr e \<longleftrightarrow>
     env_kid e = key_id_of X pk \<and> env_alg e = ALG_HPKE_X25519_CHACHA \<and>
     hpke_seal X pk DEK_INFO aad dek eph = Some (env_enc e, env_ct e)"
  by (cases e) (auto simp: envelope_seal_def res_simps)

lemma envelope_open_seal:
  assumes "hpke_opens X" and "keys_wf X k" and "length dek = 32"
    and "envelope_seal X eph (x25519_pk k) dek aad = Inr e"
  shows "envelope_open X e k aad = Inr dek"
proof -
  from assms(4) have alg: "env_alg e = ALG_HPKE_X25519_CHACHA"
    and sealed: "hpke_seal X (x25519_base X (x25519_sk k)) DEK_INFO aad dek eph = Some (env_enc e, env_ct e)"
    using assms(2) by (auto simp: envelope_seal_Inr keys_wf_def)
  show ?thesis
    using hpke_opensD [OF assms(1) sealed] alg assms(3)
    by (simp add: envelope_open_def dek_from_bytes_def)
qed

lemma envelope_open_length: "envelope_open X e k aad = Inr dek \<Longrightarrow> length dek = 32"
  by (auto simp: envelope_open_def dek_from_bytes_def res_simps split: if_splits)

lemma envelope_seal_kid: "envelope_seal X eph pk dek aad = Inr e \<Longrightarrow> env_kid e = key_id_of X pk"
  by (simp add: res_simps)

end
