(* ===== verification/Header.thy ===== *)
theory Header
  imports Keys
begin

text \<open>
  The signed container header (\<open>crates/zbacs-core/src/header.rs\<close>): the policy, the
  header body, the signature over the domain-separated CBOR of the body, and the bounded
  encoding and verified decoding of the whole header. CBOR itself is the third-party
  \<open>ciborium\<close>/\<open>serde\<close> encoding and is a parameter (the fields \<open>cbor_*\<close> and
  \<open>uncbor_*\<close> of the library record).
\<close>

record policy =
  pol_default :: permission
  pol_ttl :: u32
  pol_max :: u16
  pol_pin :: bool
  pol_strict :: bool

definition default_policy :: policy where
  "default_policy =
     \<lparr>pol_default = ReadOnly, pol_ttl = 3600, pol_max = 1, pol_pin = True, pol_strict = False\<rparr>"

record header_body =
  hb_fid :: bytes
  hb_salt :: bytes
  hb_ver :: u32
  hb_prev :: "bytes option"
  hb_own :: bytes
  hb_opub :: "bytes option"
  hb_pol :: policy
  hb_cipher :: u8
  hb_chunk :: u32
  hb_plen :: u64
  hb_np :: bytes
  hb_name :: bytes
  hb_env :: "envelope list"

record header =
  hdr_body :: header_body
  hdr_sigk :: bytes
  hdr_sig :: bytes

text \<open>The CBOR functions the crate calls, beside the primitives.\<close>

record core_lib = crypto +
  cbor_policy :: "policy \<Rightarrow> string + bytes"
  cbor_body :: "header_body \<Rightarrow> string + bytes"
  cbor_header :: "header \<Rightarrow> string + bytes"
  uncbor_header :: "bytes \<Rightarrow> string + header"

definition policy_hash :: "'x core_lib_scheme \<Rightarrow> policy \<Rightarrow> core_error + bytes" where
  "policy_hash X p =
     rbind (map_err HeaderEncode (cbor_policy X p)) (\<lambda>c. Inr (sha256 X (POL_HASH_DOMAIN @ c)))"

definition signing_message :: "'x core_lib_scheme \<Rightarrow> header_body \<Rightarrow> core_error + bytes" where
  "signing_message X b =
     rbind (map_err HeaderEncode (cbor_body X b)) (\<lambda>c. Inr (HDR_SIG_DOMAIN @ c))"

definition header_sign :: "'x core_lib_scheme \<Rightarrow> header_body \<Rightarrow> bytes \<Rightarrow> core_error + header" where
  "header_sign X b sk =
     rbind (signing_message X b)
       (\<lambda>m. Inr \<lparr>hdr_body = b, hdr_sigk = verifying_key X sk, hdr_sig = ed25519_sign X sk m\<rparr>)"

definition header_encode :: "'x core_lib_scheme \<Rightarrow> header \<Rightarrow> core_error + bytes" where
  "header_encode X h =
     rbind (map_err HeaderEncode (cbor_header X h))
       (\<lambda>bs. if length bs > MAX_HEADER_LEN then Inl (HeaderTooLarge (length bs)) else Inr bs)"

definition header_verify :: "'x core_lib_scheme \<Rightarrow> header \<Rightarrow> core_error + unit" where
  "header_verify X h =
     (if length (hdr_sigk h) \<noteq> 32 then Inl HeaderSignature
      else if \<not> ed25519_key_ok X (hdr_sigk h) then Inl HeaderSignature
      else if length (hdr_sig h) \<noteq> 64 then Inl HeaderSignature
      else rbind (signing_message X (hdr_body h))
             (\<lambda>m. if ed25519_verify X (hdr_sigk h) m (hdr_sig h) then Inr () else Inl HeaderSignature))"

definition header_decode_verified ::
  "'x core_lib_scheme \<Rightarrow> bytes \<Rightarrow> core_error + (header \<times> bytes)" where
  "header_decode_verified X bs =
     (if length bs > MAX_HEADER_LEN then Inl (HeaderTooLarge (length bs))
      else rbind (map_err HeaderDecode (uncbor_header X bs))
             (\<lambda>h. rbind (header_verify X h) (\<lambda>_. Inr (h, sha256 X bs))))"

definition header_hash :: "'x core_lib_scheme \<Rightarrow> header \<Rightarrow> core_error + bytes" where
  "header_hash X h = rbind (header_encode X h) (\<lambda>bs. Inr (sha256 X bs))"

definition header_policy_hash :: "'x core_lib_scheme \<Rightarrow> header \<Rightarrow> core_error + bytes" where
  "header_policy_hash X h = policy_hash X (hb_pol (hdr_body h))"

subsection \<open>Signing and encoding\<close>

lemma header_sign_body: "header_sign X b sk = Inr h \<Longrightarrow> hdr_body h = b"
  by (auto simp: header_sign_def res_simps)

lemma header_sign_verifies:
  assumes "ed25519_signs X" and "header_sign X b sk = Inr h"
  shows "header_verify X h = Inr ()"
proof -
  from assms(2) obtain m where m: "signing_message X b = Inr m"
    and h: "h = \<lparr>hdr_body = b, hdr_sigk = verifying_key X sk, hdr_sig = ed25519_sign X sk m\<rparr>"
    by (auto simp: header_sign_def res_simps)
  show ?thesis using m by (simp add: h header_verify_def verifying_key_def ed25519_signsD [OF assms(1)])
qed

lemma header_encode_Inr [res_simps]:
  "header_encode X h = Inr bs \<longleftrightarrow> cbor_header X h = Inr bs \<and> length bs \<le> MAX_HEADER_LEN"
  by (auto simp: header_encode_def res_simps split: if_splits)

lemma header_decode_verified_Inr:
  "header_decode_verified X bs = Inr (h, hh) \<longleftrightarrow>
     length bs \<le> MAX_HEADER_LEN \<and> uncbor_header X bs = Inr h \<and> header_verify X h = Inr () \<and>
     hh = sha256 X bs"
  by (auto simp: header_decode_verified_def res_simps)

lemma header_verify_unsigned:
  assumes "header_verify X h = Inr ()"
  obtains m where "signing_message X (hdr_body h) = Inr m"
    and "ed25519_verify X (hdr_sigk h) m (hdr_sig h)"
    and "length (hdr_sigk h) = 32" and "length (hdr_sig h) = 64"
  using assms by (auto simp: header_verify_def res_simps split: if_splits)

lemma header_decode_encode:
  assumes "ed25519_signs X" and "header_sign X b sk = Inr h" and "header_encode X h = Inr bs"
    and "uncbor_header X bs = Inr h"
  shows "header_decode_verified X bs = Inr (h, sha256 X bs) \<and> header_hash X h = Inr (sha256 X bs)"
proof
  show "header_decode_verified X bs = Inr (h, sha256 X bs)"
    using assms header_sign_verifies [OF assms(1,2)] by (simp add: header_decode_verified_Inr res_simps)
  show "header_hash X h = Inr (sha256 X bs)" using assms(3) by (simp add: header_hash_def)
qed

end
