(* ===== verification/Sample_Lib.thy ===== *)
theory Sample_Lib
  imports Header
begin

text \<open>
  A concrete instance of the third-party functions, small enough to evaluate. It meets every
  hypothesis the development states about them, so each theorem with such a hypothesis can be
  applied to closed inputs. It is no model of the real primitives: its cipher only appends a
  tag of zeros, its hash is constant.
\<close>

definition sample_decrypt :: "bytes \<Rightarrow> bytes \<Rightarrow> bytes \<Rightarrow> bytes \<Rightarrow> bytes option" where
  "sample_decrypt k n a c =
     (if 16 \<le> length c \<and> drop (length c - 16) c = replicate 16 0 then Some (take (length c - 16) c) else None)"

definition sample_lib :: "(bytes \<Rightarrow> string + header) \<Rightarrow> core_lib" where
  "sample_lib f =
     \<lparr>sha256 = \<lambda>_. replicate 32 7, blake3 = \<lambda>_. replicate 32 9,
      aead_encrypt = \<lambda>k n a m. Some (m @ replicate 16 0), aead_decrypt = sample_decrypt,
      hpke_seal = \<lambda>pk info aad pt eph. Some (take 32 eph, pt), hpke_open = \<lambda>e sk info aad ct. Some ct,
      x25519_base = \<lambda>sk. sk,
      ed25519_public = \<lambda>sk. replicate 32 1, ed25519_key_ok = \<lambda>_. True,
      ed25519_sign = \<lambda>sk m. replicate 64 2, ed25519_verify = \<lambda>pk m s. True,
      cbor_policy = \<lambda>_. Inr [], cbor_body = \<lambda>_. Inr [], cbor_header = \<lambda>h. Inr [ucast (hb_ver (hdr_body h))],
      uncbor_header = f\<rparr>"

lemma sample_lib_sel [simp]:
  "sha256 (sample_lib f) m = replicate 32 7" "blake3 (sample_lib f) m = replicate 32 9"
  "aead_encrypt (sample_lib f) k n a m = Some (m @ replicate 16 0)"
  "aead_decrypt (sample_lib f) = sample_decrypt"
  "hpke_seal (sample_lib f) pk info aad pt eph = Some (take 32 eph, pt)"
  "hpke_open (sample_lib f) e sk info aad ct = Some ct" "x25519_base (sample_lib f) sk = sk"
  "ed25519_public (sample_lib f) sk = replicate 32 1" "ed25519_key_ok (sample_lib f) pk"
  "ed25519_sign (sample_lib f) sk m = replicate 64 2" "ed25519_verify (sample_lib f) pk m s"
  "cbor_policy (sample_lib f) p = Inr []" "cbor_body (sample_lib f) b = Inr []"
  "cbor_header (sample_lib f) h = Inr [ucast (hb_ver (hdr_body h))]" "uncbor_header (sample_lib f) = f"
  by (simp_all add: sample_lib_def)

lemma sample_lib_ok [simp]:
  "hash_lengths (sample_lib f)" "aead_exact (sample_lib f)" "hpke_opens (sample_lib f)"
  "ed25519_signs (sample_lib f)"
proof -
  have dec: "sample_decrypt k n a c = Some m \<longleftrightarrow> m @ replicate 16 0 = c" for k n a c m
  proof
    assume "sample_decrypt k n a c = Some m"
    then have m: "m = take (length c - 16) c" and d: "drop (length c - 16) c = replicate 16 0"
      by (auto simp: sample_decrypt_def split: if_splits)
    show "m @ replicate 16 0 = c" unfolding m d [symmetric] by simp
  next
    assume "m @ replicate 16 0 = c"
    then show "sample_decrypt k n a c = Some m" by (auto simp: sample_decrypt_def)
  qed
  show "aead_exact (sample_lib f)" by (simp add: aead_exact_def dec)
qed (simp_all add: hash_lengths_def hpke_opens_def ed25519_signs_def)

text \<open>Records that extend the core library agree with the sample on its part.\<close>

definition sample_core :: "(bytes \<Rightarrow> string + header) \<Rightarrow> 'x core_lib_scheme \<Rightarrow> bool" where
  "sample_core f X \<longleftrightarrow> core_lib.truncate X = sample_lib f"

lemma sample_core_self [simp]: "sample_core f (sample_lib f)"
  by (simp add: sample_core_def core_lib.defs sample_lib_def)

lemma sample_core_sel:
  assumes "sample_core f X"
  shows "sha256 X = (\<lambda>_. replicate 32 7)" "blake3 X = (\<lambda>_. replicate 32 9)"
    "aead_decrypt X = sample_decrypt" "ed25519_key_ok X = (\<lambda>_. True)" "ed25519_verify X = (\<lambda>pk m s. True)"
    "cbor_policy X = (\<lambda>_. Inr [])" "cbor_body X = (\<lambda>_. Inr [])" "uncbor_header X = f"
    "aead_encrypt X = (\<lambda>k n a m. Some (m @ replicate 16 0))"
    "hpke_seal X = (\<lambda>pk info aad pt eph. Some (take 32 eph, pt))"
    "ed25519_public X = (\<lambda>sk. replicate 32 1)" "ed25519_sign X = (\<lambda>sk m. replicate 64 2)"
    "cbor_header X = (\<lambda>h. Inr [ucast (hb_ver (hdr_body h))])"
  using assms by (simp_all add: sample_core_def sample_lib_def core_lib.defs)

definition sample_keys :: device_keys where
  "sample_keys = \<lparr>x25519_sk = replicate 32 6, x25519_pk = replicate 32 6\<rparr>"

text \<open>The first version of a one-byte file sealed under the sample library.\<close>

definition sample_header :: header where
  "sample_header =
     \<lparr>hdr_body =
        \<lparr>hb_fid = replicate 32 7, hb_salt = replicate 16 5, hb_ver = 1, hb_prev = None, hb_own = [1],
         hb_opub = Some (replicate 32 6), hb_pol = default_policy,
         hb_cipher = CIPHER_XCHACHA20_POLY1305_CHUNKED, hb_chunk = 65536, hb_plen = 1,
         hb_np = replicate 16 4, hb_name = [1, 0, 97] @ replicate 77 0,
         hb_env = [\<lparr>env_kid = replicate 16 7, env_alg = ALG_HPKE_X25519_CHACHA, env_enc = [],
                    env_ct = replicate 32 3\<rparr>]\<rparr>,
      hdr_sigk = replicate 32 1, hdr_sig = replicate 64 2\<rparr>"

text \<open>Its second version, and a decoder that knows the two.\<close>

definition sample_header2 :: header where
  "sample_header2 =
     sample_header\<lparr>hdr_body := (hdr_body sample_header)\<lparr>hb_ver := 2, hb_prev := Some (replicate 32 7)\<rparr>\<rparr>"

definition sample_uncbor :: "bytes \<Rightarrow> string + header" where
  "sample_uncbor bs =
     (if bs = [1] then Inr sample_header else if bs = [2] then Inr sample_header2 else Inl ''unknown'')"

lemma sample_ver [simp]:
  "hb_ver (hdr_body sample_header) = 1" "hb_ver (hdr_body sample_header2) = 2"
  by (simp_all add: sample_header_def sample_header2_def)

lemma sample_keys_ok [simp]: "keys_wf (sample_lib f) sample_keys"
  by (simp add: keys_wf_def sample_keys_def)

end
