(* ===== verification/Container.thy ===== *)
theory Container
  imports Header Sample_Lib
begin

text \<open>
  The \<open>.zbacs\<close> container (\<open>crates/zbacs-core/src/container.rs\<close>): file-name padding,
  chunk nonces and associated data, sealing, header reading and validation, the chunk-stream
  decryption, reseal by owner and by recipient, and the version-chain check.

  A stream is a finite byte list; an operation that writes returns the bytes it wrote together
  with its result, because the code leaves partial output behind on an error. A file system is
  a partial map from paths to contents. Sizes are natural numbers once read from their
  fixed-width header fields; sums of buffer lengths cannot overflow a 64-bit \<open>usize\<close>.
\<close>

subsection \<open>Constants\<close>

definition TAG_LEN :: nat where "TAG_LEN = 16"
definition NAME_INDEX :: u64 where "NAME_INDEX = 0xFFFFFFFFFFFFFFFF"
definition MAX_CHUNK :: nat where "MAX_CHUNK = 16 * 1024 * 1024"
definition MAX_OWNER_LEN :: nat where "MAX_OWNER_LEN = 64"
definition NAME_PAD_BLOCK :: nat where "NAME_PAD_BLOCK = 64"
definition MAX_NAME_LEN :: nat where "MAX_NAME_LEN = 1024"
definition MAX_NAME_CT_LEN :: nat where "MAX_NAME_CT_LEN = 1088 + TAG_LEN"
definition MAX_ENVELOPES :: nat where "MAX_ENVELOPES = 32"
definition MAX_ENVELOPE_FIELD_LEN :: nat where "MAX_ENVELOPE_FIELD_LEN = 1024"

lemmas container_consts = TAG_LEN_def MAX_CHUNK_def MAX_OWNER_LEN_def NAME_PAD_BLOCK_def
  MAX_NAME_LEN_def MAX_NAME_CT_LEN_def MAX_ENVELOPES_def MAX_ENVELOPE_FIELD_LEN_def

subsection \<open>Options\<close>

record prev_version =
  pv_header_hash :: bytes
  pv_version :: u32
  pv_file_id :: bytes
  pv_salt :: bytes

definition prev_version_of :: "header \<Rightarrow> bytes \<Rightarrow> prev_version" where
  "prev_version_of h hh =
     \<lparr>pv_header_hash = hh, pv_version = hb_ver (hdr_body h), pv_file_id = hb_fid (hdr_body h),
      pv_salt = hb_salt (hdr_body h)\<rparr>"

record seal_options =
  so_policy :: policy
  so_owner_account :: bytes
  so_file_name :: bytes
  so_chunk_size :: nat
  so_extra_recipients :: "bytes list"
  so_prev :: "prev_version option"

definition seal_options_new :: "bytes \<Rightarrow> bytes \<Rightarrow> seal_options" where
  "seal_options_new owner_account file_name =
     \<lparr>so_policy = default_policy, so_owner_account = owner_account, so_file_name = file_name,
      so_chunk_size = DEFAULT_CHUNK, so_extra_recipients = [], so_prev = None\<rparr>"

subsection \<open>Nonces, associated data, name padding, chunk count\<close>

definition nonce :: "bytes \<Rightarrow> u64 \<Rightarrow> bytes" where
  "nonce np index = np @ u64_le index"

definition chunk_aad :: "bytes \<Rightarrow> u64 \<Rightarrow> bool \<Rightarrow> bytes" where
  "chunk_aad hh index is_last = hh @ u64_le index @ [if is_last then 1 else 0]"

definition pad_name :: "bytes \<Rightarrow> core_error + bytes" where
  "pad_name name =
     (if length name > MAX_NAME_LEN then Inl (HeaderEncode ''file name too long'')
      else
        let padded = div_ceil (2 + length name) NAME_PAD_BLOCK * NAME_PAD_BLOCK;
            tot = max padded NAME_PAD_BLOCK
        in Inr (u16_le (word_of_nat (length name)) @ name @ replicate (tot - (2 + length name)) 0))"

definition unpad_name :: "bytes \<Rightarrow> core_error + bytes" where
  "unpad_name buf =
     (if length buf < NAME_PAD_BLOCK \<or> \<not> NAME_PAD_BLOCK dvd length buf
         \<or> length buf > MAX_NAME_CT_LEN - TAG_LEN then Inl NameAuth
      else
        let len = of_le_bytes (take 2 buf) in
        if len > MAX_NAME_LEN \<or> 2 + len > length buf then Inl NameAuth
        else if list_ex (\<lambda>b. b \<noteq> 0) (drop (2 + len) buf) then Inl NameAuth
        else let name = take len (drop 2 buf) in
             if utf8_valid name then Inr name else Inl NameAuth)"

definition chunk_count :: "nat \<Rightarrow> nat \<Rightarrow> nat" where
  "chunk_count plen chunk = (if plen = 0 then 1 else div_ceil plen chunk)"

subsection \<open>Sealing\<close>

text \<open>What a seal draws from the operating system's generator, in the order it draws it.\<close>

record seal_rng =
  rng_dek :: bytes
  rng_np :: bytes
  rng_salt :: bytes
  rng_eph :: "nat \<Rightarrow> bytes"

text \<open>
  The write loop. \<open>index\<close> runs from 0 and the loop breaks when \<open>index + 1 == total\<close>; as
  \<open>total\<close> is at least 1, the indices visited are \<open>0..<tot\<close>.
\<close>

fun seal_chunks ::
  "'x crypto_scheme \<Rightarrow> bytes \<Rightarrow> bytes \<Rightarrow> bytes \<Rightarrow> nat \<Rightarrow> nat \<Rightarrow> nat list \<Rightarrow> nat \<Rightarrow> bytes \<Rightarrow> bytes \<Rightarrow>
     (core_error + unit) \<times> bytes" where
  "seal_chunks X dek np hh chunk tot [] remaining input out = (Inr (), out)"
| "seal_chunks X dek np hh chunk tot (index # rest) remaining input out =
     (let want = min remaining chunk in
      case read_exact want input of
        None \<Rightarrow> (Inl Io, out)
      | Some (buf, input') \<Rightarrow>
          let is_last = (index + 1 = tot) in
          case aead_encrypt X dek (nonce np (word_of_nat index))
                 (chunk_aad hh (word_of_nat index) is_last) buf of
            None \<Rightarrow> (Inl EnvelopeSeal, out)
          | Some frame \<Rightarrow>
              seal_chunks X dek np hh chunk tot rest (remaining - want) input' (out @ frame))"

fun seal_envelopes ::
  "'x crypto_scheme \<Rightarrow> (nat \<Rightarrow> bytes) \<Rightarrow> nat \<Rightarrow> bytes \<Rightarrow> bytes \<Rightarrow> bytes list \<Rightarrow> core_error + envelope list" where
  "seal_envelopes X eph i dek fid [] = Inr []"
| "seal_envelopes X eph i dek fid (pk # pks) =
     rbind (envelope_seal X (eph i) pk dek fid)
       (\<lambda>e. rbind (seal_envelopes X eph (Suc i) dek fid pks) (\<lambda>es. Inr (e # es)))"

definition seal_trailer :: "'x crypto_scheme \<Rightarrow> bytes \<Rightarrow> nat \<Rightarrow> bytes \<Rightarrow> bytes" where
  "seal_trailer X hh tot frames = hh @ u64_le (word_of_nat tot) @ blake3 X frames"

definition seal_preamble :: "bytes \<Rightarrow> bytes" where
  "seal_preamble header_bytes =
     MAGIC @ [VERSION_MAJOR, VERSION_MINOR] @ u32_le (word_of_nat (length header_bytes)) @ header_bytes"

definition seal_header ::
  "'x core_lib_scheme \<Rightarrow> seal_rng \<Rightarrow> bytes \<Rightarrow> bytes \<Rightarrow> bytes \<Rightarrow> seal_options \<Rightarrow> core_error + header" where
  "seal_header X rng input owner_pk signer opts =
     (let plaintext_hash = sha256 X input;
          dek = rng_dek rng;
          np = rng_np rng;
          (fid, salt) = (case so_prev opts of
              Some p \<Rightarrow> (pv_file_id p, pv_salt p)
            | None \<Rightarrow> (sha256 X (plaintext_hash @ rng_salt rng), rng_salt rng))
      in
      rbind (pad_name (so_file_name opts)) (\<lambda>padded.
      rbind (ok_or (aead_encrypt X dek (nonce np NAME_INDEX) (ascii ''name'') padded) EnvelopeSeal)
        (\<lambda>name_ct.
      rbind (seal_envelopes X (rng_eph rng) 0 dek fid (owner_pk # so_extra_recipients opts)) (\<lambda>env.
      rbind (case so_prev opts of
               Some p \<Rightarrow> rbind (ok_or (checked_add (pv_version p) 1) (HeaderEncode ''version overflow''))
                          (\<lambda>v. Inr (Some (pv_header_hash p), v))
             | None \<Rightarrow> Inr (None, 1)) (\<lambda>(prev, ver).
      header_sign X
        \<lparr>hb_fid = fid, hb_salt = salt, hb_ver = ver, hb_prev = prev,
         hb_own = so_owner_account opts, hb_opub = Some owner_pk, hb_pol = so_policy opts,
         hb_cipher = CIPHER_XCHACHA20_POLY1305_CHUNKED,
         hb_chunk = word_of_nat (so_chunk_size opts), hb_plen = word_of_nat (length input),
         hb_np = np, hb_name = name_ct, hb_env = env\<rparr> signer)))))"

definition seal_signed ::
  "'x core_lib_scheme \<Rightarrow> seal_rng \<Rightarrow> bytes \<Rightarrow> bytes \<Rightarrow> bytes \<Rightarrow> seal_options \<Rightarrow>
     (core_error + header) \<times> bytes" where
  "seal_signed X rng input owner_pk signer opts =
     (if so_chunk_size opts = 0 \<or> so_chunk_size opts > MAX_CHUNK
      then (Inl (BadChunkSize (word_of_nat (so_chunk_size opts))), [])
      else
        case rbind (seal_header X rng input owner_pk signer opts)
               (\<lambda>h. rbind (header_encode X h) (\<lambda>hb. Inr (h, hb))) of
          Inl e \<Rightarrow> (Inl e, [])
        | Inr (header, header_bytes) \<Rightarrow>
            let hh = sha256 X header_bytes;
                plen = length input;
                tot = chunk_count plen (so_chunk_size opts);
                pre = seal_preamble header_bytes
            in case seal_chunks X (rng_dek rng) (rng_np rng) hh (so_chunk_size opts) tot
                      [0..<tot] plen input [] of
                 (Inl e, frames) \<Rightarrow> (Inl e, pre @ frames)
               | (Inr _, frames) \<Rightarrow> (Inr header, pre @ frames @ seal_trailer X hh tot frames))"

definition seal ::
  "'x core_lib_scheme \<Rightarrow> seal_rng \<Rightarrow> bytes \<Rightarrow> owner_keys \<Rightarrow> seal_options \<Rightarrow>
     (core_error + header) \<times> bytes" where
  "seal X rng input owner opts =
     (if length (x25519_pk (sealing owner)) \<noteq> 32 then (Inl EnvelopeSeal, [])
      else seal_signed X rng input (x25519_pk (sealing owner)) (signing owner) opts)"

subsection \<open>Reading the header\<close>

definition validate_header :: "header \<Rightarrow> core_error + unit" where
  "validate_header hdr =
     (let b = hdr_body hdr in
      if hb_cipher b \<noteq> CIPHER_XCHACHA20_POLY1305_CHUNKED then Inl (UnsupportedCipher (hb_cipher b))
      else if hb_chunk b = 0 \<or> unat (hb_chunk b) > MAX_CHUNK then Inl (BadChunkSize (hb_chunk b))
      else if hb_ver b = 0 then Inl (HeaderDecode ''version must be >= 1'')
      else if (hb_ver b = 1) \<noteq> (hb_prev b = None) then Inl (HeaderDecode ''version/prev chain mismatch'')
      else if hb_own b = [] \<or> length (hb_own b) > MAX_OWNER_LEN
        then Inl (HeaderDecode ''owner account length'')
      else if length (hb_name b) > MAX_NAME_CT_LEN \<or> length (hb_name b) < NAME_PAD_BLOCK + TAG_LEN
        then Inl (HeaderDecode ''file name field length'')
      else if hb_env b = [] \<or> length (hb_env b) > MAX_ENVELOPES then Inl (HeaderDecode ''envelope count'')
      else if list_ex (\<lambda>e. length (env_enc e) > MAX_ENVELOPE_FIELD_LEN
                          \<or> length (env_ct e) > MAX_ENVELOPE_FIELD_LEN) (hb_env b)
        then Inl (HeaderDecode ''envelope field length'')
      else Inr ())"

definition read_header :: "'x core_lib_scheme \<Rightarrow> bytes \<Rightarrow> core_error + (header \<times> bytes \<times> bytes)" where
  "read_header X r =
     rbind (ok_or (read_exact 8 r) BadMagic) (\<lambda>(magic, r1).
     if take 6 magic \<noteq> MAGIC then Inl BadMagic
     else if magic ! 6 \<noteq> VERSION_MAJOR then Inl (UnsupportedVersion (magic ! 6) (magic ! 7))
     else rbind (ok_or (read_exact 4 r1) Io) (\<lambda>(lenb, r2).
     let len = of_le_bytes lenb in
     if len > MAX_HEADER_LEN then Inl (HeaderTooLarge len)
     else rbind (ok_or (read_exact len r2) Truncated) (\<lambda>(hb, r3).
     rbind (header_decode_verified X hb) (\<lambda>(hdr, hh).
     rbind (validate_header hdr) (\<lambda>_. Inr (hdr, hh, r3))))))"

definition inspect :: "'x core_lib_scheme \<Rightarrow> bytes \<Rightarrow> core_error + (header \<times> bytes)" where
  "inspect X input = rbind (read_header X input) (\<lambda>(h, hh, _). Inr (h, hh))"

subsection \<open>Opening\<close>

record opened =
  op_header :: header
  op_header_hash :: bytes
  op_file_name :: bytes

definition decrypt_name :: "'x crypto_scheme \<Rightarrow> header \<Rightarrow> bytes \<Rightarrow> core_error + bytes" where
  "decrypt_name X h dek =
     rbind (ok_or (aead_decrypt X dek (nonce (hb_np (hdr_body h)) NAME_INDEX) (ascii ''name'')
                     (hb_name (hdr_body h))) NameAuth)
       unpad_name"

text \<open>
  The read loop \<open>for index in 0..tot\<close>: the result carries the rest of the stream and the
  frames hashed so far; the second component is what was written to the output.
\<close>

fun open_chunks ::
  "'x crypto_scheme \<Rightarrow> bytes \<Rightarrow> bytes \<Rightarrow> bytes \<Rightarrow> nat \<Rightarrow> nat \<Rightarrow> nat list \<Rightarrow> nat \<Rightarrow> bytes \<Rightarrow> bytes \<Rightarrow> bytes \<Rightarrow>
     (core_error + (bytes \<times> bytes)) \<times> bytes" where
  "open_chunks X dek np hh chunk tot [] remaining r frames out = (Inr (r, frames), out)"
| "open_chunks X dek np hh chunk tot (index # rest) remaining r frames out =
     (let want = min remaining chunk + TAG_LEN in
      case read_exact want r of
        None \<Rightarrow> (Inl Truncated, out)
      | Some (frame, r') \<Rightarrow>
          let is_last = (index + 1 = tot) in
          case aead_decrypt X dek (nonce np (word_of_nat index))
                 (chunk_aad hh (word_of_nat index) is_last) frame of
            None \<Rightarrow> (Inl (ChunkAuth index), out)
          | Some pt \<Rightarrow>
              open_chunks X dek np hh chunk tot rest (remaining - (want - TAG_LEN)) r'
                (frames @ frame) (out @ pt))"

definition check_trailer :: "'x crypto_scheme \<Rightarrow> bytes \<Rightarrow> nat \<Rightarrow> bytes \<Rightarrow> bytes \<Rightarrow> core_error + unit" where
  "check_trailer X hh tot frames r =
     rbind (ok_or (read_exact 72 r) Truncated) (\<lambda>(tr, extra).
     if extra \<noteq> [] then Inl Truncated
     else if take 32 tr \<noteq> hh \<or> of_le_bytes (take 8 (drop 32 tr)) \<noteq> tot
             \<or> drop 40 tr \<noteq> blake3 X frames
     then Inl Truncated else Inr ())"

definition open_with_dek ::
  "'x crypto_scheme \<Rightarrow> header \<Rightarrow> bytes \<Rightarrow> bytes \<Rightarrow> bytes \<Rightarrow> (core_error + opened) \<times> bytes" where
  "open_with_dek X hdr hh r dek =
     (case decrypt_name X hdr dek of
        Inl e \<Rightarrow> (Inl e, [])
      | Inr file_name \<Rightarrow>
          let b = hdr_body hdr;
              chunk = unat (hb_chunk b);
              plen = unat (hb_plen b);
              tot = chunk_count plen chunk
          in case open_chunks X dek (hb_np b) hh chunk tot [0..<tot] plen r [] [] of
               (Inl e, out) \<Rightarrow> (Inl e, out)
             | (Inr (r', frames), out) \<Rightarrow>
                 (rbind (check_trailer X hh tot frames r')
                    (\<lambda>_. Inr \<lparr>op_header = hdr, op_header_hash = hh, op_file_name = file_name\<rparr>), out))"

definition open_container ::
  "'x core_lib_scheme \<Rightarrow> bytes \<Rightarrow> device_keys \<Rightarrow> (core_error + opened) \<times> bytes" where
  "open_container X input keys =
     (case rbind (read_header X input) (\<lambda>(hdr, hh, r).
             rbind (ok_or (find (\<lambda>e. env_kid e = device_key_id X keys) (hb_env (hdr_body hdr))) NoEnvelope)
               (\<lambda>env. rbind (envelope_open X env keys (hb_fid (hdr_body hdr)))
                  (\<lambda>dek. Inr (hdr, hh, r, dek)))) of
        Inl e \<Rightarrow> (Inl e, [])
      | Inr (hdr, hh, r, dek) \<Rightarrow> open_with_dek X hdr hh r dek)"

subsection \<open>Name padding\<close>

lemma pad_name_Inr:
  "pad_name name = Inr p \<longleftrightarrow> length name \<le> 1024 \<and>
     p = u16_le (word_of_nat (length name)) @ name @
         replicate (max (div_ceil (2 + length name) 64 * 64) 64 - (2 + length name)) 0"
  by (auto simp: pad_name_def container_consts Let_def)

lemma padded_length_eq:
  fixes n :: nat
  shows "max (div_ceil (2 + n) 64 * 64) 64 = div_ceil (2 + n) 64 * 64"
    and "2 + n \<le> div_ceil (2 + n) 64 * 64"
proof -
  show le: "2 + n \<le> div_ceil (2 + n) 64 * 64" by (rule div_ceil_bounds) simp
  have "0 < div_ceil (2 + n) 64" using le by (cases "div_ceil (2 + n) 64") auto
  then show "max (div_ceil (2 + n) 64 * 64) 64 = div_ceil (2 + n) 64 * 64" by simp
qed

lemma pad_name_length:
  assumes "pad_name name = Inr p"
  shows "length p = div_ceil (2 + length name) 64 * 64" and "64 dvd length p"
    and "64 \<le> length p" and "length p \<le> 1088"
proof -
  let ?d = "div_ceil (2 + length name) 64"
  from assms have n: "length name \<le> 1024"
    and p: "p = u16_le (word_of_nat (length name)) @ name @
              replicate (max (?d * 64) 64 - (2 + length name)) 0"
    by (auto simp: pad_name_Inr)
  show len: "length p = ?d * 64"
    using padded_length_eq(2) [of "length name"] by (simp add: p padded_length_eq(1))
  then show "64 dvd length p" by simp
  show "64 \<le> length p" using len padded_length_eq(1) [of "length name"] by simp
  have "?d \<le> 17" using n by (simp add: div_ceil_def) arith
  then show "length p \<le> 1088" using len by simp
qed

lemma of_le_bytes_u16: "n < 65536 \<Longrightarrow> of_le_bytes (u16_le (word_of_nat n)) = n"
  by (simp add: u16_le_def of_le_bytes_le_bytes unat_of_nat)

lemma unpad_pad_name:
  assumes "pad_name name = Inr p" and "utf8_valid name"
  shows "unpad_name p = Inr name"
proof -
  note len = pad_name_length [OF assms(1)]
  from assms(1) obtain k where n: "length name \<le> 1024"
    and p: "p = u16_le (word_of_nat (length name)) @ name @ replicate k 0"
    by (auto simp: pad_name_Inr)
  have two: "take 2 p = u16_le (word_of_nat (length name))" by (simp add: p)
  have hd: "of_le_bytes (take 2 p) = length name"
    using n by (simp add: two of_le_bytes_u16)
  have "drop (2 + length name) p = replicate k 0" and "take (length name) (drop 2 p) = name"
    by (simp_all add: p)
  moreover have "2 + length name \<le> length p" by (simp add: p)
  ultimately show ?thesis
    using len hd n assms(2) by (simp add: unpad_name_def container_consts Let_def list_ex_iff)
qed

definition name_ok :: "bytes \<Rightarrow> bool" where
  "name_ok name \<longleftrightarrow> length name \<le> MAX_NAME_LEN \<and> utf8_valid name"

lemma pad_name_ok: "name_ok name \<Longrightarrow> \<exists>p. pad_name name = Inr p"
  by (simp add: name_ok_def pad_name_def Let_def)

interpretation namec: codec "\<lambda>n. case pad_name n of Inr p \<Rightarrow> p | Inl _ \<Rightarrow> []"
  "\<lambda>b. res_ok (unpad_name b)" name_ok
proof unfold_locales
  fix x assume ok: "name_ok x"
  then obtain p where p: "pad_name x = Inr p" using pad_name_ok by blast
  then show "res_ok (unpad_name (case pad_name x of Inr p \<Rightarrow> p | Inl _ \<Rightarrow> [])) = Some x"
    using unpad_pad_name [OF p] ok by (simp add: name_ok_def)
qed

lemma unpad_name_sound:
  assumes "unpad_name b = Inr name"
  shows "name_ok name \<and> (\<exists>k. b = u16_le (word_of_nat (length name)) @ name @ replicate k 0)
           \<and> 64 \<le> length b \<and> length b \<le> 1088 \<and> 64 dvd length b"
proof -
  let ?len = "of_le_bytes (take 2 b)"
  from assms have sz: "64 \<le> length b" "64 dvd length b" "length b \<le> 1088"
    and le: "?len \<le> 1024" "2 + ?len \<le> length b"
    and zero: "\<forall>x \<in> set (drop (2 + ?len) b). x = 0"
    and name: "name = take ?len (drop 2 b)" and u: "utf8_valid name"
    by (auto simp: unpad_name_def container_consts Let_def list_ex_iff not_less split: if_splits)
  have l2: "length (take 2 b) = 2" using sz by simp
  have ln: "length name = ?len" using le by (simp add: name)
  have "u16_le (word_of_nat (length name)) = le_bytes (length (take 2 b)) (of_le_bytes (take 2 b))"
    using le by (simp add: ln u16_le_def l2 unat_of_nat)
  then have hd: "u16_le (word_of_nat (length name)) = take 2 b" by (simp only: le_bytes_of_le_bytes)
  have tl: "drop (2 + ?len) b = replicate (length (drop (2 + ?len) b)) 0"
    using zero by (metis replicate_length_same)
  have "b = take 2 b @ drop 2 b" by simp
  also have "drop 2 b = name @ drop (2 + ?len) b"
    by (metis name append_take_drop_id drop_drop add.commute)
  finally have "b = u16_le (word_of_nat (length name)) @ name @ replicate (length (drop (2 + ?len) b)) 0"
    using hd tl by metis
  then show ?thesis using sz le u ln by (auto simp: name_ok_def container_consts)
qed

subsection \<open>Nonces and associated data are unambiguous\<close>

lemma nonce_inj: "nonce np i = nonce np j \<longleftrightarrow> i = j"
  by (simp add: nonce_def u64c.enc_eq_iff)

lemma chunk_aad_inj:
  assumes "length h = length h'"
  shows "chunk_aad h i l = chunk_aad h' i' l' \<longleftrightarrow> h = h' \<and> i = i' \<and> l = l'"
  using assms u64c.enc_append_inj by (auto simp: chunk_aad_def split: if_splits)

lemma chunk_count_pos [simp]: "0 < c \<Longrightarrow> 0 < chunk_count n c"
  using div_ceil_bounds(1) [of c n] by (cases "div_ceil n c") (auto simp: chunk_count_def)

lemma chunk_count_cover: "0 < c \<Longrightarrow> n \<le> c * chunk_count n c"
  using div_ceil_bounds(1) [of c n] by (simp add: chunk_count_def mult.commute)

lemma chunk_count_le: "0 < c \<Longrightarrow> chunk_count n c \<le> max 1 n"
proof -
  assume c: "0 < c"
  show ?thesis
  proof (cases "n = 0")
    case True
    then show ?thesis by (simp add: chunk_count_def)
  next
    case False
    have "div_ceil n c - 1 \<le> (div_ceil n c - 1) * c" using c by simp
    also have "\<dots> < n" using False by (intro div_ceil_bounds(2) [OF c]) simp
    finally show ?thesis using False by (simp add: chunk_count_def)
  qed
qed

lemma chunk_index_below_name:
  assumes "0 < c" and "n < 2 ^ 64" and "i < chunk_count n c"
  shows "unat (word_of_nat i :: u64) = i" and "(word_of_nat i :: u64) \<noteq> NAME_INDEX"
proof -
  have lt: "i < 2 ^ 64 - 1" using assms chunk_count_le [OF assms(1), of n] by simp
  then show un: "unat (word_of_nat i :: u64) = i" by (simp add: unat_of_nat)
  have "unat NAME_INDEX = 2 ^ 64 - 1" by (simp add: NAME_INDEX_def)
  then show "(word_of_nat i :: u64) \<noteq> NAME_INDEX" using un lt by auto
qed

subsection \<open>The chunk stream\<close>

text \<open>
  Both loops, characterised against each other. \<open>span\<close> is how much plaintext a run over
  \<open>n\<close> indices covers.
\<close>

definition span :: "nat \<Rightarrow> nat \<Rightarrow> nat \<Rightarrow> nat" where
  "span remaining chunk n = min remaining (chunk * n)"

lemma span_simps [simp]:
  "span remaining chunk 0 = 0"
  "span remaining chunk (Suc n) = min remaining chunk + span (remaining - min remaining chunk) chunk n"
  by (auto simp: span_def)

lemma seal_chunks_out:
  assumes "seal_chunks X dek np hh chunk tot is remaining input out = (Inr (), out')"
  shows "\<exists>fs. out' = out @ fs \<and> (\<forall>o2. seal_chunks X dek np hh chunk tot is remaining input o2 = (Inr (), o2 @ fs))"
  using assms
proof (induction "is" arbitrary: remaining input out)
  case Nil
  then show ?case by simp
next
  case (Cons i "is")
  let ?want = "min remaining chunk"
  from Cons.prems obtain buf input' frame where
    rd: "read_exact ?want input = Some (buf, input')" and
    en: "aead_encrypt X dek (nonce np (word_of_nat i)) (chunk_aad hh (word_of_nat i) (Suc i = tot)) buf = Some frame" and
    rest: "seal_chunks X dek np hh chunk tot is (remaining - ?want) input' (out @ frame) = (Inr (), out')"
    by (auto simp: Let_def split: option.splits)
  from Cons.IH [OF rest] obtain fs where fs: "out' = (out @ frame) @ fs"
    "\<And>o2. seal_chunks X dek np hh chunk tot is (remaining - ?want) input' o2 = (Inr (), o2 @ fs)"
    by blast
  show ?case by (rule exI [of _ "frame @ fs"]) (simp add: rd en fs Let_def)
qed

lemma seal_chunks_length:
  assumes "aead_exact X"
    and "seal_chunks X dek np hh chunk tot is remaining input out = (Inr (), out')"
  shows "length out' = length out + span remaining chunk (length is) + 16 * length is"
  using assms(2)
proof (induction "is" arbitrary: remaining input out)
  case Nil
  then show ?case by simp
next
  case (Cons i "is")
  let ?want = "min remaining chunk"
  from Cons.prems obtain buf input' frame where
    rd: "read_exact ?want input = Some (buf, input')" and
    en: "aead_encrypt X dek (nonce np (word_of_nat i)) (chunk_aad hh (word_of_nat i) (Suc i = tot)) buf = Some frame" and
    rest: "seal_chunks X dek np hh chunk tot is (remaining - ?want) input' (out @ frame) = (Inr (), out')"
    by (auto simp: Let_def split: option.splits)
  have "length frame = ?want + 16"
    using aead_exact_length [OF assms(1) en] rd by (auto simp: read_exact_Some)
  then show ?case using Cons.IH [OF rest] by simp
qed

lemma open_chunks_complete:
  assumes "aead_exact X"
    and "seal_chunks X dek np hh chunk tot is remaining input out = (Inr (), out @ fs)"
  shows "open_chunks X dek np hh chunk tot is remaining (fs @ rest) frames pt =
           (Inr (rest, frames @ fs), pt @ take (span remaining chunk (length is)) input)"
  using assms(2)
proof (induction "is" arbitrary: remaining input out fs frames pt)
  case Nil
  then show ?case by simp
next
  case (Cons i "is")
  let ?want = "min remaining chunk"
  from Cons.prems obtain buf input' frame where
    rd: "read_exact ?want input = Some (buf, input')" and
    en: "aead_encrypt X dek (nonce np (word_of_nat i)) (chunk_aad hh (word_of_nat i) (Suc i = tot)) buf = Some frame" and
    run: "seal_chunks X dek np hh chunk tot is (remaining - ?want) input' (out @ frame) = (Inr (), out @ fs)"
    by (auto simp: Let_def split: option.splits)
  from seal_chunks_out [OF run] obtain fs' where fs': "fs = frame @ fs'" by auto
  have input: "input = buf @ input'" "length buf = ?want" using rd by (auto simp: read_exact_Some)
  have lf: "length frame = ?want + TAG_LEN"
    using aead_exact_length [OF assms(1) en] input(2) by (simp add: TAG_LEN_def)
  have de: "aead_decrypt X dek (nonce np (word_of_nat i)) (chunk_aad hh (word_of_nat i) (Suc i = tot)) frame = Some buf"
    using aead_exact_iff [OF assms(1)] en by blast
  have "read_exact (?want + TAG_LEN) (fs @ rest) = Some (frame, fs' @ rest)" by (simp add: fs' lf)
  then have "open_chunks X dek np hh chunk tot (i # is) remaining (fs @ rest) frames pt =
      open_chunks X dek np hh chunk tot is (remaining - ?want) (fs' @ rest) (frames @ frame) (pt @ buf)"
    using de by (simp add: Let_def)
  also have "\<dots> = (Inr (rest, (frames @ frame) @ fs'),
      (pt @ buf) @ take (span (remaining - ?want) chunk (length is)) input')"
    by (rule Cons.IH [of _ _ "out @ frame"]) (use run fs' in simp)
  finally show ?case by (simp add: fs' input)
qed

lemma open_chunks_sound:
  assumes "aead_exact X"
    and "open_chunks X dek np hh chunk tot is remaining r frames pt = (Inr (r', frames'), pt')"
  shows "\<exists>fs m. r = fs @ r' \<and> frames' = frames @ fs \<and> pt' = pt @ m \<and>
           length m = span remaining chunk (length is) \<and> length fs = length m + 16 * length is \<and>
           (\<forall>more out. seal_chunks X dek np hh chunk tot is remaining (m @ more) out = (Inr (), out @ fs))"
  using assms(2)
proof (induction "is" arbitrary: remaining r frames pt)
  case Nil
  then show ?case by simp
next
  case (Cons i "is")
  let ?want = "min remaining chunk"
  from Cons.prems obtain frame r1 buf where
    rd: "read_exact (?want + TAG_LEN) r = Some (frame, r1)" and
    de: "aead_decrypt X dek (nonce np (word_of_nat i)) (chunk_aad hh (word_of_nat i) (Suc i = tot)) frame = Some buf" and
    run: "open_chunks X dek np hh chunk tot is (remaining - ?want) r1 (frames @ frame) (pt @ buf) = (Inr (r', frames'), pt')"
    by (auto simp: Let_def split: option.splits)
  have r: "r = frame @ r1" "length frame = ?want + 16"
    using rd by (auto simp: read_exact_Some TAG_LEN_def)
  have en: "aead_encrypt X dek (nonce np (word_of_nat i)) (chunk_aad hh (word_of_nat i) (Suc i = tot)) buf = Some frame"
    using aead_exact_iff [OF assms(1)] de by blast
  have lb: "length buf = ?want" using aead_exact_length [OF assms(1) en] r(2) by simp
  from Cons.IH [OF run] obtain fs m where
    ih: "r1 = fs @ r'" "frames' = (frames @ frame) @ fs" "pt' = (pt @ buf) @ m"
      "length m = span (remaining - ?want) chunk (length is)" "length fs = length m + 16 * length is"
      "\<And>more out. seal_chunks X dek np hh chunk tot is (remaining - ?want) (m @ more) out = (Inr (), out @ fs)"
    by blast
  show ?case
  proof (intro exI conjI allI)
    show "r = (frame @ fs) @ r'" and "frames' = frames @ (frame @ fs)" and "pt' = pt @ (buf @ m)"
      by (simp_all add: r ih)
    show "length (buf @ m) = span remaining chunk (length (i # is))" by (simp add: lb ih)
    show "length (frame @ fs) = length (buf @ m) + 16 * length (i # is)" by (simp add: r lb ih)
    show "seal_chunks X dek np hh chunk tot (i # is) remaining ((buf @ m) @ more) out = (Inr (), out @ (frame @ fs))"
      for more out by (simp add: lb en ih Let_def)
  qed
qed

lemma span_all: "0 < c \<Longrightarrow> span n c (chunk_count n c) = n"
  using chunk_count_cover [of c n] by (simp add: span_def)

lemma length_seal_trailer:
  "hash_lengths X \<Longrightarrow> length hh = 32 \<Longrightarrow> length (seal_trailer X hh tot fs) = 72"
  by (simp add: seal_trailer_def hash_lengthsD)

lemma check_trailer_Inr:
  assumes "hash_lengths X" and "length hh = 32" and "tot < 2 ^ 64"
  shows "check_trailer X hh tot fs r = Inr () \<longleftrightarrow> r = seal_trailer X hh tot fs"
proof
  assume "r = seal_trailer X hh tot fs"
  then show "check_trailer X hh tot fs r = Inr ()"
    using assms
    by (simp add: check_trailer_def seal_trailer_def read_exact_def hash_lengthsD [OF assms(1)]
        u64_le_def of_le_bytes_le_bytes unat_of_nat)
next
  assume "check_trailer X hh tot fs r = Inr ()"
  then have len: "length r = 72" and hd: "take 32 r = hh"
    and n: "of_le_bytes (take 8 (drop 32 r)) = tot" and tl: "drop 40 r = blake3 X fs"
    by (auto simp: check_trailer_def res_simps read_exact_Some split: if_splits)
  have l8: "length (take 8 (drop 32 r)) = 8" using len by simp
  have "take 8 (drop 32 r) = le_bytes (length (take 8 (drop 32 r))) (of_le_bytes (take 8 (drop 32 r)))"
    by (simp only: le_bytes_of_le_bytes)
  then have mid: "take 8 (drop 32 r) = u64_le (word_of_nat tot)"
    using assms(3) by (simp only: l8 n) (simp add: u64_le_def unat_of_nat)
  have "r = take 32 r @ drop 32 r" by simp
  also have "drop 32 r = take 8 (drop 32 r) @ drop 8 (drop 32 r)" by (rule append_take_drop_id [symmetric])
  also have "drop 8 (drop 32 r) = drop 40 r" by simp
  finally show "r = seal_trailer X hh tot fs"
    using hd mid tl by (simp add: seal_trailer_def)
qed

text \<open>
  The exact set of streams \<open>open_with_dek\<close> accepts: the sealed frames of the plaintext it
  outputs, followed by their trailer and nothing else.
\<close>

lemma open_with_dek_iff:
  assumes "aead_exact X" and "hash_lengths X" and "length hh = 32" and "hb_chunk (hdr_body hdr) \<noteq> 0"
  defines "b \<equiv> hdr_body hdr"
  defines "c \<equiv> unat (hb_chunk b)" and "n \<equiv> unat (hb_plen b)"
  shows "open_with_dek X hdr hh r dek = (Inr res, out) \<longleftrightarrow>
     (\<exists>name fs. decrypt_name X hdr dek = Inr name \<and>
        res = \<lparr>op_header = hdr, op_header_hash = hh, op_file_name = name\<rparr> \<and> length out = n \<and>
        seal_chunks X dek (hb_np b) hh c (chunk_count n c) [0..<chunk_count n c] n out [] = (Inr (), fs) \<and>
        r = fs @ seal_trailer X hh (chunk_count n c) fs)"
    (is "?L \<longleftrightarrow> ?R")
proof -
  let ?t = "chunk_count n c"
  have c: "0 < c" using assms(4) by (simp add: c_def b_def unat_gt_0)
  have "n < 2 ^ 64" using unat_bound [of "hb_plen b"] by (simp add: n_def)
  then have t: "?t < 2 ^ 64" using chunk_count_le [OF c, of n] by simp
  note tr = check_trailer_Inr [OF assms(2,3) t]
  show ?thesis
  proof
    assume ?L
    then obtain name r' fs where name: "decrypt_name X hdr dek = Inr name"
      and run: "open_chunks X dek (hb_np b) hh c ?t [0..<?t] n r [] [] = (Inr (r', fs), out)"
      and chk: "check_trailer X hh ?t fs r' = Inr ()"
      and res: "res = \<lparr>op_header = hdr, op_header_hash = hh, op_file_name = name\<rparr>"
      unfolding open_with_dek_def b_def c_def n_def
      by (auto simp: Let_def res_simps split: sum.splits prod.splits)
    from open_chunks_sound [OF assms(1) run] obtain fs' m where
      "r = fs' @ r'" "fs = fs'" "out = m" "length m = span n c ?t"
      "\<And>more o2. seal_chunks X dek (hb_np b) hh c ?t [0..<?t] n (m @ more) o2 = (Inr (), o2 @ fs')"
      by auto
    then show ?R
      using name res chk tr span_all [OF c, of n] append_Nil2 [of m] by (metis append_Nil)
  next
    assume ?R
    then obtain name fs where name: "decrypt_name X hdr dek = Inr name"
      and res: "res = \<lparr>op_header = hdr, op_header_hash = hh, op_file_name = name\<rparr>"
      and len: "length out = n"
      and run: "seal_chunks X dek (hb_np b) hh c ?t [0..<?t] n out [] = (Inr (), [] @ fs)"
      and r: "r = fs @ seal_trailer X hh ?t fs"
      by auto
    have "open_chunks X dek (hb_np b) hh c ?t [0..<?t] n r [] [] =
        (Inr (seal_trailer X hh ?t fs, fs), out)"
      using open_chunks_complete [OF assms(1) run, of "seal_trailer X hh ?t fs" "[]" "[]"]
      by (simp add: r span_all [OF c] len)
    moreover have "check_trailer X hh ?t fs (seal_trailer X hh ?t fs) = Inr ()" by (simp add: tr)
    ultimately show ?L
      using name by (simp add: open_with_dek_def res Let_def flip: b_def c_def n_def)
  qed
qed

subsection \<open>What a seal writes\<close>

lemma seal_envelopes_nth:
  "seal_envelopes X eph i dek fid pks = Inr es \<Longrightarrow>
     length es = length pks \<and>
     (\<forall>j < length pks. envelope_seal X (eph (i + j)) (pks ! j) dek fid = Inr (es ! j))"
proof (induction pks arbitrary: i es)
  case Nil
  then show ?case by simp
next
  case (Cons pk pks)
  from Cons.prems obtain e es' where es: "es = e # es'"
    and e: "envelope_seal X (eph i) pk dek fid = Inr e"
    and r: "seal_envelopes X eph (Suc i) dek fid pks = Inr es'"
    by (auto simp: rbind_eq_Inr)
  show ?case using Cons.IH [OF r] e by (auto simp: es nth_Cons' gr0_conv_Suc)
qed

lemma seal_header_Inr:
  assumes "seal_header X rng input owner_pk signer opts = Inr h"
  defines "b \<equiv> hdr_body h"
  shows "header_sign X b signer = Inr h"
    and "\<exists>p. pad_name (so_file_name opts) = Inr p \<and>
           aead_encrypt X (rng_dek rng) (nonce (rng_np rng) NAME_INDEX) (ascii ''name'') p = Some (hb_name b)"
    and "seal_envelopes X (rng_eph rng) 0 (rng_dek rng) (hb_fid b) (owner_pk # so_extra_recipients opts)
           = Inr (hb_env b)"
    and "hb_own b = so_owner_account opts" and "hb_opub b = Some owner_pk" and "hb_pol b = so_policy opts"
    and "hb_cipher b = CIPHER_XCHACHA20_POLY1305_CHUNKED"
    and "hb_chunk b = word_of_nat (so_chunk_size opts)" and "hb_plen b = word_of_nat (length input)"
    and "hb_np b = rng_np rng"
    and "case so_prev opts of
           None \<Rightarrow> hb_prev b = None \<and> hb_ver b = 1 \<and> hb_salt b = rng_salt rng \<and>
                   hb_fid b = sha256 X (sha256 X input @ rng_salt rng)
         | Some p \<Rightarrow> hb_prev b = Some (pv_header_hash p) \<and> unat (hb_ver b) = unat (pv_version p) + 1 \<and>
                   hb_salt b = pv_salt p \<and> hb_fid b = pv_file_id p"
  using assms(1)
  by (auto simp: b_def seal_header_def Let_def rbind_eq_Inr ok_or_eq_Inr header_sign_def
      split: option.splits dest: checked_add_Some)

lemma seal_signed_Inr:
  assumes "seal_signed X rng input owner_pk signer opts = (Inr h, file)"
  obtains hb frames where
    "0 < so_chunk_size opts" "so_chunk_size opts \<le> MAX_CHUNK"
    "seal_header X rng input owner_pk signer opts = Inr h" "header_encode X h = Inr hb"
    "seal_chunks X (rng_dek rng) (rng_np rng) (sha256 X hb) (so_chunk_size opts)
       (chunk_count (length input) (so_chunk_size opts))
       [0..<chunk_count (length input) (so_chunk_size opts)] (length input) input [] = (Inr (), frames)"
    "file = seal_preamble hb @ frames @
       seal_trailer X (sha256 X hb) (chunk_count (length input) (so_chunk_size opts)) frames"
  using assms
  by (auto simp: seal_signed_def Let_def rbind_eq_Inr rbind_eq_Inl split: if_splits sum.splits prod.splits)

text \<open>
  \<open>seal_limits\<close> is what a caller of \<open>seal\<close> must keep to so that the reader accepts the
  header; the sealing code itself checks only the chunk size and the name length.
\<close>

definition seal_limits :: "seal_options \<Rightarrow> bool" where
  "seal_limits opts \<longleftrightarrow>
     so_owner_account opts \<noteq> [] \<and> length (so_owner_account opts) \<le> MAX_OWNER_LEN \<and>
     length (so_extra_recipients opts) < MAX_ENVELOPES \<and>
     (case so_prev opts of None \<Rightarrow> True | Some p \<Rightarrow> pv_version p \<noteq> 0)"

definition hpke_small :: "'x crypto_scheme \<Rightarrow> bool" where
  "hpke_small X \<longleftrightarrow> (\<forall>pk info aad pt eph e c. hpke_seal X pk info aad pt eph = Some (e, c) \<longrightarrow>
     length e \<le> MAX_ENVELOPE_FIELD_LEN \<and> length c \<le> length pt + 16)"

lemma hpke_smallD:
  "hpke_small X \<Longrightarrow> hpke_seal X pk info aad pt eph = Some (e, c) \<Longrightarrow>
     length e \<le> MAX_ENVELOPE_FIELD_LEN \<and> length c \<le> length pt + 16"
  unfolding hpke_small_def by blast

lemma unat_chunk_size:
  "0 < n \<Longrightarrow> n \<le> MAX_CHUNK \<Longrightarrow> unat (word_of_nat n :: u32) = n \<and> (word_of_nat n :: u32) \<noteq> 0"
proof -
  assume n: "0 < n" "n \<le> MAX_CHUNK"
  then have un: "unat (word_of_nat n :: u32) = n" by (simp add: unat_of_nat container_consts)
  moreover have "(word_of_nat n :: u32) \<noteq> 0" using un n by (metis unat_0 less_irrefl)
  ultimately show ?thesis by simp
qed

lemma seal_header_valid:
  assumes "aead_exact X" and "hpke_small X" and "seal_limits opts" and "length (rng_dek rng) = 32"
    and "0 < so_chunk_size opts" and "so_chunk_size opts \<le> MAX_CHUNK"
    and "seal_header X rng input owner_pk signer opts = Inr h"
  shows "validate_header h = Inr ()"
proof -
  let ?b = "hdr_body h"
  note sh = seal_header_Inr [OF assms(7)]
  from sh(2) obtain p where p: "pad_name (so_file_name opts) = Inr p"
    "aead_encrypt X (rng_dek rng) (nonce (rng_np rng) NAME_INDEX) (ascii ''name'') p = Some (hb_name ?b)"
    by blast
  have nm: "80 \<le> length (hb_name ?b)" "length (hb_name ?b) \<le> 1104"
    using aead_exact_length [OF assms(1) p(2)] pad_name_length(3,4) [OF p(1)] by simp_all
  have env: "length (hb_env ?b) = Suc (length (so_extra_recipients opts))"
    using seal_envelopes_nth [OF sh(3)] by simp
  have small: "\<not> list_ex (\<lambda>e. length (env_enc e) > MAX_ENVELOPE_FIELD_LEN
                 \<or> length (env_ct e) > MAX_ENVELOPE_FIELD_LEN) (hb_env ?b)"
  proof -
    have "length (env_enc (hb_env ?b ! j)) \<le> MAX_ENVELOPE_FIELD_LEN \<and>
          length (env_ct (hb_env ?b ! j)) \<le> 48" if "j < length (hb_env ?b)" for j
      using seal_envelopes_nth [OF sh(3)] that hpke_smallD [OF assms(2)] assms(4)
      by (fastforce simp: envelope_seal_Inr)
    then show ?thesis by (fastforce simp: list_ex_iff in_set_conv_nth container_consts)
  qed
  have ver: "hb_ver ?b \<noteq> 0" "(hb_ver ?b = 1) = (hb_prev ?b = None)"
    using sh(11) assms(3)
    by (auto simp: seal_limits_def unat_eq_zero dest: arg_cong [of _ _ unat] split: option.splits)
  show ?thesis
    using sh(4,7,8) nm env small ver assms(3) unat_chunk_size [OF assms(5,6)] assms(6)
    by (auto simp: validate_header_def Let_def container_consts seal_limits_def)
qed

subsection \<open>Reading back\<close>

lemma read_header_preamble:
  assumes "header_decode_verified X hb = Inr (h, hh)" and "validate_header h = Inr ()"
  shows "read_header X (seal_preamble hb @ r) = Inr (h, hh, r)"
proof -
  have len: "length hb \<le> MAX_HEADER_LEN" using assms(1) by (simp add: header_decode_verified_Inr)
  have l32: "of_le_bytes (u32_le (word_of_nat (length hb))) = length hb"
    using len by (simp add: u32_le_def of_le_bytes_le_bytes unat_of_nat MAX_HEADER_LEN_def)
  have a: "read_exact 8 (seal_preamble hb @ r) =
      Some (MAGIC @ [VERSION_MAJOR, VERSION_MINOR], u32_le (word_of_nat (length hb)) @ hb @ r)"
    by (simp add: read_exact_Some seal_preamble_def)
  show ?thesis using assms len
    by (simp add: read_header_def a l32 Let_def nth_append)
qed

lemma find_own_envelope:
  assumes "seal_envelopes X eph i dek fid pks = Inr es" and "pk \<in> set pks"
    and "\<And>pk'. pk' \<in> set pks \<Longrightarrow> key_id_of X pk' = key_id_of X pk \<Longrightarrow> pk' = pk"
  shows "\<exists>e j. find (\<lambda>e. env_kid e = key_id_of X pk) es = Some e \<and> envelope_seal X (eph j) pk dek fid = Inr e"
  using assms
proof (induction pks arbitrary: i es)
  case Nil
  then show ?case by simp
next
  case (Cons q pks)
  from Cons.prems(1) obtain e es' where es: "es = e # es'"
    and e: "envelope_seal X (eph i) q dek fid = Inr e"
    and r: "seal_envelopes X eph (Suc i) dek fid pks = Inr es'"
    by (auto simp: rbind_eq_Inr)
  show ?case
  proof (cases "key_id_of X q = key_id_of X pk")
    case True
    then have "q = pk" using Cons.prems(3) by simp
    then show ?thesis using e envelope_seal_kid [OF e] by (auto simp: es)
  next
    case False
    then have "find (\<lambda>e. env_kid e = key_id_of X pk) es = find (\<lambda>e. env_kid e = key_id_of X pk) es'"
      using envelope_seal_kid [OF e] by (simp add: es)
    then show ?thesis using Cons.IH [OF r] Cons.prems(2,3) False by auto
  qed
qed

lemma seal_open_roundtrip:
  assumes X: "aead_exact X" "hash_lengths X" "hpke_opens X" "hpke_small X" "ed25519_signs X"
    and keys: "keys_wf X k" "length (rng_dek rng) = 32"
    and rec: "x25519_pk k \<in> set (owner_pk # so_extra_recipients opts)"
    and ids: "\<And>pk. pk \<in> set (owner_pk # so_extra_recipients opts) \<Longrightarrow>
                key_id_of X pk = key_id_of X (x25519_pk k) \<Longrightarrow> pk = x25519_pk k"
    and opts: "seal_limits opts" "utf8_valid (so_file_name opts)" "length input < 2 ^ 64"
    and cbor: "\<And>hb. cbor_header X h = Inr hb \<Longrightarrow> uncbor_header X hb = Inr h"
    and sealed: "seal_signed X rng input owner_pk signer opts = (Inr h, file)"
  shows "\<exists>hh. header_hash X h = Inr hh \<and>
    open_container X file k =
      (Inr \<lparr>op_header = h, op_header_hash = hh, op_file_name = so_file_name opts\<rparr>, input)"
proof -
  let ?b = "hdr_body h" and ?c = "so_chunk_size opts"
  from seal_signed_Inr [OF sealed] obtain hb frames where c: "0 < ?c" "?c \<le> MAX_CHUNK"
    and sh: "seal_header X rng input owner_pk signer opts = Inr h" and hb: "header_encode X h = Inr hb"
    and frames: "seal_chunks X (rng_dek rng) (rng_np rng) (sha256 X hb) ?c (chunk_count (length input) ?c)
       [0..<chunk_count (length input) ?c] (length input) input [] = (Inr (), frames)"
    and fl: "file = seal_preamble hb @ frames @
       seal_trailer X (sha256 X hb) (chunk_count (length input) ?c) frames"
    by metis
  note si = seal_header_Inr [OF sh]
  have dec: "header_decode_verified X hb = Inr (h, sha256 X hb)" "header_hash X h = Inr (sha256 X hb)"
    using header_decode_encode [OF X(5) si(1) hb] cbor hb by (auto simp: header_encode_Inr)
  have val: "validate_header h = Inr ()" by (rule seal_header_valid [OF X(1,4) opts(1) keys(2) c sh])
  from find_own_envelope [OF si(3) rec ids] obtain e j where
    e: "find (\<lambda>e. env_kid e = device_key_id X k) (hb_env ?b) = Some e"
       "envelope_seal X (rng_eph rng j) (x25519_pk k) (rng_dek rng) (hb_fid ?b) = Inr e"
    by (auto simp: device_key_id_def)
  have dek: "envelope_open X e k (hb_fid ?b) = Inr (rng_dek rng)"
    by (rule envelope_open_seal [OF X(3) keys(1,2) e(2)])
  have name: "decrypt_name X h (rng_dek rng) = Inr (so_file_name opts)"
    using si(2) unpad_pad_name [OF _ opts(2)] aead_exact_iff [OF X(1)]
    by (auto simp: decrypt_name_def si(10) rbind_eq_Inr ok_or_eq_Inr)
  have cn: "unat (hb_chunk ?b) = ?c" "hb_chunk ?b \<noteq> 0" "unat (hb_plen ?b) = length input"
    using unat_chunk_size [OF c] opts(3) by (simp_all add: si(8,9) unat_of_nat)
  have "open_with_dek X h (sha256 X hb) (frames @
       seal_trailer X (sha256 X hb) (chunk_count (length input) ?c) frames) (rng_dek rng) =
     (Inr \<lparr>op_header = h, op_header_hash = sha256 X hb, op_file_name = so_file_name opts\<rparr>, input)"
    using name frames by (simp add: open_with_dek_iff [OF X(1,2) hash_lengthsD(1) [OF X(2)] cn(2)] cn si(10))
  then have "open_container X file k =
     (Inr \<lparr>op_header = h, op_header_hash = sha256 X hb, op_file_name = so_file_name opts\<rparr>, input)"
    by (simp add: open_container_def fl read_header_preamble [OF dec(1) val] e(1) dek)
  then show ?thesis using dec(2) by blast
qed

subsection \<open>A sample seal\<close>

definition sample_rng :: seal_rng where
  "sample_rng = \<lparr>rng_dek = replicate 32 3, rng_np = replicate 16 4, rng_salt = replicate 16 5, rng_eph = \<lambda>_. []\<rparr>"

definition sample_opts :: seal_options where
  "sample_opts = seal_options_new [1] [97]"

definition sample_file :: bytes where
  "sample_file = seal_preamble [1] @ ([42] @ replicate 16 0) @
     (replicate 32 7 @ [1, 0, 0, 0, 0, 0, 0, 0] @ replicate 32 9)"

lemma sample_small [simp]: "hpke_small (sample_lib f)"
  by (simp add: hpke_small_def container_consts min.coboundedI2)

lemma sample_pad: "pad_name [97] = Inr ([1, 0, 97] @ replicate 61 0)"
  by code_simp

lemma sample_core_name:
  assumes "sample_core f X" shows "decrypt_name X sample_header (replicate 32 3) = Inr [97]"
proof -
  have "unpad_name ([1, 0, 97] @ replicate 61 0) = Inr [97]" by (rule unpad_pad_name [OF sample_pad]) simp
  moreover have "sample_decrypt k n a (hb_name (hdr_body sample_header)) = Some ([1, 0, 97] @ replicate 61 0)"
    for k n a by (simp add: sample_header_def sample_decrypt_def)
  ultimately show ?thesis by (simp add: decrypt_name_def sample_core_sel [OF assms])
qed

lemmas sample_name = sample_core_name [OF sample_core_self]

lemma sample_core_seal_header:
  assumes "sample_core f X"
  shows "seal_header X sample_rng [42] (replicate 32 6) sk sample_opts = Inr sample_header"
proof -
  have so: "so_file_name sample_opts = [97]" "so_extra_recipients sample_opts = []" "so_prev sample_opts = None"
      "so_chunk_size sample_opts = 65536" "so_owner_account sample_opts = [1]"
      "so_policy sample_opts = default_policy"
    by (simp_all add: sample_opts_def seal_options_new_def DEFAULT_CHUNK_def)
  show ?thesis
    unfolding seal_header_def so Let_def sample_pad rbind_simps
    by (simp add: sample_rng_def envelope_seal_def key_id_of_def sample_header_def header_sign_def
        signing_message_def verifying_key_def sample_core_sel [OF assms] flip: replicate_add)
qed

lemma sample_core_seal:
  assumes "sample_core f X"
  shows "seal_signed X sample_rng [42] (replicate 32 6) sk sample_opts = (Inr sample_header, sample_file)"
proof -
  have c: "so_chunk_size sample_opts = 65536"
    by (simp add: sample_opts_def seal_options_new_def DEFAULT_CHUNK_def)
  have e: "header_encode X sample_header = Inr [1]"
    by (simp add: header_encode_def MAX_HEADER_LEN_def sample_header_def sample_core_sel [OF assms])
  have n: "chunk_count (Suc 0) 65536 = 1" by (simp add: chunk_count_def div_ceil_def)
  have t: "u64_le 1 = [1, 0, 0, 0, 0, 0, 0, 0]" by code_simp
  show ?thesis
    unfolding seal_signed_def c sample_core_seal_header [OF assms] rbind_simps e
    by (simp add: n container_consts read_exact_def seal_trailer_def sample_file_def t sample_core_sel [OF assms] Let_def)
qed

lemmas sample_seal = sample_core_seal [OF sample_core_self, where sk = "[]"]

lemma sample_core_open:
  assumes "sample_core f X"
  shows "open_with_dek X sample_header (replicate 32 7)
     (([42] @ replicate 16 0) @ (replicate 32 7 @ [1, 0, 0, 0, 0, 0, 0, 0] @ replicate 32 9)) (replicate 32 3) =
   (Inr \<lparr>op_header = sample_header, op_header_hash = replicate 32 7, op_file_name = [97]\<rparr>, [42])"
proof -
  have n: "chunk_count (Suc 0) 65536 = 1" by (simp add: chunk_count_def div_ceil_def)
  have b: "unat (hb_chunk (hdr_body sample_header)) = 65536" "unat (hb_plen (hdr_body sample_header)) = 1"
    by (simp_all add: sample_header_def)
  have d: "sample_decrypt k np a (42 # replicate 16 0) = Some [42]" for k np a
    by (simp add: sample_decrypt_def)
  have "check_trailer X (replicate 32 7) 1 fs
      (replicate 32 7 @ [1, 0, 0, 0, 0, 0, 0, 0] @ replicate 32 9) = Inr ()" for fs
    by (simp add: check_trailer_def read_exact_def sample_core_sel [OF assms])
  then show ?thesis
    by (simp add: open_with_dek_def sample_core_name [OF assms] sample_core_sel [OF assms] b n container_consts d
        read_exact_def Let_def)
qed

lemmas sample_open = sample_core_open [OF sample_core_self]

section \<open>Properties\<close>

text \<open>C2. Given a 32-byte header hash and a non-zero chunk size, \<open>open_with_dek\<close> succeeds with
  plaintext \<open>out\<close> exactly when the file name decrypts, the plaintext has the length the header
  states, and the stream is the frames that sealing \<open>out\<close> under the same key, nonce prefix and
  header hash produces, followed by their trailer and nothing else: any frame that was changed,
  reordered, dropped or added, and any truncation or extension, is refused.\<close>

theorem open_with_dek_exact:
  assumes "aead_exact X" and "hash_lengths X" and "length hh = 32" and "hb_chunk (hdr_body hdr) \<noteq> 0"
  shows "open_with_dek X hdr hh r dek = (Inr res, out) \<longleftrightarrow>
     (\<exists>name fs. let b = hdr_body hdr; c = unat (hb_chunk b); n = unat (hb_plen b) in
        decrypt_name X hdr dek = Inr name \<and>
        res = \<lparr>op_header = hdr, op_header_hash = hh, op_file_name = name\<rparr> \<and> length out = n \<and>
        seal_chunks X dek (hb_np b) hh c (chunk_count n c) [0..<chunk_count n c] n out [] = (Inr (), fs) \<and>
        r = fs @ seal_trailer X hh (chunk_count n c) fs)"
  unfolding Let_def by (rule open_with_dek_iff [OF assms])

theorem open_with_dek_exact_witness:
  "open_with_dek (sample_lib sample_uncbor) sample_header (replicate 32 7)
     ([42] @ replicate 16 0 @ replicate 32 7 @ [1, 0, 0, 0, 0, 0, 0, 0] @ replicate 32 9) (replicate 32 3) =
   (Inr \<lparr>op_header = sample_header, op_header_hash = replicate 32 7, op_file_name = [97]\<rparr>, [42])"
proof -
  let ?X = "sample_lib sample_uncbor"
  have n: "chunk_count (Suc 0) 65536 = 1" by (simp add: chunk_count_def div_ceil_def)
  have "u64_le 1 = [1, 0, 0, 0, 0, 0, 0, 0]" by code_simp
  then have tr: "seal_trailer ?X (replicate 32 7) 1 fs =
      replicate 32 7 @ [1, 0, 0, 0, 0, 0, 0, 0] @ replicate 32 9" for fs
    by (simp add: seal_trailer_def)
  have run: "seal_chunks ?X (replicate 32 3) np (replicate 32 7) 65536 1 [0] 1 [42] [] =
      (Inr (), [42] @ replicate 16 0)" for np
    by (simp add: read_exact_def)
  have b: "unat (hb_chunk (hdr_body sample_header)) = 65536" "unat (hb_plen (hdr_body sample_header)) = 1"
    "hb_chunk (hdr_body sample_header) \<noteq> 0" by (simp_all add: sample_header_def)
  have "\<exists>name fs. let b = hdr_body sample_header; c = unat (hb_chunk b); n = unat (hb_plen b) in
      decrypt_name ?X sample_header (replicate 32 3) = Inr name \<and>
      \<lparr>op_header = sample_header, op_header_hash = replicate 32 7, op_file_name = [97]\<rparr> =
        \<lparr>op_header = sample_header, op_header_hash = replicate 32 7, op_file_name = name\<rparr> \<and>
      length [42 :: byte] = n \<and>
      seal_chunks ?X (replicate 32 3) (hb_np b) (replicate 32 7) c (chunk_count n c)
        [0..<chunk_count n c] n [42] [] = (Inr (), fs) \<and>
      [42] @ replicate 16 0 @ replicate 32 7 @ [1, 0, 0, 0, 0, 0, 0, 0] @ replicate 32 9 =
        fs @ seal_trailer ?X (replicate 32 7) (chunk_count n c) fs"
    using sample_name run n tr by (intro exI [of _ "[97]"] exI [of _ "[42] @ replicate 16 0"]) (simp add: Let_def b)
  then show ?thesis
    using open_with_dek_exact [of ?X "replicate 32 7" sample_header _ "replicate 32 3"
        "\<lparr>op_header = sample_header, op_header_hash = replicate 32 7, op_file_name = [97]\<rparr>" "[42]"] b(3)
    by simp
qed

text \<open>C7. Whatever \<open>seal_signed\<close> writes, a recipient named at seal time opens: the result is the
  header that was signed with its hash, the file name, and the input byte for byte. The caller has
  to keep to the reader's limits (owner account, number of recipients), and no other recipient may
  share the 128-bit key identifier.\<close>

theorem seal_then_open:
  assumes "aead_exact X" and "hash_lengths X" and "hpke_opens X" and "hpke_small X" and "ed25519_signs X"
    and "keys_wf X k" and "length (rng_dek rng) = 32"
    and "x25519_pk k \<in> set (owner_pk # so_extra_recipients opts)"
    and "\<And>pk. pk \<in> set (owner_pk # so_extra_recipients opts) \<Longrightarrow>
           key_id_of X pk = key_id_of X (x25519_pk k) \<Longrightarrow> pk = x25519_pk k"
    and "seal_limits opts" and "utf8_valid (so_file_name opts)" and "length input < 2 ^ 64"
    and "\<And>hb. cbor_header X h = Inr hb \<Longrightarrow> uncbor_header X hb = Inr h"
    and "seal_signed X rng input owner_pk signer opts = (Inr h, file)"
  shows "\<exists>hh. header_hash X h = Inr hh \<and>
    open_container X file k =
      (Inr \<lparr>op_header = h, op_header_hash = hh, op_file_name = so_file_name opts\<rparr>, input)"
  using assms by (rule seal_open_roundtrip)

theorem seal_then_open_witness:
  "\<exists>hh. header_hash (sample_lib sample_uncbor) sample_header = Inr hh \<and>
    open_container (sample_lib sample_uncbor) sample_file sample_keys =
      (Inr \<lparr>op_header = sample_header, op_header_hash = hh, op_file_name = [97]\<rparr>, [42])"
proof -
  have name: "so_file_name sample_opts = [97]" "so_extra_recipients sample_opts = []"
    by (simp_all add: sample_opts_def seal_options_new_def)
  show ?thesis
    using seal_then_open [of "sample_lib sample_uncbor" sample_keys sample_rng "replicate 32 6" sample_opts "[42]"
        sample_header "[]" sample_file]
    by (simp add: sample_seal name sample_uncbor_def) (simp add: sample_keys_def sample_rng_def sample_opts_def seal_options_new_def
        seal_limits_def container_consts)
qed

text \<open>A file name of at most 1024 bytes pads to a multiple of 64 between 64 and 1088 bytes,
  the same length for every name that needs the same number of blocks, and unpads to itself.
  Conversely a buffer that unpads is a length prefix, a valid UTF-8 name and zeros only, so the
  padding can carry nothing else.\<close>

theorem name_padding:
  "(length name \<le> MAX_NAME_LEN \<longleftrightarrow> is_ok (pad_name name)) \<and>
   (pad_name name = Inr p \<and> utf8_valid name \<longrightarrow>
      unpad_name p = Inr name \<and> length p = 64 * div_ceil (2 + length name) 64 \<and> length p \<le> 1088) \<and>
   (unpad_name p = Inr name \<longrightarrow>
      name_ok name \<and> (\<exists>k. p = u16_le (word_of_nat (length name)) @ name @ replicate k 0))"
proof (intro conjI impI)
  show "length name \<le> MAX_NAME_LEN \<longleftrightarrow> is_ok (pad_name name)" by (simp add: pad_name_def Let_def)
  assume p: "pad_name name = Inr p \<and> utf8_valid name"
  then show "unpad_name p = Inr name" by (blast intro: unpad_pad_name)
  show "length p = 64 * div_ceil (2 + length name) 64" "length p \<le> 1088"
    using pad_name_length(1,4) [of name p] p by (simp_all only: mult.commute)
qed (use unpad_name_sound in blast)+

theorem name_padding_witness:
  "is_ok (pad_name [97]) \<and> unpad_name ([1, 0, 97] @ replicate 61 0) = Inr [97] \<and> name_ok [97]"
  using name_padding [of "[97]" "[1, 0, 97] @ replicate 61 0"] sample_pad by (simp add: MAX_NAME_LEN_def)

text \<open>Under one key no two messages of a container share a nonce: the chunk indices a plaintext
  of fewer than \<open>2 ^ 64\<close> bytes needs are distinct 64-bit counters, and none of them is the
  counter reserved for the file name.\<close>

theorem nonces_unique:
  assumes "0 < c" and "plen < 2 ^ 64" and "i < chunk_count plen c"
  shows "nonce np (word_of_nat i) \<noteq> nonce np NAME_INDEX \<and>
    (\<forall>j < chunk_count plen c. nonce np (word_of_nat i) = nonce np (word_of_nat j) \<longrightarrow> i = j)"
  using chunk_index_below_name [OF assms(1,2)] assms(3) by (auto simp: nonce_inj dest: arg_cong [of _ _ unat])

theorem nonces_unique_witness:
  "nonce [] (word_of_nat 2) \<noteq> nonce [] NAME_INDEX \<and> nonce [] (word_of_nat 2) \<noteq> nonce [] (word_of_nat 0)"
proof -
  have "(2::nat) < chunk_count 5 2" "(0::nat) < chunk_count 5 2"
    by (simp_all add: chunk_count_def div_ceil_def)
  then show ?thesis using nonces_unique [of 2 5 2 "[]"] by fastforce
qed

end
