(* ===== verification/Container_Files.thy ===== *)
theory Container_Files
  imports Container
begin

text \<open>
  Containers on disk (\<open>crates/zbacs-core/src/container.rs\<close>, second half, and
  \<open>traits.rs\<close>): sealing to a path through a temporary file and a rename, resealing by the
  owner and by a recipient, the version-chain check, and the \<open>Opener\<close> trait as an interface
  with its two implementations.

  A file system is a partial map from paths to contents; a path is its directory and its file
  name. What the operating system may refuse is the argument \<open>io\<close>: creating, filling,
  syncing and renaming the temporary file.
\<close>

type_synonym path = "string list \<times> string"
type_synonym fs = "path \<rightharpoonup> bytes"

record io_env =
  io_create :: bool
  io_room :: "nat option"
  io_sync :: bool
  io_rename :: bool

text \<open>\<open>Path::file_stem\<close> and \<open>Path::with_extension\<close> of the standard library.\<close>

definition file_stem :: "string \<Rightarrow> string" where
  "file_stem f =
     (let before = dropWhile (\<lambda>c. c \<noteq> CHR ''.'') (rev f) in
      if f = ''..'' \<or> before = [] \<or> tl before = [] then f else rev (tl before))"

definition with_extension :: "path \<Rightarrow> string \<Rightarrow> path" where
  "with_extension p ext = (fst p, file_stem (snd p) @ ''.'' @ ext)"

definition tmp_path :: "path \<Rightarrow> path" where
  "tmp_path out_path = with_extension out_path ''zbacs.tmp''"

definition fits :: "io_env \<Rightarrow> bytes \<Rightarrow> bool" where
  "fits io out = (case io_room io of None \<Rightarrow> True | Some n \<Rightarrow> length out \<le> n)"

definition written :: "io_env \<Rightarrow> bytes \<Rightarrow> bytes" where
  "written io out = (case io_room io of None \<Rightarrow> out | Some n \<Rightarrow> take n out)"

subsection \<open>Sealing to a path\<close>

definition seal_signed_to_path ::
  "'x core_lib_scheme \<Rightarrow> io_env \<Rightarrow> seal_rng \<Rightarrow> path \<Rightarrow> path \<Rightarrow> bytes \<Rightarrow> bytes \<Rightarrow> seal_options \<Rightarrow> fs \<Rightarrow>
     (core_error + header) \<times> fs" where
  "seal_signed_to_path X io rng in_path out_path owner_pk signer opts fs =
     (if fs in_path = None then (Inl Io, fs)
      else
        let tmp = tmp_path out_path in
        if \<not> io_create io then (Inl Io, fs)
        else
          let fs1 = fs(tmp \<mapsto> []);
              input = the (fs1 in_path);
              (r, out) = seal_signed X rng input owner_pk signer opts;
              fs2 = fs1(tmp \<mapsto> written io out)
          in case r of
               Inl e \<Rightarrow> (Inl e, fs2)
             | Inr hdr \<Rightarrow>
                 if \<not> fits io out \<or> \<not> io_sync io \<or> \<not> io_rename io then (Inl Io, fs2)
                 else (Inr hdr, fs2(out_path := fs2 tmp, tmp := None)))"

definition seal_to_path ::
  "'x core_lib_scheme \<Rightarrow> io_env \<Rightarrow> seal_rng \<Rightarrow> path \<Rightarrow> path \<Rightarrow> owner_keys \<Rightarrow> seal_options \<Rightarrow> fs \<Rightarrow>
     (core_error + header) \<times> fs" where
  "seal_to_path X io rng in_path out_path owner opts fs =
     (if length (x25519_pk (sealing owner)) \<noteq> 32 then (Inl EnvelopeSeal, fs)
      else seal_signed_to_path X io rng in_path out_path (x25519_pk (sealing owner)) (signing owner) opts fs)"

subsection \<open>Resealing\<close>

definition reseal_options :: "header \<Rightarrow> bytes \<Rightarrow> policy \<Rightarrow> bytes \<Rightarrow> seal_options" where
  "reseal_options prev_header prev_hash pol name =
     (seal_options_new (hb_own (hdr_body prev_header)) [])
       \<lparr>so_policy := pol, so_chunk_size := unat (hb_chunk (hdr_body prev_header)),
        so_prev := Some (prev_version_of prev_header prev_hash), so_file_name := name\<rparr>"

definition reseal_to_path ::
  "'x core_lib_scheme \<Rightarrow> io_env \<Rightarrow> seal_rng \<Rightarrow> path \<Rightarrow> path \<Rightarrow> owner_keys \<Rightarrow> policy \<Rightarrow> fs \<Rightarrow>
     (core_error + header) \<times> fs" where
  "reseal_to_path X io rng plaintext_path container_path owner pol fs =
     (case rbind (ok_or (fs container_path) Io) (\<lambda>file.
           rbind (inspect X file) (\<lambda>(prev_header, prev_hash).
           rbind (ok_or (find (\<lambda>e. env_kid e = device_key_id X (sealing owner))
                               (hb_env (hdr_body prev_header))) NoEnvelope) (\<lambda>env.
           rbind (envelope_open X env (sealing owner) (hb_fid (hdr_body prev_header))) (\<lambda>prev_dek.
           rbind (decrypt_name X prev_header prev_dek) (\<lambda>name.
             Inr (reseal_options prev_header prev_hash pol name)))))) of
        Inl e \<Rightarrow> (Inl e, fs)
      | Inr opts \<Rightarrow> seal_to_path X io rng plaintext_path container_path owner opts fs)"

definition reseal_as_recipient_to_path ::
  "'x core_lib_scheme \<Rightarrow> io_env \<Rightarrow> seal_rng \<Rightarrow> path \<Rightarrow> path \<Rightarrow> bytes \<Rightarrow> bytes \<Rightarrow> policy \<Rightarrow> fs \<Rightarrow>
     (core_error + header) \<times> fs" where
  "reseal_as_recipient_to_path X io rng plaintext_path container_path prev_dek signer pol fs =
     (case rbind (ok_or (fs container_path) Io) (\<lambda>file.
           rbind (inspect X file) (\<lambda>(prev_header, prev_hash).
           rbind (ok_or (hb_opub (hdr_body prev_header)) NoOwnerKey) (\<lambda>opub.
           rbind (decrypt_name X prev_header prev_dek) (\<lambda>name.
             Inr (opub, reseal_options prev_header prev_hash pol name))))) of
        Inl e \<Rightarrow> (Inl e, fs)
      | Inr (opub, opts) \<Rightarrow> seal_signed_to_path X io rng plaintext_path container_path opub signer opts fs)"

subsection \<open>The version chain\<close>

text \<open>
  The loop of \<open>verify_version_chain\<close>. The source's \<open>prev.body.ver + 1\<close> is a \<open>u32\<close> sum,
  which wraps in a release build.
\<close>

fun verify_links ::
  "'x core_lib_scheme \<Rightarrow> header \<Rightarrow> bytes \<Rightarrow> (header \<times> bytes) list \<Rightarrow> core_error + unit" where
  "verify_links X prev prev_hash [] = Inr ()"
| "verify_links X prev prev_hash ((hdr, hash) # rest) =
     (if hb_ver (hdr_body hdr) \<noteq> hb_ver (hdr_body prev) + 1
        then Inl (BrokenChain ''version numbers are not consecutive'')
      else if hb_prev (hdr_body hdr) \<noteq> Some prev_hash
        then Inl (BrokenChain ''prev does not match the previous header hash'')
      else if hb_fid (hdr_body hdr) \<noteq> hb_fid (hdr_body prev) \<or> hb_salt (hdr_body hdr) \<noteq> hb_salt (hdr_body prev)
        then Inl (BrokenChain ''file identity changed between versions'')
      else rbind (header_hash X hdr) (\<lambda>h.
        if h \<noteq> hash then Inl (BrokenChain ''header hash does not match the header'')
        else verify_links X hdr hash rest))"

definition verify_version_chain ::
  "'x core_lib_scheme \<Rightarrow> (header \<times> bytes) list \<Rightarrow> core_error + unit" where
  "verify_version_chain X chain =
     (case chain of
        [] \<Rightarrow> Inl (BrokenChain ''empty chain'')
      | (first, first_hash) # rest \<Rightarrow>
          if hb_ver (hdr_body first) \<noteq> 1 \<or> hb_prev (hdr_body first) \<noteq> None
          then Inl (BrokenChain ''chain does not start at version 1'')
          else verify_links X first first_hash rest)"

subsection \<open>traits.rs\<close>

definition granted_dek_open ::
  "'x core_lib_scheme \<Rightarrow> bytes \<Rightarrow> bytes \<Rightarrow> (core_error + opened) \<times> bytes" where
  "granted_dek_open X dek input =
     (case read_header X input of
        Inl e \<Rightarrow> (Inl e, [])
      | Inr (hdr, hh, r) \<Rightarrow> open_with_dek X hdr hh r dek)"

definition device_keys_open ::
  "'x core_lib_scheme \<Rightarrow> device_keys \<Rightarrow> bytes \<Rightarrow> (core_error + opened) \<times> bytes" where
  "device_keys_open X keys input = open_container X input keys"

definition owner_keys_seal ::
  "'x core_lib_scheme \<Rightarrow> owner_keys \<Rightarrow> seal_rng \<Rightarrow> bytes \<Rightarrow> seal_options \<Rightarrow> (core_error + header) \<times> bytes" where
  "owner_keys_seal X owner rng input opts = seal X rng input owner opts"

subsection \<open>The temporary file is never the container\<close>

lemma file_stem_ext: "file_stem (s @ ''.zbacs.tmp'') = s @ ''.zbacs''"
proof -
  have "s @ ''.zbacs.tmp'' \<noteq> ''..''" by (auto dest: arg_cong [of _ _ length])
  then show ?thesis by (simp add: file_stem_def Let_def)
qed

lemma tmp_path_neq [simp]: "tmp_path p \<noteq> p"
proof
  assume "tmp_path p = p"
  then have eq: "file_stem (snd p) @ ''.zbacs.tmp'' = snd p"
    by (cases p) (simp add: tmp_path_def with_extension_def)
  then have "file_stem (snd p) = file_stem (snd p) @ ''.zbacs''"
    using file_stem_ext [of "file_stem (snd p)"] by simp
  then show False by simp
qed

lemmas tmp_path_neq' [simp] = tmp_path_neq [symmetric]

lemma seal_signed_to_path_cases:
  assumes "seal_signed_to_path X io rng in_path out_path owner_pk signer opts fs = (r, fs')"
  shows "\<forall>p. p \<noteq> out_path \<and> p \<noteq> tmp_path out_path \<longrightarrow> fs' p = fs p"
    and "r = Inl e \<Longrightarrow> fs' out_path = fs out_path"
    and "r = Inr hdr \<Longrightarrow> fs in_path \<noteq> None \<and> fs' (tmp_path out_path) = None \<and>
           (\<exists>file. fs' out_path = Some file \<and>
              seal_signed X rng (the ((fs(tmp_path out_path \<mapsto> [])) in_path)) owner_pk signer opts = (Inr hdr, file))"
  using assms
  by (auto simp: seal_signed_to_path_def Let_def fits_def written_def
      split: if_splits sum.splits prod.splits option.splits)

lemma seal_to_path_frame:
  assumes "seal_to_path X io rng in_path out_path owner opts fs = (r, fs')"
    and "p \<noteq> out_path" and "p \<noteq> tmp_path out_path"
  shows "fs' p = fs p"
proof (cases "length (x25519_pk (sealing owner)) = 32")
  case True
  then have "seal_signed_to_path X io rng in_path out_path (x25519_pk (sealing owner)) (signing owner) opts fs = (r, fs')"
    using assms(1) by (simp add: seal_to_path_def)
  from seal_signed_to_path_cases(1) [OF this] show ?thesis using assms(2,3) by blast
next
  case False
  then show ?thesis using assms(1) by (simp add: seal_to_path_def)
qed

subsection \<open>Reading a header back from a file\<close>

lemma read_header_Inr:
  assumes "read_header X file = Inr (h, hh, r)"
  obtains minor hb where
    "file = MAGIC @ [VERSION_MAJOR, minor] @ u32_le (word_of_nat (length hb)) @ hb @ r"
    "length hb \<le> MAX_HEADER_LEN" "header_decode_verified X hb = Inr (h, hh)" "validate_header h = Inr ()"
proof -
  from assms obtain magic r1 lenb r2 hb where
    m: "read_exact 8 file = Some (magic, r1)" "take 6 magic = MAGIC" "magic ! 6 = VERSION_MAJOR" and
    l: "read_exact 4 r1 = Some (lenb, r2)" and
    h: "read_exact (of_le_bytes lenb) r2 = Some (hb, r)" and
    d: "header_decode_verified X hb = Inr (h, hh)" "validate_header h = Inr ()"
    by (auto simp: read_header_def Let_def rbind_eq_Inr ok_or_eq_Inr split: if_splits)
  have l8: "length magic = 8" and l4: "length lenb = 4" and lh: "length hb = of_le_bytes lenb"
    and parts: "file = magic @ r1" "r1 = lenb @ r2" "r2 = hb @ r"
    using m(1) l h by (auto simp: read_exact_Some)
  have "magic = take 6 magic @ [magic ! 6, magic ! 7]"
    using l8 by (intro nth_equalityI) (auto simp: nth_append nth_Cons' less_Suc_eq numeral_eq_Suc)
  then have mg: "magic = MAGIC @ [VERSION_MAJOR, magic ! 7]" using m(2,3) by simp
  have "le_bytes (length lenb) (of_le_bytes lenb) = lenb" by (rule le_bytes_of_le_bytes)
  moreover have "of_le_bytes lenb < 2 ^ 32" using of_le_bytes_bound [of lenb] by (simp add: l4)
  ultimately have "u32_le (word_of_nat (length hb)) = lenb"
    by (simp add: u32_le_def lh l4 unat_of_nat)
  then have "file = MAGIC @ [VERSION_MAJOR, magic ! 7] @ u32_le (word_of_nat (length hb)) @ hb @ r"
    using mg parts by simp
  moreover have "length hb \<le> MAX_HEADER_LEN" using d(1) by (simp add: header_decode_verified_Inr)
  ultimately show ?thesis using that d by blast
qed

lemma read_header_append:
  assumes "read_header X file = Inr (h, hh, r)"
  shows "read_header X (file @ x) = Inr (h, hh, r @ x)"
proof -
  have *: "read_exact n (a @ x) = Some (b, c @ x)" if "read_exact n a = Some (b, c)" for n a b c
    using that by (auto simp: read_exact_Some)
  from assms obtain magic r1 lenb r2 hb where
    m: "read_exact 8 file = Some (magic, r1)" "take 6 magic = MAGIC" "magic ! 6 = VERSION_MAJOR" and
    l: "read_exact 4 r1 = Some (lenb, r2)" "of_le_bytes lenb \<le> MAX_HEADER_LEN" and
    h: "read_exact (of_le_bytes lenb) r2 = Some (hb, r)" and
    d: "header_decode_verified X hb = Inr (h, hh)" "validate_header h = Inr ()"
    by (auto simp: read_header_def Let_def rbind_eq_Inr ok_or_eq_Inr split: if_splits)
  show ?thesis
    using m l h d by (simp add: read_header_def Let_def * [OF m(1)] * [OF l(1)] * [OF h])
qed

lemma validate_header_limits:
  assumes "validate_header h = Inr ()"
  defines "b \<equiv> hdr_body h"
  shows "hb_cipher b = CIPHER_XCHACHA20_POLY1305_CHUNKED" and "hb_chunk b \<noteq> 0"
    and "unat (hb_chunk b) \<le> MAX_CHUNK" and "hb_ver b \<noteq> 0" and "hb_ver b = 1 \<longleftrightarrow> hb_prev b = None"
    and "hb_own b \<noteq> []" and "length (hb_own b) \<le> MAX_OWNER_LEN"
    and "80 \<le> length (hb_name b)" and "length (hb_name b) \<le> MAX_NAME_CT_LEN"
    and "hb_env b \<noteq> []" and "length (hb_env b) \<le> MAX_ENVELOPES"
    and "\<forall>e \<in> set (hb_env b). length (env_enc e) \<le> MAX_ENVELOPE_FIELD_LEN
             \<and> length (env_ct e) \<le> MAX_ENVELOPE_FIELD_LEN"
  using assms
  by (auto simp: validate_header_def Let_def list_ex_iff not_less NAME_PAD_BLOCK_def TAG_LEN_def
      split: if_splits)

lemma open_with_dek_result:
  "open_with_dek X h hh r dek = (Inr res, out) \<Longrightarrow> op_header res = h \<and> op_header_hash res = hh"
  by (auto simp: open_with_dek_def Let_def rbind_eq_Inr split: sum.splits prod.splits)

subsection \<open>The Opener interface\<close>

text \<open>
  What \<open>trait Opener\<close> promises: success means that the header was read and verified and
  that every chunk and the trailer were checked under some key. The client lemmas say what an
  opened file then looks like, whichever implementation opened it.
\<close>

locale opener =
  fixes X :: "'x core_lib_scheme"
    and opn :: "bytes \<Rightarrow> (core_error + opened) \<times> bytes"
  assumes verified: "opn file = (Inr res, out) \<Longrightarrow>
    \<exists>r dek. read_header X file = Inr (op_header res, op_header_hash res, r) \<and>
      open_with_dek X (op_header res) (op_header_hash res) r dek = (Inr res, out)"
begin

lemma exact_stream:
  assumes "aead_exact X" and "hash_lengths X" and "opn file = (Inr res, out)"
  shows "\<exists>r dek frames. read_header X file = Inr (op_header res, op_header_hash res, r) \<and>
    validate_header (op_header res) = Inr () \<and>
    length out = unat (hb_plen (hdr_body (op_header res))) \<and>
    (let b = hdr_body (op_header res); c = unat (hb_chunk b); n = chunk_count (length out) c
     in seal_chunks X dek (hb_np b) (op_header_hash res) c n [0..<n] (length out) out [] = (Inr (), frames) \<and>
        length frames = length out + 16 * n \<and>
        r = frames @ seal_trailer X (op_header_hash res) n frames)"
proof -
  let ?h = "op_header res" and ?hh = "op_header_hash res"
  from verified [OF assms(3)] obtain r dek where rh: "read_header X file = Inr (?h, ?hh, r)"
    and od: "open_with_dek X ?h ?hh r dek = (Inr res, out)" by blast
  from read_header_Inr [OF rh] obtain hb where dec: "header_decode_verified X hb = Inr (?h, ?hh)"
    and val: "validate_header ?h = Inr ()" by metis
  have l32: "length ?hh = 32" using dec hash_lengthsD [OF assms(2)] by (simp add: header_decode_verified_Inr)
  note ch = validate_header_limits(2) [OF val]
  from od [unfolded open_with_dek_iff [OF assms(1,2) l32 ch]] obtain frames where
    len: "length out = unat (hb_plen (hdr_body ?h))" and
    run: "seal_chunks X dek (hb_np (hdr_body ?h)) ?hh (unat (hb_chunk (hdr_body ?h)))
      (chunk_count (length out) (unat (hb_chunk (hdr_body ?h))))
      [0..<chunk_count (length out) (unat (hb_chunk (hdr_body ?h)))] (length out) out [] = (Inr (), frames)" and
    r: "r = frames @ seal_trailer X ?hh (chunk_count (length out) (unat (hb_chunk (hdr_body ?h)))) frames"
    by auto
  have "length frames = length out + 16 * chunk_count (length out) (unat (hb_chunk (hdr_body ?h)))"
    using seal_chunks_length [OF assms(1), of dek _ ?hh _ _ _ _ out "[]"] run ch
    by (simp add: span_all unat_gt_0)
  then show ?thesis using rh val len run r by (auto simp: Let_def)
qed

lemma stream_length:
  assumes "aead_exact X" and "hash_lengths X" and "opn file = (Inr res, out)"
    and "read_header X file = Inr (h, hh, r)"
  shows "length r = unat (hb_plen (hdr_body h))
           + 16 * chunk_count (unat (hb_plen (hdr_body h))) (unat (hb_chunk (hdr_body h))) + 72"
proof -
  from exact_stream [OF assms(1-3)] assms(4) obtain frames n where
    h: "h = op_header res" "hh = op_header_hash res" and l: "length out = unat (hb_plen (hdr_body h))"
    and n: "n = chunk_count (length out) (unat (hb_chunk (hdr_body h)))"
    and fr: "length frames = length out + 16 * n" and r: "r = frames @ seal_trailer X hh n frames"
    by (auto simp: Let_def)
  have "length hh = 32"
    using read_header_Inr [OF assms(4)] hash_lengthsD [OF assms(2)] by (metis header_decode_verified_Inr)
  then show ?thesis using length_seal_trailer [OF assms(2)] fr l by (simp add: r n)
qed

lemma prefix_free:
  assumes "aead_exact X" and "hash_lengths X"
    and "opn file = (Inr res, out)" and "opn (file @ x) = (Inr res', out')"
  shows "x = []"
proof -
  from verified [OF assms(3)] obtain r where
    r: "read_header X file = Inr (op_header res, op_header_hash res, r)" by blast
  have "length (r @ x) = length r"
    using stream_length [OF assms(1-3) r] stream_length [OF assms(1,2,4) read_header_append [OF r]] by simp
  then show ?thesis by simp
qed

end

interpretation granted: opener X "granted_dek_open X dek" for X dek
proof unfold_locales
  fix f res out
  assume "granted_dek_open X dek f = (Inr res, out)"
  then obtain h hh r where "read_header X f = Inr (h, hh, r)"
    and od: "open_with_dek X h hh r dek = (Inr res, out)"
    by (auto simp: granted_dek_open_def split: sum.splits)
  moreover have "op_header res = h" "op_header_hash res = hh" using open_with_dek_result [OF od] by simp_all
  ultimately show "\<exists>r dek. read_header X f = Inr (op_header res, op_header_hash res, r) \<and>
      open_with_dek X (op_header res) (op_header_hash res) r dek = (Inr res, out)" by blast
qed

interpretation device: opener X "device_keys_open X keys" for X keys
proof unfold_locales
  fix f res out
  assume "device_keys_open X keys f = (Inr res, out)"
  then obtain h hh r dek where "read_header X f = Inr (h, hh, r)"
    and od: "open_with_dek X h hh r dek = (Inr res, out)"
    by (auto simp: device_keys_open_def open_container_def rbind_eq_Inr split: sum.splits)
  moreover have "op_header res = h" "op_header_hash res = hh" using open_with_dek_result [OF od] by simp_all
  ultimately show "\<exists>r dek. read_header X f = Inr (op_header res, op_header_hash res, r) \<and>
      open_with_dek X (op_header res) (op_header_hash res) r dek = (Inr res, out)" by blast
qed

subsection \<open>The chain check, characterised\<close>

lemma verify_links_append:
  "verify_links X prev ph (xs @ [(h, hh)]) = Inr () \<longleftrightarrow>
     verify_links X prev ph xs = Inr () \<and>
     verify_links X (fst (last ((prev, ph) # xs))) (snd (last ((prev, ph) # xs))) [(h, hh)] = Inr ()"
proof (induction xs arbitrary: prev ph)
  case Nil
  then show ?case by simp
next
  case (Cons x xs)
  obtain hdr hash where x: "x = (hdr, hash)" by (cases x)
  show ?case
    using Cons.IH [of hdr hash] by (cases "header_hash X hdr") (simp_all add: x)
qed

lemma verify_version_chain_snoc:
  assumes "cs \<noteq> []"
  shows "verify_version_chain X (cs @ [(h, hh)]) = Inr () \<longleftrightarrow>
    verify_version_chain X cs = Inr () \<and> verify_links X (fst (last cs)) (snd (last cs)) [(h, hh)] = Inr ()"
proof -
  obtain f fh rest where cs: "cs = (f, fh) # rest" using assms by (cases cs) auto
  show ?thesis unfolding cs append_Cons verify_version_chain_def list.case prod.case
    using verify_links_append [of X f fh rest h hh] by (simp only: if_Inl_eq_Inr conj_assoc)
qed

text \<open>What a chain is: numbered from 1, hash-linked, one file identity.\<close>

definition version_chain :: "'x core_lib_scheme \<Rightarrow> (header \<times> bytes) list \<Rightarrow> bool" where
  "version_chain X chain \<longleftrightarrow>
     chain \<noteq> [] \<and> hb_prev (hdr_body (fst (hd chain))) = None \<and>
     (\<forall>i < length chain. hb_ver (hdr_body (fst (chain ! i))) = word_of_nat (Suc i) \<and>
        hb_fid (hdr_body (fst (chain ! i))) = hb_fid (hdr_body (fst (hd chain))) \<and>
        hb_salt (hdr_body (fst (chain ! i))) = hb_salt (hdr_body (fst (hd chain)))) \<and>
     (\<forall>i. Suc i < length chain \<longrightarrow>
        hb_prev (hdr_body (fst (chain ! Suc i))) = Some (snd (chain ! i)) \<and>
        header_hash X (fst (chain ! Suc i)) = Inr (snd (chain ! Suc i)))"

lemma version_chain_snoc:
  assumes "cs \<noteq> []"
  shows "version_chain X (cs @ [(h, hh)]) \<longleftrightarrow>
    version_chain X cs \<and> hb_ver (hdr_body h) = word_of_nat (Suc (length cs)) \<and>
    hb_fid (hdr_body h) = hb_fid (hdr_body (fst (hd cs))) \<and>
    hb_salt (hdr_body h) = hb_salt (hdr_body (fst (hd cs))) \<and>
    hb_prev (hdr_body h) = Some (snd (last cs)) \<and> header_hash X h = Inr hh"
proof -
  obtain n where n: "length cs = Suc n" using assms by (cases cs) auto
  have la: "last cs = cs ! n" using assms n by (simp add: last_conv_nth)
  have at: "(cs @ [(h, hh)]) ! i = cs ! i" if "i \<le> n" for i using that n by (simp add: nth_append)
  have new: "(cs @ [(h, hh)]) ! Suc n = (h, hh)" using n by (simp add: nth_append)
  have split: "(\<forall>i < Suc (Suc n). P i) \<longleftrightarrow> (\<forall>i < Suc n. P i) \<and> P (Suc n)" for P :: "nat \<Rightarrow> bool"
    by (auto simp: less_Suc_eq)
  have split': "(\<forall>i. i < Suc n \<longrightarrow> P i) \<longleftrightarrow> (\<forall>i. i < n \<longrightarrow> P i) \<and> P n" for P :: "nat \<Rightarrow> bool"
    by (auto simp: less_Suc_eq)
  show ?thesis
    unfolding version_chain_def using assms la at new
    by (simp add: n split split' del: All_less_Suc) auto
qed

lemma verify_version_chain_iff: "verify_version_chain X chain = Inr () \<longleftrightarrow> version_chain X chain"
proof (induction chain rule: rev_induct)
  case Nil
  then show ?case by (simp add: verify_version_chain_def version_chain_def)
next
  case (snoc x cs)
  obtain h hh where x: "x = (h, hh)" by (cases x)
  show ?case
  proof (cases "cs = []")
    case True
    then show ?thesis by (auto simp: x verify_version_chain_def version_chain_def)
  next
    case False
    have link: "verify_links X (fst (last cs)) (snd (last cs)) [(h, hh)] = Inr () \<longleftrightarrow>
        hb_ver (hdr_body h) = hb_ver (hdr_body (fst (last cs))) + 1 \<and>
        hb_fid (hdr_body h) = hb_fid (hdr_body (fst (last cs))) \<and>
        hb_salt (hdr_body h) = hb_salt (hdr_body (fst (last cs))) \<and>
        hb_prev (hdr_body h) = Some (snd (last cs)) \<and> header_hash X h = Inr hh"
      by (auto simp: rbind_eq_Inr)
    have lst: "hb_ver (hdr_body (fst (last cs))) = word_of_nat (length cs) \<and>
        hb_fid (hdr_body (fst (last cs))) = hb_fid (hdr_body (fst (hd cs))) \<and>
        hb_salt (hdr_body (fst (last cs))) = hb_salt (hdr_body (fst (hd cs)))" if "version_chain X cs"
      using that False by (cases "length cs") (auto simp: version_chain_def last_conv_nth)
    show ?thesis
      unfolding x verify_version_chain_snoc [OF False] version_chain_snoc [OF False] link snoc.IH
      using lst by (auto simp: add.commute)
  qed
qed

subsection \<open>Reseals\<close>

text \<open>Both reseals seal with options inherited from the container they replace.\<close>

definition resealed :: "'x core_lib_scheme \<Rightarrow> seal_rng \<Rightarrow> bytes \<Rightarrow> bytes \<Rightarrow> bytes \<Rightarrow> policy \<Rightarrow>
    header \<Rightarrow> bytes \<Rightarrow> bytes \<Rightarrow> header \<Rightarrow> bytes \<Rightarrow> bool" where
  "resealed X rng input owner_pk signer pol hp hhp name h new \<longleftrightarrow>
     validate_header hp = Inr () \<and> utf8_valid name \<and>
     seal_signed X rng input owner_pk signer (reseal_options hp hhp pol name) = (Inr h, new)"

lemma decrypt_name_utf8: "decrypt_name X h dek = Inr name \<Longrightarrow> utf8_valid name"
  by (auto simp: decrypt_name_def rbind_eq_Inr name_ok_def dest!: unpad_name_sound)

lemma inspect_Inr: "inspect X file = Inr (h, hh) \<Longrightarrow> validate_header h = Inr ()"
  by (auto simp: inspect_def rbind_eq_Inr elim: read_header_Inr)

lemma reseal_to_path_Inr:
  assumes "reseal_to_path X io rng pt_path path owner pol fs = (Inr h, fs')"
  obtains cf hp hhp name new where "fs path = Some cf" "inspect X cf = Inr (hp, hhp)"
    "resealed X rng (the ((fs(tmp_path path \<mapsto> [])) pt_path)) (x25519_pk (sealing owner)) (signing owner)
       pol hp hhp name h new"
    "fs' path = Some new" "fs' (tmp_path path) = None"
proof -
  from assms obtain cf hp hhp name dek where f: "fs path = Some cf" "inspect X cf = Inr (hp, hhp)"
    and n: "decrypt_name X hp dek = Inr name"
    and s: "seal_signed_to_path X io rng pt_path path (x25519_pk (sealing owner)) (signing owner)
       (reseal_options hp hhp pol name) fs = (Inr h, fs')"
    by (auto simp: reseal_to_path_def seal_to_path_def rbind_eq_Inr ok_or_eq_Inr split: sum.splits if_splits)
  from seal_signed_to_path_cases(3) [OF s refl] that [OF f] show ?thesis
    using inspect_Inr [OF f(2)] decrypt_name_utf8 [OF n] unfolding resealed_def by blast
qed

lemma reseal_as_recipient_Inr:
  assumes "reseal_as_recipient_to_path X io rng pt_path path prev_dek signer pol fs = (Inr h, fs')"
  obtains cf hp hhp opub name new where "fs path = Some cf" "inspect X cf = Inr (hp, hhp)"
    "hb_opub (hdr_body hp) = Some opub" "decrypt_name X hp prev_dek = Inr name"
    "resealed X rng (the ((fs(tmp_path path \<mapsto> [])) pt_path)) opub signer pol hp hhp name h new"
    "fs' path = Some new" "fs' (tmp_path path) = None"
proof -
  from assms obtain cf hp hhp opub name where f: "fs path = Some cf" "inspect X cf = Inr (hp, hhp)"
      "hb_opub (hdr_body hp) = Some opub"
    and n: "decrypt_name X hp prev_dek = Inr name"
    and s: "seal_signed_to_path X io rng pt_path path opub signer
       (reseal_options hp hhp pol name) fs = (Inr h, fs')"
    by (auto simp: reseal_as_recipient_to_path_def rbind_eq_Inr ok_or_eq_Inr split: sum.splits)
  from seal_signed_to_path_cases(3) [OF s refl] that [OF f n] show ?thesis
    using inspect_Inr [OF f(2)] decrypt_name_utf8 [OF n] unfolding resealed_def by blast
qed

lemma resealed_links:
  assumes "resealed X rng input owner_pk signer pol hp hhp name h new"
  shows "hb_ver (hdr_body h) = hb_ver (hdr_body hp) + 1" and "unat (hb_ver (hdr_body h)) = unat (hb_ver (hdr_body hp)) + 1"
    and "hb_prev (hdr_body h) = Some hhp"
    and "hb_fid (hdr_body h) = hb_fid (hdr_body hp)" and "hb_salt (hdr_body h) = hb_salt (hdr_body hp)"
    and "hb_own (hdr_body h) = hb_own (hdr_body hp)" and "hb_opub (hdr_body h) = Some owner_pk"
    and "hb_chunk (hdr_body h) = hb_chunk (hdr_body hp)" and "hb_pol (hdr_body h) = pol"
    and "\<exists>hh. header_hash X h = Inr hh"
proof -
  from assms have "seal_signed X rng input owner_pk signer (reseal_options hp hhp pol name) = (Inr h, new)"
    by (simp add: resealed_def)
  from seal_signed_Inr [OF this] obtain hb where
    sh: "seal_header X rng input owner_pk signer (reseal_options hp hhp pol name) = Inr h"
    and hb: "header_encode X h = Inr hb" by metis
  note si = seal_header_Inr [OF sh]
  note fields = reseal_options_def seal_options_new_def prev_version_of_def
  show un: "unat (hb_ver (hdr_body h)) = unat (hb_ver (hdr_body hp)) + 1" using si(11) by (simp add: fields)
  have "unat (hb_ver (hdr_body hp)) + 1 < 2 ^ 32" using un unat_bound [of "hb_ver (hdr_body h)"] by simp
  then show "hb_ver (hdr_body h) = hb_ver (hdr_body hp) + 1"
    using un by (simp add: word_unat_eq_iff unat_add_one_eq)
  show "hb_prev (hdr_body h) = Some hhp" "hb_fid (hdr_body h) = hb_fid (hdr_body hp)"
    "hb_salt (hdr_body h) = hb_salt (hdr_body hp)" using si(11) by (simp_all add: fields)
  show "hb_own (hdr_body h) = hb_own (hdr_body hp)" "hb_opub (hdr_body h) = Some owner_pk"
    "hb_chunk (hdr_body h) = hb_chunk (hdr_body hp)" "hb_pol (hdr_body h) = pol"
    using si(4-6,8) by (simp_all add: fields)
  show "\<exists>hh. header_hash X h = Inr hh" using hb by (auto simp: header_hash_def)
qed

lemma resealed_extends_chain:
  assumes "resealed X rng input owner_pk signer pol hp hhp name h new" and "header_hash X h = Inr hh"
    and "verify_version_chain X (cs @ [(hp, hhp)]) = Inr ()"
  shows "verify_version_chain X (cs @ [(hp, hhp), (h, hh)]) = Inr ()"
  using verify_version_chain_snoc [of "cs @ [(hp, hhp)]" X h hh] assms(2,3) resealed_links [OF assms(1)]
  by simp

lemma resealed_opens:
  assumes X: "aead_exact X" "hash_lengths X" "hpke_opens X" "hpke_small X" "ed25519_signs X"
    and keys: "keys_wf X k" "length (rng_dek rng) = 32"
    and r: "resealed X rng input (x25519_pk k) signer pol hp hhp name h new" "length input < 2 ^ 64"
    and cbor: "\<And>hb. cbor_header X h = Inr hb \<Longrightarrow> uncbor_header X hb = Inr h"
  shows "\<exists>hh. header_hash X h = Inr hh \<and> open_container X new k =
           (Inr \<lparr>op_header = h, op_header_hash = hh, op_file_name = name\<rparr>, input)"
proof -
  let ?o = "reseal_options hp hhp pol name"
  from r have val: "validate_header hp = Inr ()" and u: "utf8_valid name"
    and s: "seal_signed X rng input (x25519_pk k) signer ?o = (Inr h, new)" by (simp_all add: resealed_def)
  have ro: "so_extra_recipients ?o = []" "so_file_name ?o = name"
    by (simp_all add: reseal_options_def seal_options_new_def)
  have "seal_limits ?o" using validate_header_limits [OF val]
    by (simp add: seal_limits_def reseal_options_def seal_options_new_def prev_version_of_def container_consts)
  from seal_open_roundtrip [OF X keys _ _ this _ r(2) cbor s] show ?thesis using u by (simp add: ro)
qed

subsection \<open>A sample reseal\<close>

definition sample_file2 :: bytes where
  "sample_file2 = seal_preamble [2] @ ([43] @ replicate 16 0) @
     (replicate 32 7 @ [1, 0, 0, 0, 0, 0, 0, 0] @ replicate 32 9)"

definition sample_path :: path where "sample_path = ([], ''doc.zbacs'')"
definition sample_plain :: path where "sample_plain = ([''work''], ''doc'')"

definition sample_fs :: fs where
  "sample_fs = [sample_path \<mapsto> sample_file, sample_plain \<mapsto> [43]]"

definition sample_io :: io_env where
  "sample_io = \<lparr>io_create = True, io_room = None, io_sync = True, io_rename = True\<rparr>"

abbreviation "sampleX \<equiv> sample_lib sample_uncbor"

lemma sample_valid [simp]: "validate_header sample_header = Inr ()"
  by (simp add: validate_header_def sample_header_def Let_def container_consts)

lemma sample_core_decode:
  assumes "sample_core sample_uncbor X"
  shows "header_decode_verified X [1] = Inr (sample_header, replicate 32 7)"
  by (simp add: header_decode_verified_Inr sample_uncbor_def MAX_HEADER_LEN_def header_verify_def
      signing_message_def sample_header_def sample_core_sel [OF assms])

lemma sample_core_read:
  assumes "sample_core sample_uncbor X"
  shows "read_header X sample_file = Inr (sample_header, replicate 32 7,
    ([42] @ replicate 16 0) @ (replicate 32 7 @ [1, 0, 0, 0, 0, 0, 0, 0] @ replicate 32 9))"
  unfolding sample_file_def by (rule read_header_preamble [OF sample_core_decode [OF assms] sample_valid])

lemmas sample_read = sample_core_read [OF sample_core_self]

lemma sample_inspect: "inspect sampleX sample_file = Inr (sample_header, replicate 32 7)"
  by (simp add: inspect_def sample_read)

lemma sample_reseal_header:
  "seal_header sampleX sample_rng [43] (replicate 32 6) []
     (reseal_options sample_header (replicate 32 7) default_policy [97]) = Inr sample_header2"
proof -
  let ?o = "reseal_options sample_header (replicate 32 7) default_policy [97]"
  have so: "so_file_name ?o = [97]" "so_extra_recipients ?o = []"
      "so_prev ?o = Some \<lparr>pv_header_hash = replicate 32 7, pv_version = 1, pv_file_id = replicate 32 7,
         pv_salt = replicate 16 5\<rparr>"
      "so_chunk_size ?o = 65536" "so_owner_account ?o = [1]" "so_policy ?o = default_policy"
    by (simp_all add: reseal_options_def seal_options_new_def prev_version_of_def sample_header_def)
  have v: "checked_add (1 :: u32) 1 = Some 2" by (simp add: checked_add_def)
  show ?thesis
    unfolding seal_header_def so Let_def sample_pad rbind_simps
    by (simp add: v sample_rng_def envelope_seal_def key_id_of_def sample_header2_def sample_header_def header_sign_def
        signing_message_def verifying_key_def flip: replicate_add)
qed

lemma sample_reseal_seal:
  "seal_signed sampleX sample_rng [43] (replicate 32 6) []
     (reseal_options sample_header (replicate 32 7) default_policy [97]) = (Inr sample_header2, sample_file2)"
proof -
  have c: "so_chunk_size (reseal_options sample_header (replicate 32 7) default_policy [97]) = 65536"
    by (simp add: reseal_options_def seal_options_new_def sample_header_def)
  have e: "header_encode sampleX sample_header2 = Inr [2]"
    by (simp add: header_encode_def MAX_HEADER_LEN_def)
  have n: "chunk_count (Suc 0) 65536 = 1" by (simp add: chunk_count_def div_ceil_def)
  have t: "u64_le 1 = [1, 0, 0, 0, 0, 0, 0, 0]" by code_simp
  show ?thesis
    unfolding seal_signed_def c sample_reseal_header rbind_simps e
    by (simp add: n container_consts read_exact_def seal_trailer_def sample_file2_def t Let_def)
qed

lemma sample_paths [simp]:
  "sample_plain \<noteq> sample_path" "sample_path \<noteq> sample_plain" "sample_plain \<noteq> tmp_path sample_path"
  by (simp_all add: sample_plain_def sample_path_def tmp_path_def with_extension_def)

lemma sample_fs_sel [simp]: "sample_fs sample_path = Some sample_file" "sample_fs sample_plain = Some [43]"
  by (simp_all add: sample_fs_def)

lemma sample_opub [simp]: "hb_opub (hdr_body sample_header) = Some (replicate 32 6)"
  by (simp add: sample_header_def)

lemma sample_reseal:
  "reseal_as_recipient_to_path sampleX sample_io sample_rng sample_plain sample_path (replicate 32 3) []
     default_policy sample_fs =
   (Inr sample_header2, sample_fs(sample_path \<mapsto> sample_file2, tmp_path sample_path := None))"
  by (simp add: reseal_as_recipient_to_path_def sample_inspect sample_name seal_signed_to_path_def Let_def
      sample_reseal_seal fits_def written_def sample_io_def fun_upd_twist)

section \<open>Properties\<close>

text \<open>A container has exactly one valid length: neither a file that a device key opens nor one
  that a granted key opens can be extended and still open, so no proper prefix of an accepted
  container is accepted either.\<close>

theorem containers_prefix_free:
  assumes "aead_exact X" and "hash_lengths X"
  shows "(device_keys_open X keys file = (Inr res, out) \<and> device_keys_open X keys (file @ x) = (Inr res', out')
            \<longrightarrow> x = []) \<and>
         (granted_dek_open X dek file = (Inr res, out) \<and> granted_dek_open X dek (file @ x) = (Inr res', out')
            \<longrightarrow> x = [])"
  using device.prefix_free [OF assms] granted.prefix_free [OF assms] by blast

theorem containers_prefix_free_witness:
  "\<not> is_ok (fst (granted_dek_open sampleX (replicate 32 3) (sample_file @ [0])))"
proof
  assume "is_ok (fst (granted_dek_open sampleX (replicate 32 3) (sample_file @ [0])))"
  then obtain res' out' where "granted_dek_open sampleX (replicate 32 3) (sample_file @ [0]) = (Inr res', out')"
    by (metis is_ok_iff prod.collapse)
  moreover have "granted_dek_open sampleX (replicate 32 3) sample_file =
      (Inr \<lparr>op_header = sample_header, op_header_hash = replicate 32 7, op_file_name = [97]\<rparr>, [42])"
    by (simp add: granted_dek_open_def sample_read sample_open [simplified])
  ultimately show False
    using containers_prefix_free [of sampleX sample_keys sample_file _ _ "[0]" _ _ "replicate 32 3"] by auto
qed



text \<open>C13. Resealing is atomic and touches nothing else: whatever the environment refuses, an error
  leaves the container at its path exactly as it was, success replaces it by the complete newly
  sealed file and removes the temporary file, and no path but those two changes. This holds for
  the owner's and the recipient's reseal alike.\<close>

theorem reseal_atomic:
  assumes "reseal_to_path X io rng pt_path path owner pol fs = (r, fs') \<or>
           reseal_as_recipient_to_path X io rng pt_path path prev_dek signer pol fs = (r, fs')"
  shows "(\<forall>p. p \<noteq> path \<and> p \<noteq> tmp_path path \<longrightarrow> fs' p = fs p) \<and>
    (case r of
       Inl e \<Rightarrow> fs' path = fs path
     | Inr h \<Rightarrow> fs' (tmp_path path) = None \<and>
         (\<exists>pk sk opts new. fs' path = Some new \<and>
            seal_signed X rng (the ((fs(tmp_path path \<mapsto> [])) pt_path)) pk sk opts = (Inr h, new)))"
proof -
  have "(\<exists>e. r = Inl e \<and> fs' = fs) \<or>
      (\<exists>pk sk opts. seal_signed_to_path X io rng pt_path path pk sk opts fs = (r, fs'))"
    using assms
    by (auto simp: reseal_to_path_def reseal_as_recipient_to_path_def seal_to_path_def
        split: sum.splits if_splits prod.splits)
  then show ?thesis
  proof (elim disjE exE conjE)
    fix pk sk opts
    assume s: "seal_signed_to_path X io rng pt_path path pk sk opts fs = (r, fs')"
    note cs = seal_signed_to_path_cases [OF s]
    show ?thesis
    proof (cases r)
      case (Inl e)
      then show ?thesis using cs(1) cs(2) [OF Inl] by simp
    next
      case (Inr h)
      then show ?thesis using cs(1) cs(3) [OF Inr] unfolding Inr sum.case by blast
    qed
  qed auto
qed

theorem reseal_atomic_witness:
  "(\<exists>new. (sample_fs(sample_path \<mapsto> sample_file2, tmp_path sample_path := None)) sample_path = Some new \<and>
     (\<exists>pk sk opts. seal_signed sampleX sample_rng [43] pk sk opts = (Inr sample_header2, new))) \<and>
   (sample_fs(sample_path \<mapsto> sample_file2, tmp_path sample_path := None)) sample_plain = sample_fs sample_plain"
  using reseal_atomic [OF disjI2 [OF sample_reseal]] by fastforce


text \<open>C20. A reseal, by the owner or by a recipient, extends the version chain: if the chain that
  ends in the container's current header is accepted, so is that chain with the new header
  appended.\<close>

theorem reseal_extends_chain:
  assumes "reseal_to_path X io rng pt_path path owner pol fs = (Inr h, fs') \<or>
           reseal_as_recipient_to_path X io rng pt_path path prev_dek signer pol fs = (Inr h, fs')"
    and "fs path = Some old" and "inspect X old = Inr (hp, hhp)"
    and "verify_version_chain X (cs @ [(hp, hhp)]) = Inr ()"
  shows "\<exists>hh. header_hash X h = Inr hh \<and> verify_version_chain X (cs @ [(hp, hhp), (h, hh)]) = Inr ()"
proof -
  obtain input pk sk name new where re: "resealed X rng input pk sk pol hp hhp name h new"
    using assms(1)
  proof
    assume "reseal_to_path X io rng pt_path path owner pol fs = (Inr h, fs')"
    then show ?thesis using reseal_to_path_Inr assms(2,3) that by (metis option.inject sum.inject(2) prod.inject)
  next
    assume "reseal_as_recipient_to_path X io rng pt_path path prev_dek signer pol fs = (Inr h, fs')"
    then show ?thesis using reseal_as_recipient_Inr assms(2,3) that by (metis option.inject sum.inject(2) prod.inject)
  qed
  obtain hh where hh: "header_hash X h = Inr hh" using resealed_links(10) [OF re] by blast
  show ?thesis using resealed_extends_chain [OF re hh assms(4)] hh by blast
qed

theorem reseal_extends_chain_witness:
  "verify_version_chain sampleX [(sample_header, replicate 32 7), (sample_header2, replicate 32 7)] = Inr ()"
proof -
  have "verify_version_chain sampleX ([] @ [(sample_header, replicate 32 7)]) = Inr ()"
    by (simp add: verify_version_chain_def sample_header_def)
  moreover have "header_hash sampleX sample_header2 = Inr (replicate 32 7)"
    by (simp add: header_hash_def header_encode_def MAX_HEADER_LEN_def)
  ultimately show ?thesis
    using reseal_extends_chain [OF disjI2 [OF sample_reseal] sample_fs_sel(1) sample_inspect, of "[]"] by auto
qed

text \<open>C14. What a recipient reseals, the owner can open: the holder of the key pair whose public half
  the old header carries opens the new container, gets the recipient's plaintext byte for byte and
  the old file name, without sharing any key with the recipient.\<close>

theorem recipient_reseal_opens_for_owner:
  assumes "aead_exact X" and "hash_lengths X" and "hpke_opens X" and "hpke_small X" and "ed25519_signs X"
    and "keys_wf X k" and "length (rng_dek rng) = 32"
    and "reseal_as_recipient_to_path X io rng pt_path path prev_dek signer pol fs = (Inr h, fs')"
    and "fs path = Some old" and "inspect X old = Inr (hp, hhp)"
    and "hb_opub (hdr_body hp) = Some (x25519_pk k)" and "decrypt_name X hp prev_dek = Inr name"
    and "fs pt_path = Some input" and "pt_path \<noteq> tmp_path path" and "length input < 2 ^ 64"
    and "\<And>hb. cbor_header X h = Inr hb \<Longrightarrow> uncbor_header X hb = Inr h"
  shows "\<exists>new hh. fs' path = Some new \<and> header_hash X h = Inr hh \<and>
    open_container X new k = (Inr \<lparr>op_header = h, op_header_hash = hh, op_file_name = name\<rparr>, input)"
proof -
  from reseal_as_recipient_Inr [OF assms(8)] obtain cf hp2 hhp2 opub name2 new where
    "fs path = Some cf" "inspect X cf = Inr (hp2, hhp2)" "hb_opub (hdr_body hp2) = Some opub"
    "decrypt_name X hp2 prev_dek = Inr name2" and new: "fs' path = Some new" and
    re2: "resealed X rng (the ((fs(tmp_path path \<mapsto> [])) pt_path)) opub signer pol hp2 hhp2 name2 h new"
    by metis
  then have "hp2 = hp" "hhp2 = hhp" "opub = x25519_pk k" "name2 = name" using assms(9-12) by simp_all
  then have re: "resealed X rng input (x25519_pk k) signer pol hp hhp name h new"
    using re2 assms(13,14) by simp
  show ?thesis using resealed_opens [OF assms(1-7) re assms(15,16)] new by blast
qed

theorem recipient_reseal_opens_for_owner_witness:
  "\<exists>hh. open_container sampleX sample_file2 sample_keys =
     (Inr \<lparr>op_header = sample_header2, op_header_hash = hh, op_file_name = [97]\<rparr>, [43])"
proof -
  have "hb_opub (hdr_body sample_header) = Some (x25519_pk sample_keys)" "length (rng_dek sample_rng) = 32"
    by (simp_all add: sample_keys_def sample_rng_def)
  then show ?thesis
    using recipient_reseal_opens_for_owner [OF _ _ _ _ _ _ _ sample_reseal sample_fs_sel(1) sample_inspect _
        sample_name sample_fs_sel(2), of sample_keys]
    by (auto simp: sample_uncbor_def)
qed

end
