(* ===== verification/Workspace.thy ===== *)
theory Workspace
  imports Container_Files
begin

text \<open>
  The protected workspace and the save watcher (\<open>workspace.rs\<close> and \<open>viewer.rs\<close> of
  \<open>crates/zbacs-session\<close>).

  A disk is a file system with the set of read-only files, the directories and their modes, and,
  for files that were deleted, what the medium still holds in their blocks. The set \<open>locked\<close>
  stands for files the operating system refuses to open or remove (a viewer that has not quit).
  Instants are natural numbers of milliseconds.
\<close>

datatype session_error = SeIo | BadSessionId | BadFileName | WorkspaceError string

record disk =
  dk_files :: fs
  dk_readonly :: "path set"
  dk_dirs :: "string list set"
  dk_private :: "string list set"
  dk_residue :: "path \<rightharpoonup> bytes"

record workspace =
  ws_root :: "string list"

subsection \<open>Paths as strings\<close>

text \<open>The last component of a path string, as \<open>Path::file_name\<close> finds it.\<close>

fun components :: "string \<Rightarrow> string \<Rightarrow> string list" where
  "components cur [] = [rev cur]"
| "components cur (c # cs) = (if c = CHR ''/'' then rev cur # components [] cs else components (c # cur) cs)"

definition path_file_name :: "string \<Rightarrow> string option" where
  "path_file_name p =
     (let parts = filter (\<lambda>c. c \<noteq> [] \<and> c \<noteq> ''.'') (components [] p) in
      if parts = [] \<or> last parts = ''..'' then None else Some (last parts))"

subsection \<open>workspace.rs\<close>

definition workspace_create ::
  "string list \<Rightarrow> string \<Rightarrow> disk \<Rightarrow> (session_error + workspace) \<times> disk" where
  "workspace_create base session_id d =
     (if session_id = [] \<or> CHR ''/'' \<in> set session_id \<or> CHR 0x5C \<in> set session_id \<or> CHR ''.'' \<in> set session_id
      then (Inl BadSessionId, d)
      else let root = base @ [session_id] in
           (Inr \<lparr>ws_root = root\<rparr>,
            d\<lparr>dk_dirs := dk_dirs d \<union> {p. \<exists>k. p = take k root}, dk_private := insert root (dk_private d)\<rparr>))"

definition workspace_file :: "workspace \<Rightarrow> string \<Rightarrow> session_error + path" where
  "workspace_file ws name =
     (if name = [] \<or> CHR ''/'' \<in> set name \<or> CHR 0x5C \<in> set name \<or> take 2 name = ''..''
      then Inl BadFileName
      else Inr (ws_root ws, name))"

definition mark_read_only :: "workspace \<Rightarrow> string \<Rightarrow> disk \<Rightarrow> (session_error + unit) \<times> disk" where
  "mark_read_only ws name d =
     (case workspace_file ws name of
        Inl e \<Rightarrow> (Inl e, d)
      | Inr p \<Rightarrow> if dk_files d p = None then (Inl SeIo, d)
                 else (Inr (), d\<lparr>dk_readonly := insert p (dk_readonly d)\<rparr>))"

definition clear_read_only :: "workspace \<Rightarrow> string \<Rightarrow> disk \<Rightarrow> (session_error + unit) \<times> disk" where
  "clear_read_only ws name d =
     (case workspace_file ws name of
        Inl e \<Rightarrow> (Inl e, d)
      | Inr p \<Rightarrow> if dk_files d p = None then (Inl SeIo, d)
                 else (Inr (), d\<lparr>dk_readonly := dk_readonly d - {p}\<rparr>))"

text \<open>The overwrite loop of \<open>secure_delete\<close>: zeros in blocks of 64 KiB until nothing is left.\<close>

function zero_fill :: "nat \<Rightarrow> bytes" where
  "zero_fill left =
     (if left > 0 then let n = min left (64 * 1024) in replicate n 0 @ zero_fill (left - n) else [])"
  by auto
termination by (relation "measure id") auto

declare zero_fill.simps [simp del]

definition secure_delete :: "path set \<Rightarrow> path \<Rightarrow> disk \<Rightarrow> (session_error + unit) \<times> disk" where
  "secure_delete locked p d =
     (case dk_files d p of
        None \<Rightarrow> (Inl SeIo, d)
      | Some content \<Rightarrow>
          let d1 = d\<lparr>dk_readonly := dk_readonly d - {p}\<rparr> in
          if p \<in> locked then (Inl SeIo, d1)
          else
            let zeros = zero_fill (length content) in
            (Inr (), d1\<lparr>dk_files := (dk_files d1)(p := None), dk_residue := (dk_residue d1)(p \<mapsto> zeros)\<rparr>))"

text \<open>
  \<open>Workspace::wipe\<close> on the directory's entries, in the order the system lists them, then the
  removal of the whole tree. A file below a subdirectory is not overwritten, only removed; its
  blocks keep what it held.
\<close>

fun wipe_entries :: "path set \<Rightarrow> path list \<Rightarrow> disk \<Rightarrow> session_error option \<Rightarrow> session_error option \<times> disk" where
  "wipe_entries locked [] d first_error = (first_error, d)"
| "wipe_entries locked (p # ps) d first_error =
     (case secure_delete locked p d of
        (Inl e, d') \<Rightarrow> wipe_entries locked ps d' (case first_error of None \<Rightarrow> Some e | Some x \<Rightarrow> Some x)
      | (Inr _, d') \<Rightarrow> wipe_entries locked ps d' first_error)"

definition below :: "string list \<Rightarrow> path \<Rightarrow> bool" where
  "below root p \<longleftrightarrow> take (length root) (fst p) = root"

definition unlink_all :: "path set \<Rightarrow> disk \<Rightarrow> disk" where
  "unlink_all R d =
     d\<lparr>dk_files := (\<lambda>p. if p \<in> R then None else dk_files d p),
       dk_residue := (\<lambda>p. if p \<in> R \<and> dk_files d p \<noteq> None then dk_files d p else dk_residue d p)\<rparr>"

text \<open>
  \<open>rm\<close> is the outcome of \<open>fs::remove_dir_all\<close>: \<open>None\<close> when everything below the root is
  gone, \<open>Some R\<close> when it failed after unlinking \<open>R\<close>.
\<close>

definition wipe ::
  "path set \<Rightarrow> path set option \<Rightarrow> path list \<Rightarrow> workspace \<Rightarrow> disk \<Rightarrow> (session_error + unit) \<times> disk" where
  "wipe locked rm entries ws d =
     (let (first_error, d1) = wipe_entries locked entries d None in
      case rm of
        None \<Rightarrow> (case first_error of Some e \<Rightarrow> Inl e | None \<Rightarrow> Inr (), unlink_all {p. below (ws_root ws) p} d1)
      | Some R \<Rightarrow> (Inl (case first_error of Some e \<Rightarrow> e | None \<Rightarrow> SeIo),
                   unlink_all (R \<inter> {p. below (ws_root ws) p}) d1))"

subsection \<open>viewer.rs: the debouncer and the watcher's loop\<close>

datatype save_event = SvSaved | SvVanished

record debounce =
  db_window :: nat
  db_pending :: "nat option"

definition debounce_new :: "nat \<Rightarrow> debounce" where
  "debounce_new window = \<lparr>db_window = window, db_pending = None\<rparr>"

definition saw_event :: "debounce \<Rightarrow> nat \<Rightarrow> debounce" where
  "saw_event b now = b\<lparr>db_pending := Some now\<rparr>"

text \<open>\<open>Instant::duration_since\<close> is zero when the other instant is later, as truncated subtraction.\<close>

definition is_due :: "debounce \<Rightarrow> nat \<Rightarrow> bool \<times> debounce" where
  "is_due b now =
     (case db_pending b of
        Some since \<Rightarrow> if db_window b \<le> now - since then (True, b\<lparr>db_pending := None\<rparr>) else (False, b)
      | None \<Rightarrow> (False, b))"

definition is_pending :: "debounce \<Rightarrow> bool" where
  "is_pending b = (db_pending b \<noteq> None)"

record fs_event =
  fe_access :: bool
  fe_paths :: "path list"

definition touches :: "fs_event \<Rightarrow> path \<Rightarrow> bool" where
  "touches ev target \<longleftrightarrow> \<not> fe_access ev \<and> target \<in> set (fe_paths ev)"

datatype raw_input = RawEvent fs_event | RawError | RawTimeout | RawDisconnected

text \<open>One turn of the loop: what was received, whether the target exists, and the clock.\<close>

record watch_turn =
  wt_stop :: bool
  wt_raw :: raw_input
  wt_now :: nat
  wt_exists :: bool

fun watch_loop :: "path \<Rightarrow> debounce \<Rightarrow> watch_turn list \<Rightarrow> save_event list" where
  "watch_loop target b [] = []"
| "watch_loop target b (t # ts) =
     (if wt_stop t then []
      else case wt_raw t of
        RawDisconnected \<Rightarrow> []
      | raw \<Rightarrow>
          let b1 = (case raw of RawEvent ev \<Rightarrow> if touches ev target then saw_event b (wt_now t) else b | _ \<Rightarrow> b);
              (due, b2) = is_due b1 (wt_now t)
          in (if due then [if wt_exists t then SvSaved else SvVanished] else []) @ watch_loop target b2 ts)"

subsection \<open>Lemmas\<close>

lemma zero_fill_eq: "zero_fill n = replicate n 0"
proof (induction n rule: zero_fill.induct)
  case (1 n)
  show ?case
  proof (cases "n > 0")
    case True
    then show ?thesis using 1 by (subst zero_fill.simps) (simp add: Let_def flip: replicate_add)
  next
    case False
    then show ?thesis by (subst zero_fill.simps) simp
  qed
qed

lemma secure_delete_ok:
  assumes "secure_delete locked p d = (Inr (), d')"
  shows "dk_files d' p = None \<and> (\<forall>q. q \<noteq> p \<longrightarrow> dk_files d' q = dk_files d q \<and> dk_residue d' q = dk_residue d q) \<and>
    (\<exists>n. dk_residue d' p = Some (replicate n 0))"
  using assms by (auto simp: secure_delete_def zero_fill_eq Let_def split: option.splits if_splits)

lemma secure_delete_err:
  assumes "secure_delete locked p d = (Inl e, d')"
  shows "dk_files d' = dk_files d \<and> dk_residue d' = dk_residue d \<and> (dk_files d p = None \<or> p \<in> locked)"
  using assms by (auto simp: secure_delete_def Let_def split: option.splits if_splits)

lemma secure_delete_effect:
  "dk_files (snd (secure_delete locked p d)) q = (if q = p \<and> p \<notin> locked then None else dk_files d q)"
  "dk_residue (snd (secure_delete locked p d)) q =
     (if q = p \<and> p \<notin> locked \<and> dk_files d p \<noteq> None
      then Some (replicate (length (the (dk_files d p))) 0) else dk_residue d q)"
  "fst (secure_delete locked p d) = Inr () \<longleftrightarrow> p \<notin> locked \<and> dk_files d p \<noteq> None"
  by (auto simp: secure_delete_def zero_fill_eq Let_def split: option.splits)

lemma wipe_entries_Cons:
  "snd (wipe_entries locked (p # ps) d er) =
     snd (wipe_entries locked ps (snd (secure_delete locked p d)) None)"
proof -
  have er: "snd (wipe_entries locked ps d er) = snd (wipe_entries locked ps d er2)" for ps d er er2
    by (induction ps arbitrary: d er er2) (auto split: prod.split sum.split)
  show "snd (wipe_entries locked (p # ps) d er) =
     snd (wipe_entries locked ps (snd (secure_delete locked p d)) None)"
    by (auto split: prod.split sum.split intro: er)
qed

lemma wipe_entries_files:
  "dk_files (snd (wipe_entries locked ps d er)) q = (if q \<in> set ps \<and> q \<notin> locked then None else dk_files d q)"
  by (induction ps arbitrary: d er) (auto simp: wipe_entries_Cons secure_delete_effect simp del: wipe_entries.simps(2))

lemma wipe_entries_residue:
  "dk_residue (snd (wipe_entries locked ps d er)) q =
     (if q \<in> set ps \<and> q \<notin> locked \<and> dk_files d q \<noteq> None
      then Some (replicate (length (the (dk_files d q))) 0) else dk_residue d q)"
  by (induction ps arbitrary: d er) (auto simp: wipe_entries_Cons secure_delete_effect simp del: wipe_entries.simps(2))

lemma below_self [simp]: "below root (root, name)"
  by (simp add: below_def)

lemma wipe_cleared:
  assumes "wipe locked rm entries ws d = (r, d')"
    and "set entries = {p. fst p = ws_root ws \<and> dk_files d p \<noteq> None}"
  shows "(\<forall>p. fst p = ws_root ws \<and> p \<notin> locked \<longrightarrow> dk_files d' p = None) \<and>
    (\<forall>p content. fst p = ws_root ws \<and> p \<notin> locked \<and> dk_files d p = Some content \<longrightarrow>
       dk_residue d' p = Some (replicate (length content) 0)) \<and>
    (r = Inr () \<longrightarrow> (\<forall>p. below (ws_root ws) p \<longrightarrow> dk_files d' p = None)) \<and>
    (\<forall>p. \<not> below (ws_root ws) p \<longrightarrow> dk_files d' p = dk_files d p)"
proof -
  obtain er d1 where w: "wipe_entries locked entries d None = (er, d1)" by fastforce
  obtain R where R: "d' = unlink_all (R \<inter> {p. below (ws_root ws) p}) d1" and ok: "r = Inr () \<Longrightarrow> R = UNIV"
  proof (cases rm)
    case None
    then show ?thesis using assms(1) that [of UNIV] by (auto simp: wipe_def w)
  next
    case (Some R)
    then show ?thesis using assms(1) that [of R] by (auto simp: wipe_def w)
  qed
  have we: "dk_files d1 q = (if q \<in> set entries \<and> q \<notin> locked then None else dk_files d q)"
    "dk_residue d1 q = (if q \<in> set entries \<and> q \<notin> locked \<and> dk_files d q \<noteq> None
      then Some (replicate (length (the (dk_files d q))) 0) else dk_residue d q)" for q
    using wipe_entries_files [of locked entries d None q] wipe_entries_residue [of locked entries d None q]
    by (simp_all add: w)
  have in_root: "below (ws_root ws) p" if "fst p = ws_root ws" for p :: path using that by (simp add: below_def)
  have gone: "dk_files d1 p = None" if "fst p = ws_root ws" "p \<notin> locked" for p
    using that assms(2) by (auto simp: we)
  have out: "dk_files d1 p = dk_files d p" if "\<not> below (ws_root ws) p" for p
    using assms(2) in_root [of p] that by (auto simp: we)
  have zero: "dk_residue d1 p = Some (replicate (length content) 0)"
    if "fst p = ws_root ws" "p \<notin> locked" "dk_files d p = Some content" for p content
    using that assms(2) by (auto simp: we)
  show ?thesis using gone zero out ok by (auto simp: R unlink_all_def)
qed

text \<open>Turns that concern the target, and turns that only let time pass.\<close>

definition touching :: "path \<Rightarrow> watch_turn \<Rightarrow> bool" where
  "touching target t \<longleftrightarrow> (case wt_raw t of RawEvent ev \<Rightarrow> touches ev target | _ \<Rightarrow> False)"

definition quiet :: "path \<Rightarrow> watch_turn \<Rightarrow> bool" where
  "quiet target t \<longleftrightarrow> \<not> wt_stop t \<and> wt_raw t \<noteq> RawDisconnected \<and> \<not> touching target t"

lemma watch_loop_bound:
  "length (watch_loop target b ts) \<le> length (filter (touching target) ts) + (if is_pending b then 1 else 0)"
proof (induction ts arbitrary: b)
  case Nil
  then show ?case by simp
next
  case (Cons t ts)
  show ?case
  proof (cases "wt_stop t \<or> wt_raw t = RawDisconnected")
    case True
    then show ?thesis by auto
  next
    case False
    define b1 where "b1 = (if touching target t then saw_event b (wt_now t) else b)"
    have b1: "(case wt_raw t of RawEvent ev \<Rightarrow> if touches ev target then saw_event b (wt_now t) else b | _ \<Rightarrow> b) = b1"
      by (simp add: b1_def touching_def split: raw_input.splits)
    obtain due b2 where d: "is_due b1 (wt_now t) = (due, b2)" by fastforce
    have w: "watch_loop target b (t # ts) =
        (if due then [if wt_exists t then SvSaved else SvVanished] else []) @ watch_loop target b2 ts"
      using False d b1 by (cases "wt_raw t") (simp_all add: Let_def)
    have "(if due then 1 else 0) + (if is_pending b2 then 1 else 0) \<le> (if is_pending b1 then 1 else (0::nat))"
      using d by (auto simp: is_due_def is_pending_def split: option.splits if_splits)
    moreover have "(if is_pending b1 then 1 else 0) \<le> (if is_pending b then 1 else 0) + (if touching target t then 1 else (0::nat))"
      by (simp add: b1_def saw_event_def is_pending_def)
    ultimately show ?thesis using Cons.IH [of b2] unfolding w by (auto split: if_splits)
  qed
qed

lemma watch_loop_idle:
  assumes "\<forall>t \<in> set ts. quiet target t" and "db_pending b = None"
  shows "watch_loop target b ts = []"
  using assms
proof (induction ts)
  case Nil
  then show ?case by simp
next
  case (Cons t ts)
  then show ?case
    by (cases "wt_raw t") (auto simp: quiet_def touching_def is_due_def Let_def)
qed

lemma watch_loop_quiet:
  assumes "\<forall>t \<in> set (ts @ [u] @ us). quiet target t" and "db_pending b = Some n"
    and "\<forall>t \<in> set ts. wt_now t < n + db_window b" and "n + db_window b \<le> wt_now u" and "0 < db_window b"
  shows "watch_loop target b (ts @ [u] @ us) = [if wt_exists u then SvSaved else SvVanished]"
  using assms
proof (induction ts)
  case Nil
  have "watch_loop target (b\<lparr>db_pending := None\<rparr>) us = []" using Nil by (intro watch_loop_idle) auto
  then show ?case using Nil
    by (cases "wt_raw u") (auto simp: quiet_def touching_def is_due_def Let_def)
next
  case (Cons t ts)
  then have "\<not> db_window b \<le> wt_now t - n" by auto
  then have "is_due b (wt_now t) = (False, b)" "quiet target t" using Cons by (auto simp: is_due_def)
  then show ?case using Cons
    by (cases "wt_raw t") (auto simp: quiet_def touching_def Let_def)
qed

section \<open>Properties\<close>

text \<open>Names cannot leave the workspace: an accepted session id is one path component below the
  base, an accepted file name is a file directly in the workspace directory, and in both cases the
  component holds no separator and is no parent reference.\<close>

theorem workspace_confined:
  "(workspace_create base sid d = (Inr ws, d') \<longrightarrow>
      ws_root ws = base @ [sid] \<and> sid \<noteq> [] \<and> CHR ''/'' \<notin> set sid \<and> CHR 0x5C \<notin> set sid \<and>
      CHR ''.'' \<notin> set sid \<and> ws_root ws \<in> dk_private d') \<and>
   (workspace_file ws name = Inr p \<longrightarrow>
      p = (ws_root ws, name) \<and> name \<noteq> [] \<and> name \<noteq> ''..'' \<and>
      CHR ''/'' \<notin> set name \<and> CHR 0x5C \<notin> set name)"
proof (intro conjI impI)
  assume "workspace_create base sid d = (Inr ws, d')"
  then show "ws_root ws = base @ [sid]" "sid \<noteq> []" "CHR ''/'' \<notin> set sid" "CHR 0x5C \<notin> set sid"
    "CHR ''.'' \<notin> set sid" "ws_root ws \<in> dk_private d'"
    by (auto simp: workspace_create_def Let_def split: if_splits)
next
  assume "workspace_file ws name = Inr p"
  then show "p = (ws_root ws, name)" "name \<noteq> []" "name \<noteq> ''..''" "CHR ''/'' \<notin> set name" "CHR 0x5C \<notin> set name"
    by (auto simp: workspace_file_def split: if_splits)
qed

definition sample_disk :: disk where
  "sample_disk = \<lparr>dk_files = [([''s''], ''a'') \<mapsto> [1, 2], ([''s'', ''sub''], ''b'') \<mapsto> [3]], dk_readonly = {},
     dk_dirs = {[''s'']}, dk_private = {[''s'']}, dk_residue = Map.empty\<rparr>"

theorem workspace_confined_witness:
  "workspace_file \<lparr>ws_root = [''s'']\<rparr> ''a'' = Inr ([''s''], ''a'') \<and> CHR ''/'' \<notin> set ''a''"
  using workspace_confined [of "[]" "''s''" sample_disk "\<lparr>ws_root = [''s'']\<rparr>" sample_disk "''a''" "([''s''], ''a'')"]
  by (simp add: workspace_file_def)

lemma sample_entries: "set [([''s''], ''a'')] = {p. fst p = ws_root \<lparr>ws_root = [''s'']\<rparr> \<and> dk_files sample_disk p \<noteq> None}"
  by (auto simp: sample_disk_def)

text \<open>Wiping a workspace: when the directory's files are the ones listed, every file in it that
  is not locked is gone and its blocks hold zeros, whatever else fails; success means that nothing
  at all is left below the workspace; and no file outside it changes.\<close>

theorem wipe_clears:
  assumes "wipe locked rm entries ws d = (r, d')"
    and "set entries = {p. fst p = ws_root ws \<and> dk_files d p \<noteq> None}"
  shows "(\<forall>p. fst p = ws_root ws \<and> p \<notin> locked \<longrightarrow> dk_files d' p = None) \<and>
    (\<forall>p content. fst p = ws_root ws \<and> p \<notin> locked \<and> dk_files d p = Some content \<longrightarrow>
       dk_residue d' p = Some (replicate (length content) 0)) \<and>
    (r = Inr () \<longrightarrow> (\<forall>p. below (ws_root ws) p \<longrightarrow> dk_files d' p = None)) \<and>
    (\<forall>p. \<not> below (ws_root ws) p \<longrightarrow> dk_files d' p = dk_files d p)"
  using assms by (rule wipe_cleared)

theorem wipe_clears_witness:
  "dk_residue (snd (wipe {} None [([''s''], ''a'')] \<lparr>ws_root = [''s'']\<rparr> sample_disk)) ([''s''], ''a'') = Some [0, 0]"
proof -
  obtain r d' where w: "wipe {} None [([''s''], ''a'')] \<lparr>ws_root = [''s'']\<rparr> sample_disk = (r, d')" by fastforce
  have "dk_files sample_disk ([''s''], ''a'') = Some [1, 2]" by (simp add: sample_disk_def)
  with wipe_clears [OF w sample_entries]
  have "dk_residue d' ([''s''], ''a'') = Some (replicate (length [1 :: byte, 2]) 0)" by simp
  then show ?thesis by (simp add: w)
qed

text \<open>Only the files directly in the workspace are overwritten: a file that an application put into a
  subdirectory is unlinked by the final removal with its blocks still holding its content.\<close>

theorem wipe_leaves_nested_content:
  assumes "dk_files d (ws_root ws @ [dir], name) = Some content"
    and "set entries = {p. fst p = ws_root ws \<and> dk_files d p \<noteq> None}"
    and "wipe locked None entries ws d = (r, d')"
  shows "dk_files d' (ws_root ws @ [dir], name) = None \<and>
         dk_residue d' (ws_root ws @ [dir], name) = Some content"
proof -
  let ?p = "(ws_root ws @ [dir], name)"
  obtain er d1 where w: "wipe_entries locked entries d None = (er, d1)" by fastforce
  have "?p \<notin> set entries" using assms(2) by auto
  then have "dk_files d1 ?p = Some content" using wipe_entries_files [of locked entries d None ?p] assms(1) by (simp add: w)
  moreover have "d' = unlink_all {p. below (ws_root ws) p} d1" using assms(3) by (simp add: wipe_def w)
  ultimately show ?thesis by (simp add: unlink_all_def below_def)
qed

theorem wipe_leaves_nested_content_witness:
  "dk_residue (snd (wipe {} None [([''s''], ''a'')] \<lparr>ws_root = [''s'']\<rparr> sample_disk)) ([''s'', ''sub''], ''b'') = Some [3]"
proof -
  obtain r d' where w: "wipe {} None [([''s''], ''a'')] \<lparr>ws_root = [''s'']\<rparr> sample_disk = (r, d')" by fastforce
  have "dk_files sample_disk (ws_root \<lparr>ws_root = [''s'']\<rparr> @ [''sub''], ''b'') = Some [3]" by (simp add: sample_disk_def)
  from wipe_leaves_nested_content [OF this sample_entries w] show ?thesis by (simp add: w)
qed

text \<open>The save watcher turns a burst into one event: it never reports more events than there were
  file-system events touching the target, and once the target was touched and then only other files,
  errors and timeouts come in, it reports exactly one event, at the first turn after the quiet
  window, which says \<open>Saved\<close> precisely when the file exists then.\<close>

theorem watcher_debounces:
  "length (watch_loop target (debounce_new w) ts) \<le> length (filter (touching target) ts) \<and>
   (0 < w \<and> (\<forall>t \<in> set (before @ [u] @ after). quiet target t) \<and> (\<forall>t \<in> set before. wt_now t < n + w) \<and> n + w \<le> wt_now u \<longrightarrow>
      watch_loop target (saw_event (debounce_new w) n) (before @ [u] @ after) =
        [if wt_exists u then SvSaved else SvVanished])"
proof (intro conjI impI)
  show "length (watch_loop target (debounce_new w) ts) \<le> length (filter (touching target) ts)"
    using watch_loop_bound [of target "debounce_new w" ts] by (simp add: debounce_new_def is_pending_def)
  assume "0 < w \<and> (\<forall>t \<in> set (before @ [u] @ after). quiet target t) \<and> (\<forall>t \<in> set before. wt_now t < n + w) \<and> n + w \<le> wt_now u"
  then show "watch_loop target (saw_event (debounce_new w) n) (before @ [u] @ after) =
        [if wt_exists u then SvSaved else SvVanished]"
    by (intro watch_loop_quiet [where n = n]) (auto simp: saw_event_def debounce_new_def)
qed

theorem watcher_debounces_witness:
  "watch_loop ([], ''f'') (saw_event (debounce_new 400) 1000)
     [\<lparr>wt_stop = False, wt_raw = RawTimeout, wt_now = 1050, wt_exists = False\<rparr>,
      \<lparr>wt_stop = False, wt_raw = RawTimeout, wt_now = 1400, wt_exists = True\<rparr>] = [SvSaved]"
  using watcher_debounces [of "([], ''f'')" 400 "[]" "[\<lparr>wt_stop = False, wt_raw = RawTimeout, wt_now = 1050, wt_exists = False\<rparr>]"
      "\<lparr>wt_stop = False, wt_raw = RawTimeout, wt_now = 1400, wt_exists = True\<rparr>" "[]" 1000]
  by (simp add: quiet_def touching_def)

end
