(* ===== verification/Proto.thy ===== *)
theory Proto
  imports Header Sample_Lib
begin

text \<open>
  The relay wire protocol (\<open>crates/zbacs-proto\<close>): message structs and kinds, error codes,
  device identities, the signed envelope with its two verification routines, and the grant terms
  with their EIP-712 hash.

  The \<open>Message\<close> trait is the record \<open>message\<close>: the kind and the CBOR functions of one
  payload type. Keccak-256, the CBOR functions and the \<open>hex\<close> crate are third-party and extend
  the library record.
\<close>

definition RELAY_SIG_DOMAIN :: bytes where "RELAY_SIG_DOMAIN = ascii ''ZBACS-RLY-v1''"
definition MAX_BODY_LEN :: nat where "MAX_BODY_LEN = 64 * 1024"
definition MAX_SKEW_SECS :: u64 where "MAX_SKEW_SECS = 120"
definition NONCE_MEMORY_SECS :: u64 where "NONCE_MEMORY_SECS = 300"

subsection \<open>messages.rs\<close>

datatype kind = KAnnounce | KReq | KGrant | KRevoke | KSub | KAck | KVersion

fun kind_str :: "kind \<Rightarrow> string" where
  "kind_str KAnnounce = ''announce''"
| "kind_str KReq = ''req''"
| "kind_str KGrant = ''grant''"
| "kind_str KRevoke = ''revoke''"
| "kind_str KSub = ''sub''"
| "kind_str KAck = ''ack''"
| "kind_str KVersion = ''version''"

record device_announce =
  da_x25519_pub :: bytes
  da_ed25519_pub :: bytes
  da_label :: "bytes option"
  da_ts :: u64

record access_request =
  ar_fid :: bytes
  ar_header_hash :: bytes
  ar_owner :: bytes
  ar_device_kid :: bytes
  ar_x25519_pub :: bytes
  ar_ed25519_pub :: bytes
  ar_requested :: u8
  ar_nonce :: bytes
  ar_hint :: "bytes option"
  ar_ts :: u64

record grant_msg =
  gm_request_nonce :: bytes
  gm_grant :: "bytes option"
  gm_owner_sig :: "bytes option"
  gm_envelope :: "bytes option"
  gm_tx_hash :: "bytes option"
  gm_decision :: u8
  gm_ts :: u64

record revoke =
  rv_grant_id :: bytes
  rv_fid :: bytes
  rv_ts :: u64

record version_msg =
  vm_fid :: bytes
  vm_owner :: bytes
  vm_prev_header_hash :: bytes
  vm_header_hash :: bytes
  vm_ver :: u32
  vm_grant_id :: bytes
  vm_owner_envelope :: bytes
  vm_ed25519_pub :: bytes
  vm_ts :: u64

record subscribe =
  sb_since :: "bytes option"
  sb_kinds :: "kind list"
  sb_ts :: u64

datatype error_code =
    Unauthenticated | UnknownDevice | StaleCode | Replayed | MalformedCode | TooLargeCode | RateLimited
  | NotFound | Internal

fun http_status :: "error_code \<Rightarrow> nat" where
  "http_status Unauthenticated = 401"
| "http_status UnknownDevice = 401"
| "http_status StaleCode = 400"
| "http_status MalformedCode = 400"
| "http_status Replayed = 409"
| "http_status TooLargeCode = 413"
| "http_status RateLimited = 429"
| "http_status NotFound = 404"
| "http_status Internal = 500"

record ack =
  ak_ok :: bool
  ak_id :: "bytes option"
  ak_error :: "error_code option"

record relay_envelope =
  re_id :: bytes
  re_kind :: kind
  re_body :: bytes
  re_queued_at :: u64

subsection \<open>error.rs\<close>

datatype proto_error =
    BadSignature
  | Stale u64 u64
  | Malformed string
  | TooLarge nat
  | EncodeError string
  | ProtoKeyLength

fun proto_code :: "proto_error \<Rightarrow> error_code" where
  "proto_code BadSignature = Unauthenticated"
| "proto_code (Stale _ _) = StaleCode"
| "proto_code (Malformed _) = MalformedCode"
| "proto_code (EncodeError _) = MalformedCode"
| "proto_code ProtoKeyLength = MalformedCode"
| "proto_code (TooLarge _) = TooLargeCode"

subsection \<open>signed.rs and grant.rs: the structs\<close>

record signed =
  sg_payload :: bytes
  sg_kid :: bytes
  sg_kind :: kind
  sg_ts :: u64
  sg_nonce :: bytes
  sg_sig :: bytes

record access_grant_terms =
  gt_file_id :: bytes
  gt_header_hash :: bytes
  gt_device_key_hash :: bytes
  gt_permission :: u8
  gt_not_before :: u64
  gt_expiry :: u64
  gt_max_opens :: u16
  gt_request_nonce :: bytes
  gt_grant_nonce :: u64

text \<open>What the crate calls from elsewhere: Keccak-256 and one CBOR codec per struct.\<close>

record 't message =
  msg_kind :: kind
  msg_enc :: "'t \<Rightarrow> string + bytes"
  msg_dec :: "bytes \<Rightarrow> 't option"

record proto_lib = core_lib +
  keccak256 :: "bytes \<Rightarrow> bytes"
  codec_announce :: "(device_announce \<Rightarrow> string + bytes) \<times> (bytes \<Rightarrow> device_announce option)"
  codec_request :: "(access_request \<Rightarrow> string + bytes) \<times> (bytes \<Rightarrow> access_request option)"
  codec_grant_msg :: "(grant_msg \<Rightarrow> string + bytes) \<times> (bytes \<Rightarrow> grant_msg option)"
  codec_revoke :: "(revoke \<Rightarrow> string + bytes) \<times> (bytes \<Rightarrow> revoke option)"
  codec_version :: "(version_msg \<Rightarrow> string + bytes) \<times> (bytes \<Rightarrow> version_msg option)"
  codec_signed :: "(signed \<Rightarrow> string + bytes) \<times> (bytes \<Rightarrow> signed option)"
  codec_terms :: "(access_grant_terms \<Rightarrow> string + bytes) \<times> (bytes \<Rightarrow> access_grant_terms option)"
  codec_envelope :: "(envelope \<Rightarrow> string + bytes) \<times> (bytes \<Rightarrow> envelope option)"

definition DeviceAnnounce :: "'x proto_lib_scheme \<Rightarrow> device_announce message" where
  "DeviceAnnounce X = \<lparr>msg_kind = KAnnounce, msg_enc = fst (codec_announce X), msg_dec = snd (codec_announce X)\<rparr>"

definition AccessRequest :: "'x proto_lib_scheme \<Rightarrow> access_request message" where
  "AccessRequest X = \<lparr>msg_kind = KReq, msg_enc = fst (codec_request X), msg_dec = snd (codec_request X)\<rparr>"

definition GrantMsg :: "'x proto_lib_scheme \<Rightarrow> grant_msg message" where
  "GrantMsg X = \<lparr>msg_kind = KGrant, msg_enc = fst (codec_grant_msg X), msg_dec = snd (codec_grant_msg X)\<rparr>"

definition RevokeMsg :: "'x proto_lib_scheme \<Rightarrow> revoke message" where
  "RevokeMsg X = \<lparr>msg_kind = KRevoke, msg_enc = fst (codec_revoke X), msg_dec = snd (codec_revoke X)\<rparr>"

definition VersionMsg :: "'x proto_lib_scheme \<Rightarrow> version_msg message" where
  "VersionMsg X = \<lparr>msg_kind = KVersion, msg_enc = fst (codec_version X), msg_dec = snd (codec_version X)\<rparr>"

subsection \<open>identity.rs\<close>

record device_identity =
  id_keys :: device_keys
  id_signing :: bytes

definition identity_from_secrets ::
  "'x crypto_scheme \<Rightarrow> bytes \<Rightarrow> bytes \<Rightarrow> proto_error + device_identity" where
  "identity_from_secrets X x25519 ed25519 =
     rbind (map_err (\<lambda>_. ProtoKeyLength) (device_keys_from_secret X x25519)) (\<lambda>k.
     rbind (map_err (\<lambda>_. ProtoKeyLength) (signing_keys_from_secret ed25519)) (\<lambda>s.
       Inr \<lparr>id_keys = k, id_signing = s\<rparr>))"

definition kid_of :: "'x crypto_scheme \<Rightarrow> bytes \<Rightarrow> bytes" where
  "kid_of X ed25519_pub = take 16 (sha256 X ed25519_pub)"

definition id_ed25519_pub :: "'x crypto_scheme \<Rightarrow> device_identity \<Rightarrow> bytes" where
  "id_ed25519_pub X d = verifying_key X (id_signing d)"

definition id_kid :: "'x crypto_scheme \<Rightarrow> device_identity \<Rightarrow> bytes" where
  "id_kid X d = kid_of X (id_ed25519_pub X d)"

definition id_x25519_pub :: "device_identity \<Rightarrow> bytes" where
  "id_x25519_pub d = x25519_pk (id_keys d)"

definition sign_raw :: "'x crypto_scheme \<Rightarrow> device_identity \<Rightarrow> bytes \<Rightarrow> bytes" where
  "sign_raw X d m = ed25519_sign X (id_signing d) m"

definition verify_raw :: "'x crypto_scheme \<Rightarrow> bytes \<Rightarrow> bytes \<Rightarrow> bytes \<Rightarrow> proto_error + unit" where
  "verify_raw X pk m sig =
     (if \<not> ed25519_key_ok X pk then Inl BadSignature
      else if ed25519_verify X pk m sig then Inr () else Inl BadSignature)"

subsection \<open>signed.rs\<close>

definition signing_bytes :: "'x crypto_scheme \<Rightarrow> kind \<Rightarrow> u64 \<Rightarrow> bytes \<Rightarrow> bytes \<Rightarrow> bytes" where
  "signing_bytes X k ts nonce payload =
     RELAY_SIG_DOMAIN @ ascii (kind_str k) @ u64_le ts @ nonce @ sha256 X payload"

definition signed_sign ::
  "'x crypto_scheme \<Rightarrow> 't message \<Rightarrow> device_identity \<Rightarrow> 't \<Rightarrow> u64 \<Rightarrow> bytes \<Rightarrow> proto_error + signed" where
  "signed_sign X T dev payload ts nonce =
     rbind (map_err EncodeError (msg_enc T payload)) (\<lambda>body.
     if length body > MAX_BODY_LEN then Inl (TooLarge (length body))
     else Inr \<lparr>sg_payload = body, sg_kid = id_kid X dev, sg_kind = msg_kind T, sg_ts = ts, sg_nonce = nonce,
               sg_sig = sign_raw X dev (signing_bytes X (msg_kind T) ts nonce body)\<rparr>)"

definition signed_verify ::
  "'x crypto_scheme \<Rightarrow> 't message \<Rightarrow> signed \<Rightarrow> bytes \<Rightarrow> u64 \<Rightarrow> proto_error + ('t \<times> bytes)" where
  "signed_verify X T s ed25519_pub now =
     (if sg_kind s \<noteq> msg_kind T then Inl (Malformed ''envelope kind does not match the payload type'')
      else if length (sg_payload s) > MAX_BODY_LEN then Inl (TooLarge (length (sg_payload s)))
      else if abs_diff now (sg_ts s) > MAX_SKEW_SECS then Inl (Stale (sg_ts s) now)
      else if kid_of X ed25519_pub \<noteq> sg_kid s then Inl BadSignature
      else rbind (verify_raw X ed25519_pub (signing_bytes X (sg_kind s) (sg_ts s) (sg_nonce s) (sg_payload s)) (sg_sig s))
        (\<lambda>_. rbind (ok_or (msg_dec T (sg_payload s)) (Malformed ''payload is not valid CBOR for this kind''))
          (\<lambda>p. Inr (p, sg_nonce s))))"

definition signed_verify_queued ::
  "'x crypto_scheme \<Rightarrow> 't message \<Rightarrow> signed \<Rightarrow> bytes \<Rightarrow> proto_error + ('t \<times> u64)" where
  "signed_verify_queued X T s ed25519_pub =
     (if sg_kind s \<noteq> msg_kind T then Inl (Malformed ''envelope kind does not match the payload type'')
      else if length (sg_payload s) > MAX_BODY_LEN then Inl (TooLarge (length (sg_payload s)))
      else if kid_of X ed25519_pub \<noteq> sg_kid s then Inl BadSignature
      else rbind (verify_raw X ed25519_pub (signing_bytes X (sg_kind s) (sg_ts s) (sg_nonce s) (sg_payload s)) (sg_sig s))
        (\<lambda>_. rbind (ok_or (msg_dec T (sg_payload s)) (Malformed ''payload is not valid CBOR for this kind''))
          (\<lambda>p. Inr (p, sg_ts s))))"

definition signed_to_bytes :: "'x proto_lib_scheme \<Rightarrow> signed \<Rightarrow> proto_error + bytes" where
  "signed_to_bytes X s =
     rbind (map_err EncodeError (fst (codec_signed X) s))
       (\<lambda>out. if length out > MAX_BODY_LEN then Inl (TooLarge (length out)) else Inr out)"

definition signed_from_bytes :: "'x proto_lib_scheme \<Rightarrow> bytes \<Rightarrow> proto_error + signed" where
  "signed_from_bytes X bs =
     (if length bs > MAX_BODY_LEN then Inl (TooLarge (length bs))
      else ok_or (snd (codec_signed X) bs) (Malformed ''envelope is not valid CBOR''))"

subsection \<open>grant.rs\<close>

definition DOMAIN_NAME :: bytes where "DOMAIN_NAME = ascii ''Z-BACS''"
definition DOMAIN_VERSION :: bytes where "DOMAIN_VERSION = ascii ''1''"

definition GRANT_TYPE :: bytes where
  "GRANT_TYPE = ascii ''AccessGrant(bytes32 fileId,bytes32 headerHash,bytes32 deviceKeyHash,uint8 permission,uint64 notBefore,uint64 expiry,uint16 maxOpens,bytes16 requestNonce,uint256 grantNonce)''"

definition DOMAIN_TYPE :: bytes where
  "DOMAIN_TYPE = ascii ''EIP712Domain(string name,string version,uint256 chainId,address verifyingContract)''"

definition typehash :: "'x proto_lib_scheme \<Rightarrow> bytes" where
  "typehash X = keccak256 X GRANT_TYPE"

definition word_u64 :: "u64 \<Rightarrow> bytes" where
  "word_u64 v = replicate 24 0 @ u64_be v"

definition word_bytes16 :: "bytes \<Rightarrow> bytes" where
  "word_bytes16 v = v @ replicate 16 0"

definition struct_bytes :: "'x proto_lib_scheme \<Rightarrow> access_grant_terms \<Rightarrow> bytes" where
  "struct_bytes X t =
     typehash X @ gt_file_id t @ gt_header_hash t @ gt_device_key_hash t @
     word_u64 (ucast (gt_permission t)) @ word_u64 (gt_not_before t) @ word_u64 (gt_expiry t) @
     word_u64 (ucast (gt_max_opens t)) @ word_bytes16 (gt_request_nonce t) @ word_u64 (gt_grant_nonce t)"

definition struct_hash :: "'x proto_lib_scheme \<Rightarrow> access_grant_terms \<Rightarrow> bytes" where
  "struct_hash X t = keccak256 X (struct_bytes X t)"

definition domain_bytes :: "'x proto_lib_scheme \<Rightarrow> u64 \<Rightarrow> bytes \<Rightarrow> bytes" where
  "domain_bytes X chain_id contract =
     keccak256 X DOMAIN_TYPE @ keccak256 X DOMAIN_NAME @ keccak256 X DOMAIN_VERSION @
     word_u64 chain_id @ (replicate 12 0 @ contract)"

definition grant_digest :: "'x proto_lib_scheme \<Rightarrow> access_grant_terms \<Rightarrow> u64 \<Rightarrow> bytes \<Rightarrow> bytes" where
  "grant_digest X t chain_id contract =
     keccak256 X ([0x19, 0x01] @ keccak256 X (domain_bytes X chain_id contract) @ struct_hash X t)"

definition terms_to_cbor :: "'x proto_lib_scheme \<Rightarrow> access_grant_terms \<Rightarrow> proto_error + bytes" where
  "terms_to_cbor X t = map_err EncodeError (fst (codec_terms X) t)"

definition terms_from_cbor :: "'x proto_lib_scheme \<Rightarrow> bytes \<Rightarrow> proto_error + access_grant_terms" where
  "terms_from_cbor X bs = ok_or (snd (codec_terms X) bs) (Malformed ''grant terms are not valid CBOR'')"

definition device_key_hash :: "'x proto_lib_scheme \<Rightarrow> bytes \<Rightarrow> bytes \<Rightarrow> bytes" where
  "device_key_hash X x25519_pub ed25519_pub = keccak256 X (x25519_pub @ ed25519_pub)"

subsection \<open>Signing bytes\<close>

lemma kind_str_inj: "kind_str k = kind_str k' \<longleftrightarrow> k = k'"
  by (cases k; cases k') auto

lemma signing_bytes_inj:
  assumes "hash_lengths X" and "length n = 16" and "length n' = 16"
    and "signing_bytes X k ts n p = signing_bytes X k' ts' n' p'"
  shows "k = k' \<and> ts = ts' \<and> n = n' \<and> sha256 X p = sha256 X p'"
proof -
  have eq: "ascii (kind_str k) @ u64_le ts @ n @ sha256 X p = ascii (kind_str k') @ u64_le ts' @ n' @ sha256 X p'"
    using assms(4) by (simp add: signing_bytes_def)
  then have "length (ascii (kind_str k)) = length (ascii (kind_str k'))"
    using arg_cong [OF eq, of length] assms by (simp add: hash_lengthsD)
  then have "ascii (kind_str k) = ascii (kind_str k')" and r: "u64_le ts @ n @ sha256 X p = u64_le ts' @ n' @ sha256 X p'"
    using eq by simp_all
  moreover have "ts = ts'" and "n @ sha256 X p = n' @ sha256 X p'"
    using u64c.enc_append_inj [OF _ _ r] by simp_all
  ultimately show ?thesis using assms(2,3) by (simp add: ascii_inj kind_str_inj)
qed

lemma header_message_separate:
  assumes "signing_message X b = Inr m"
  shows "m \<noteq> signing_bytes X k ts n p"
  using assms
  by (auto simp: signing_message_def rbind_eq_Inr signing_bytes_def HDR_SIG_DOMAIN_def RELAY_SIG_DOMAIN_def ascii_def)

subsection \<open>Verification\<close>

lemma verify_raw_Inr [res_simps]:
  "verify_raw X pk m sig = Inr () \<longleftrightarrow> ed25519_key_ok X pk \<and> ed25519_verify X pk m sig"
  by (simp add: verify_raw_def)

lemma signed_sign_Inr:
  "signed_sign X T dev payload ts nonce = Inr s \<longleftrightarrow>
     (\<exists>body. msg_enc T payload = Inr body \<and> length body \<le> MAX_BODY_LEN \<and>
        s = \<lparr>sg_payload = body, sg_kid = id_kid X dev, sg_kind = msg_kind T, sg_ts = ts, sg_nonce = nonce,
             sg_sig = sign_raw X dev (signing_bytes X (msg_kind T) ts nonce body)\<rparr>)"
  by (cases "msg_enc T payload") (auto simp: signed_sign_def)

lemma signed_verify_queued_Inr:
  "signed_verify_queued X T s pk = Inr (p, ts) \<longleftrightarrow>
     sg_kind s = msg_kind T \<and> length (sg_payload s) \<le> MAX_BODY_LEN \<and> kid_of X pk = sg_kid s \<and>
     ed25519_key_ok X pk \<and>
     ed25519_verify X pk (signing_bytes X (sg_kind s) (sg_ts s) (sg_nonce s) (sg_payload s)) (sg_sig s) \<and>
     msg_dec T (sg_payload s) = Some p \<and> ts = sg_ts s"
  by (auto simp: signed_verify_queued_def rbind_eq_Inr ok_or_eq_Inr verify_raw_Inr)

lemma signed_verify_Inr:
  "signed_verify X T s pk now = Inr (p, n) \<longleftrightarrow>
     signed_verify_queued X T s pk = Inr (p, sg_ts s) \<and> abs_diff now (sg_ts s) \<le> MAX_SKEW_SECS \<and> n = sg_nonce s"
  by (auto simp: signed_verify_def signed_verify_queued_Inr rbind_eq_Inr ok_or_eq_Inr verify_raw_Inr)

lemma signed_roundtrip:
  assumes "ed25519_signs X" and "signed_sign X T dev payload ts nonce = Inr s"
    and "\<And>body. msg_enc T payload = Inr body \<Longrightarrow> msg_dec T body = Some payload"
  shows "signed_verify_queued X T s (id_ed25519_pub X dev) = Inr (payload, ts)"
  using assms(2,3) ed25519_signsD [OF assms(1), of "id_signing dev"]
  by (auto simp: signed_sign_Inr signed_verify_queued_Inr id_kid_def id_ed25519_pub_def verifying_key_def sign_raw_def)

subsection \<open>Grant hashes\<close>

definition terms_wf :: "access_grant_terms \<Rightarrow> bool" where
  "terms_wf t \<longleftrightarrow> length (gt_file_id t) = 32 \<and> length (gt_header_hash t) = 32 \<and>
     length (gt_device_key_hash t) = 32 \<and> length (gt_request_nonce t) = 16"

lemma word_u64_inj: "word_u64 a = word_u64 b \<longleftrightarrow> a = b"
  by (simp add: word_u64_def u64b.enc_eq_iff)

lemma length_words [simp]: "length (word_u64 v) = 32" "length (word_bytes16 n) = length n + 16"
  by (simp_all add: word_u64_def word_bytes16_def)

lemma struct_bytes_inj:
  assumes "terms_wf t" and "terms_wf t'" and "struct_bytes X t = struct_bytes X t'"
  shows "t = t'"
proof -
  have "gt_file_id t = gt_file_id t'" "gt_header_hash t = gt_header_hash t'"
    "gt_device_key_hash t = gt_device_key_hash t'" "gt_permission t = gt_permission t'"
    "gt_not_before t = gt_not_before t'" "gt_expiry t = gt_expiry t'" "gt_max_opens t = gt_max_opens t'"
    "gt_request_nonce t = gt_request_nonce t'" "gt_grant_nonce t = gt_grant_nonce t'"
    using assms by (simp_all add: struct_bytes_def terms_wf_def word_u64_inj word_bytes16_def ucast_inj_up)
  then show ?thesis by simp
qed

subsection \<open>A sample library\<close>

text \<open>One value per message type, each with a codec that knows just that value.\<close>

record sample_vals =
  sv_announce :: device_announce
  sv_request :: access_request
  sv_grant_msg :: grant_msg
  sv_revoke :: revoke
  sv_version :: version_msg
  sv_signed :: "bytes \<Rightarrow> signed option"
  sv_terms :: access_grant_terms
  sv_envelope :: envelope

definition sample_proto :: "sample_vals \<Rightarrow> proto_lib" where
  "sample_proto v = core_lib.extend (sample_lib sample_uncbor)
     (proto_lib.fields (\<lambda>_. replicate 32 3)
        (\<lambda>_. Inr [1], \<lambda>_. Some (sv_announce v)) (\<lambda>_. Inr [2], \<lambda>_. Some (sv_request v))
        (\<lambda>_. Inr [3], \<lambda>_. Some (sv_grant_msg v)) (\<lambda>_. Inr [4], \<lambda>_. Some (sv_revoke v))
        (\<lambda>_. Inr [5], \<lambda>_. Some (sv_version v)) (\<lambda>_. Inr [6], sv_signed v)
        (\<lambda>_. Inr [7], \<lambda>_. Some (sv_terms v)) (\<lambda>_. Inr [8], \<lambda>_. Some (sv_envelope v)))"

lemma sample_proto_core:
  "sha256 (sample_proto v) = (\<lambda>_. replicate 32 7)" "blake3 (sample_proto v) = (\<lambda>_. replicate 32 9)"
  "aead_encrypt (sample_proto v) = (\<lambda>k n a m. Some (m @ replicate 16 0))"
  "aead_decrypt (sample_proto v) = sample_decrypt"
  "hpke_seal (sample_proto v) = (\<lambda>pk info aad pt eph. Some (take 32 eph, pt))"
  "hpke_open (sample_proto v) = (\<lambda>e sk info aad ct. Some ct)" "x25519_base (sample_proto v) = (\<lambda>sk. sk)"
  "ed25519_public (sample_proto v) = (\<lambda>sk. replicate 32 1)" "ed25519_key_ok (sample_proto v) = (\<lambda>_. True)"
  "ed25519_sign (sample_proto v) = (\<lambda>sk m. replicate 64 2)" "ed25519_verify (sample_proto v) = (\<lambda>pk m s. True)"
  "cbor_policy (sample_proto v) = (\<lambda>_. Inr [])" "cbor_body (sample_proto v) = (\<lambda>_. Inr [])"
  "cbor_header (sample_proto v) = (\<lambda>h. Inr [ucast (hb_ver (hdr_body h))])"
  "uncbor_header (sample_proto v) = sample_uncbor"
  by (simp_all add: sample_proto_def sample_lib_def core_lib.defs proto_lib.defs)

lemma sample_proto_sel [simp]:
  "keccak256 (sample_proto v) = (\<lambda>_. replicate 32 3)"
  "codec_announce (sample_proto v) = (\<lambda>_. Inr [1], \<lambda>_. Some (sv_announce v))"
  "codec_request (sample_proto v) = (\<lambda>_. Inr [2], \<lambda>_. Some (sv_request v))"
  "codec_grant_msg (sample_proto v) = (\<lambda>_. Inr [3], \<lambda>_. Some (sv_grant_msg v))"
  "codec_revoke (sample_proto v) = (\<lambda>_. Inr [4], \<lambda>_. Some (sv_revoke v))"
  "codec_version (sample_proto v) = (\<lambda>_. Inr [5], \<lambda>_. Some (sv_version v))"
  "codec_signed (sample_proto v) = (\<lambda>_. Inr [6], sv_signed v)"
  "codec_terms (sample_proto v) = (\<lambda>_. Inr [7], \<lambda>_. Some (sv_terms v))"
  "codec_envelope (sample_proto v) = (\<lambda>_. Inr [8], \<lambda>_. Some (sv_envelope v))"
  by (simp_all add: sample_proto_def core_lib.defs proto_lib.defs)

lemma sample_proto_ok [simp]:
  "hash_lengths (sample_proto v)" "aead_exact (sample_proto v)" "hpke_opens (sample_proto v)"
  "ed25519_signs (sample_proto v)"
  using sample_lib_ok [of sample_uncbor]
  by (simp_all add: hash_lengths_def aead_exact_def hpke_opens_def ed25519_signs_def sample_proto_core)

definition sample_terms :: access_grant_terms where
  "sample_terms = \<lparr>gt_file_id = replicate 32 1, gt_header_hash = replicate 32 7, gt_device_key_hash = replicate 32 3,
     gt_permission = 2, gt_not_before = 100, gt_expiry = 3700, gt_max_opens = 1,
     gt_request_nonce = replicate 16 4, gt_grant_nonce = 1\<rparr>"

definition sample_revoke :: revoke where
  "sample_revoke = \<lparr>rv_grant_id = replicate 32 3, rv_fid = replicate 32 1, rv_ts = 500\<rparr>"

definition sample_dev :: device_identity where
  "sample_dev = \<lparr>id_keys = sample_keys, id_signing = replicate 32 2\<rparr>"

definition sample_request :: access_request where
  "sample_request = \<lparr>ar_fid = replicate 32 1, ar_header_hash = replicate 32 7, ar_owner = [1],
     ar_device_kid = replicate 16 7, ar_x25519_pub = replicate 32 6, ar_ed25519_pub = replicate 32 1,
     ar_requested = 2, ar_nonce = replicate 16 4, ar_hint = None, ar_ts = 90\<rparr>"

text \<open>Three envelopes of the sample device: a request, an answer and a revoke.\<close>

definition sample_signed :: "bytes \<Rightarrow> signed option" where
  "sample_signed b =
     (let s = \<lparr>sg_payload = [2], sg_kid = replicate 16 7, sg_kind = KReq, sg_ts = 90, sg_nonce = replicate 16 4,
              sg_sig = replicate 64 2\<rparr> in
      if b = [6] then Some s
      else if b = [7] then Some (s\<lparr>sg_payload := [3], sg_kind := KGrant, sg_nonce := replicate 16 5\<rparr>)
      else if b = [8] then Some (s\<lparr>sg_payload := [4], sg_kind := KRevoke, sg_nonce := replicate 16 6\<rparr>)
      else None)"

definition sample_values :: sample_vals where
  "sample_values =
     \<lparr>sv_announce = \<lparr>da_x25519_pub = replicate 32 6, da_ed25519_pub = replicate 32 1, da_label = None, da_ts = 90\<rparr>,
      sv_request = sample_request,
      sv_grant_msg = \<lparr>gm_request_nonce = replicate 16 4, gm_grant = Some [7], gm_owner_sig = None, gm_envelope = Some [8],
        gm_tx_hash = None, gm_decision = 2, gm_ts = 100\<rparr>,
      sv_revoke = sample_revoke,
      sv_version = \<lparr>vm_fid = replicate 32 1, vm_owner = [1], vm_prev_header_hash = replicate 32 7,
        vm_header_hash = replicate 32 8, vm_ver = 2, vm_grant_id = replicate 32 3, vm_owner_envelope = [8],
        vm_ed25519_pub = replicate 32 1, vm_ts = 200\<rparr>,
      sv_signed = sample_signed,
      sv_terms = sample_terms,
      sv_envelope = \<lparr>env_kid = replicate 16 7, env_alg = ALG_HPKE_X25519_CHACHA, env_enc = [], env_ct = replicate 32 3\<rparr>\<rparr>"

abbreviation "sampleP \<equiv> sample_proto sample_values"

section \<open>Properties\<close>

text \<open>A relay envelope that a device signed verifies for the receiver who holds the device's public
  key: the payload and the nonce come back as long as the clocks differ by at most 120 seconds, and
  beyond that the envelope is refused as stale. A message read from a queue is accepted whatever its
  age, with its time stamp.\<close>

theorem signed_verifies:
  assumes "ed25519_signs X" and "signed_sign X T dev payload ts nonce = Inr s"
    and "\<And>body. msg_enc T payload = Inr body \<Longrightarrow> msg_dec T body = Some payload"
  shows "signed_verify X T s (id_ed25519_pub X dev) now =
      (if abs_diff now ts \<le> MAX_SKEW_SECS then Inr (payload, nonce) else Inl (Stale ts now)) \<and>
    signed_verify_queued X T s (id_ed25519_pub X dev) = Inr (payload, ts)"
proof
  show q: "signed_verify_queued X T s (id_ed25519_pub X dev) = Inr (payload, ts)"
    using assms by (rule signed_roundtrip)
  have s: "sg_ts s = ts" "sg_nonce s = nonce" "sg_kind s = msg_kind T" "length (sg_payload s) \<le> MAX_BODY_LEN"
    using assms(2) by (auto simp: signed_sign_Inr)
  show "signed_verify X T s (id_ed25519_pub X dev) now =
      (if abs_diff now ts \<le> MAX_SKEW_SECS then Inr (payload, nonce) else Inl (Stale ts now))"
  proof (cases "abs_diff now ts \<le> MAX_SKEW_SECS")
    case True
    then show ?thesis using signed_verify_Inr [of X T s _ now payload nonce] q s by simp
  next
    case False
    then show ?thesis using s by (simp add: signed_verify_def not_le)
  qed
qed

theorem signed_verifies_witness:
  "\<exists>s. signed_sign sampleP (RevokeMsg sampleP) sample_dev sample_revoke 500 (replicate 16 9) = Inr s \<and>
     signed_verify sampleP (RevokeMsg sampleP) s (id_ed25519_pub sampleP sample_dev) 560
       = Inr (sample_revoke, replicate 16 9)"
proof -
  obtain s where s: "signed_sign sampleP (RevokeMsg sampleP) sample_dev sample_revoke 500 (replicate 16 9) = Inr s"
    by (simp add: signed_sign_def RevokeMsg_def MAX_BODY_LEN_def)
  have "abs_diff 560 (500 :: u64) \<le> MAX_SKEW_SECS" by (simp add: abs_diff_def MAX_SKEW_SECS_def)
  then show ?thesis
    using signed_verifies [OF sample_proto_ok(4) s, of 560] s
    by (auto simp: RevokeMsg_def sample_values_def)
qed

text \<open>C26. What a relay signature covers is unambiguous: two signed messages with equal signing bytes have
  the same kind, time stamp, nonce and payload hash, although the kind is written with variable
  length, and no relay message can be mistaken for a container header, whose signatures use the same
  kind of key.\<close>

theorem signatures_bind_kind:
  assumes "hash_lengths X" and "length n = 16" and "length n' = 16"
  shows "(signing_bytes X k ts n p = signing_bytes X k' ts' n' p' \<longleftrightarrow>
            k = k' \<and> ts = ts' \<and> n = n' \<and> sha256 X p = sha256 X p') \<and>
         signing_message X b \<noteq> Inr (signing_bytes X k ts n p)"
proof
  show "signing_bytes X k ts n p = signing_bytes X k' ts' n' p' \<longleftrightarrow>
            k = k' \<and> ts = ts' \<and> n = n' \<and> sha256 X p = sha256 X p'"
    using signing_bytes_inj [OF assms] by (auto simp: signing_bytes_def)
  show "signing_message X b \<noteq> Inr (signing_bytes X k ts n p)"
    using header_message_separate by blast
qed

theorem signatures_bind_kind_witness:
  "signing_bytes sampleP KReq 5 (replicate 16 1) [] \<noteq> signing_bytes sampleP KSub 5 (replicate 16 1) []"
  using signatures_bind_kind [of sampleP "replicate 16 1" "replicate 16 1" KReq 5 "[]" KSub 5 "[]"] by simp

text \<open>C27. The digest an owner signs binds every field of the approval, the chain and the contract: if two
  digests agree and Keccak-256 did not collide on the inputs compared, then the chains, the contract
  addresses and all nine fields of the terms are the same.\<close>

theorem grant_digest_binds:
  assumes "\<And>m. length (keccak256 X m) = 32"
    and "terms_wf t" and "terms_wf t'" and "length c = 20" and "length c' = 20"
    and "grant_digest X t chain c = grant_digest X t' chain' c'"
    and "\<And>a b. {a, b} \<subseteq> {struct_bytes X t, struct_bytes X t', domain_bytes X chain c, domain_bytes X chain' c',
            [0x19, 0x01] @ keccak256 X (domain_bytes X chain c) @ struct_hash X t,
            [0x19, 0x01] @ keccak256 X (domain_bytes X chain' c') @ struct_hash X t'} \<Longrightarrow>
            keccak256 X a = keccak256 X b \<Longrightarrow> a = b"
  shows "t = t' \<and> chain = chain' \<and> c = c'"
proof -
  have "[0x19, 0x01] @ keccak256 X (domain_bytes X chain c) @ struct_hash X t =
      [0x19, 0x01] @ keccak256 X (domain_bytes X chain' c') @ struct_hash X t'"
    using assms(6) unfolding grant_digest_def by (rule assms(7) [rotated]) auto
  then have d: "keccak256 X (domain_bytes X chain c) = keccak256 X (domain_bytes X chain' c')"
    and h: "struct_hash X t = struct_hash X t'" using assms(1) by simp_all
  have "domain_bytes X chain c = domain_bytes X chain' c'" by (rule assms(7) [OF _ d]) auto
  moreover have "struct_bytes X t = struct_bytes X t'"
    by (rule assms(7) [OF _ h [unfolded struct_hash_def]]) auto
  ultimately show ?thesis
    using struct_bytes_inj [OF assms(2,3)] assms(1,4,5) by (simp add: domain_bytes_def word_u64_inj)
qed

theorem grant_digest_binds_witness:
  "\<exists>X :: proto_lib. grant_digest X sample_terms 1 (replicate 20 5) \<noteq> grant_digest X sample_terms 2 (replicate 20 5)"
proof -
  define K :: "bytes \<Rightarrow> bytes" where "K = (\<lambda>m. if length m = 160 then take 32 (drop 96 m)
    else if length m = 66 then 9 # take 31 (drop 3 m) else 8 # replicate 31 0)"
  define X where "X = sampleP\<lparr>keccak256 := K\<rparr>"
  have kk: "keccak256 X = K" by (simp add: X_def)
  have len: "length (K m) = 32" for m by (simp add: K_def)
  have wf: "terms_wf sample_terms" by (simp add: terms_wf_def sample_terms_def)
  have ls: "length (struct_bytes X sample_terms) = 320"
    by (simp add: struct_bytes_def typehash_def kk len sample_terms_def)
  have ld: "length (domain_bytes X ch (replicate 20 5)) = 160" for ch
    by (simp add: domain_bytes_def kk len)
  have kd: "K (domain_bytes X ch (replicate 20 5)) = word_u64 ch" for ch
    using ld [of ch] by (simp add: K_def) (simp add: domain_bytes_def kk len)
  have h0: "word_u64 ch = 0 # replicate 23 0 @ u64_be ch" for ch by (simp add: word_u64_def numeral_eq_Suc)
  have sh: "struct_hash X sample_terms = 8 # replicate 31 0" using ls by (simp add: struct_hash_def kk K_def)
  have kf: "K ([0x19, 0x01] @ K (domain_bytes X ch (replicate 20 5)) @ struct_hash X sample_terms) =
      9 # replicate 23 0 @ u64_be ch" for ch
    unfolding kd sh h0 by (simp add: K_def)
  have ks: "K (struct_bytes X sample_terms) = 8 # replicate 31 0" using sh by (simp add: struct_hash_def kk)
  have "grant_digest X sample_terms 1 (replicate 20 5) \<noteq> grant_digest X sample_terms 2 (replicate 20 5)"
  proof
    assume eq: "grant_digest X sample_terms 1 (replicate 20 5) = grant_digest X sample_terms 2 (replicate 20 5)"
    have "(1 :: u64) = 2"
      by (rule grant_digest_binds [OF _ wf wf _ _ eq, THEN conjunct2, THEN conjunct1])
         (auto simp: kk len kf [unfolded kd h0, simplified] kd ks h0 u64b.enc_eq_iff)
    then show False by simp
  qed
  then show ?thesis by blast
qed

end
