(* ===== verification/Auth_Signers.thy ===== *)
theory Auth_Signers
  imports Proto
begin

unbundle bit_operations_syntax

text \<open>
  Owner approval signers (\<open>crates/zbacs-auth\<close>: \<open>types.rs\<close>, \<open>error.rs\<close>, \<open>policy.rs\<close>,
  \<open>provider.rs\<close>, \<open>webauthn.rs\<close>, \<open>software.rs\<close>, \<open>otak.rs\<close>, \<open>bsa.rs\<close>). The trait
  \<open>AuthProvider\<close> is a locale, interpreted on the four signers of the crate; P-256, HMAC, base64,
  JSON and the vendor's BSA client are parameters. A signer with memory (the spent one-time keys, the
  passkey's counter) takes and returns it.
\<close>

subsection \<open>types.rs, error.rs\<close>

datatype signer_kind = PlatformPasskey | DeviceKey | Bsa | Otak

datatype confirmation = NotRequired | OsUserVerification

datatype auth_error =
    AuCancelled
  | ConfirmationUnavailable signer_kind confirmation
  | AuHardware string
  | AuUnsupported signer_kind
  | AuMalformed string
  | AuInvalidSignature
  | AuHighS
  | AuChallengeMismatch
  | AuUserVerificationMissing
  | AuEncode string

record p256_key =
  px :: bytes
  py :: bytes

record approval_context =
  ac_permission :: permission
  ac_file_id :: bytes

record approval_challenge =
  ch_digest :: bytes
  ch_context :: approval_context

datatype assertion =
    AsWebAuthn bytes string bytes bytes
  | AsP256Raw bytes bytes bytes
  | AsBsa bytes
  | AsOtak bytes bytes

fun assertion_kind :: "assertion \<Rightarrow> signer_kind" where
  "assertion_kind (AsWebAuthn _ _ _ _) = PlatformPasskey"
| "assertion_kind (AsP256Raw _ _ _) = DeviceKey"
| "assertion_kind (AsBsa _) = Bsa"
| "assertion_kind (AsOtak _ _) = Otak"

record device_enroll =
  de_account :: bytes
  de_public_key :: p256_key
  de_kind :: signer_kind
  de_require_os_confirm :: bool
  de_ts :: u64

record device_revoke =
  dr_account :: bytes
  dr_key_id :: bytes
  dr_ts :: u64

record auth_lib = proto_lib +
  hmac_sha256 :: "bytes \<Rightarrow> bytes \<Rightarrow> bytes"
  p256_point :: "bytes \<Rightarrow> bool"
  p256_scalars :: "bytes \<Rightarrow> bytes \<Rightarrow> bool"
  p256_normalize :: "bytes \<times> bytes \<Rightarrow> (bytes \<times> bytes) option"
  p256_verify :: "bytes \<Rightarrow> bytes \<Rightarrow> bytes \<times> bytes \<Rightarrow> bool"
  p256_sign :: "bytes \<Rightarrow> bytes \<Rightarrow> bytes \<times> bytes"
  p256_public :: "bytes \<Rightarrow> bytes"
  p256_secret_ok :: "bytes \<Rightarrow> bool"
  b64url_encode :: "bytes \<Rightarrow> string"
  b64url_decode :: "string \<Rightarrow> bytes option"
  client_json :: "string \<Rightarrow> (string option \<times> string option) option"
  cbor_enroll :: "device_enroll \<Rightarrow> string + bytes"
  cbor_device_revoke :: "device_revoke \<Rightarrow> string + bytes"

definition p256_key_id :: "'x proto_lib_scheme \<Rightarrow> p256_key \<Rightarrow> bytes" where
  "p256_key_id A k = keccak256 A (px k @ py k)"

definition to_sec1 :: "p256_key \<Rightarrow> bytes" where
  "to_sec1 k = 4 # px k @ py k"

definition from_sec1 :: "bytes \<Rightarrow> auth_error + p256_key" where
  "from_sec1 bs =
     (if length bs \<noteq> 65 \<or> bs ! 0 \<noteq> 4 then Inl (AuMalformed ''public key is not SEC1 uncompressed'')
      else Inr \<lparr>px = take 32 (drop 1 bs), py = drop 33 bs\<rparr>)"

definition ENROLL_DOMAIN :: bytes where "ENROLL_DOMAIN = ascii ''ZBACS-ENROLL-v1''"
definition REVOKE_DOMAIN :: bytes where "REVOKE_DOMAIN = ascii ''ZBACS-REVOKE-v1''"

definition domain_digest :: "'x auth_lib_scheme \<Rightarrow> bytes \<Rightarrow> ('v \<Rightarrow> string + bytes) \<Rightarrow> 'v \<Rightarrow> auth_error + bytes" where
  "domain_digest A domain enc v = rbind (map_err AuEncode (enc v)) (\<lambda>c. Inr (keccak256 A (domain @ c)))"

definition enroll_key_id :: "'x auth_lib_scheme \<Rightarrow> device_enroll \<Rightarrow> bytes" where
  "enroll_key_id A e = p256_key_id A (de_public_key e)"

definition enroll_digest :: "'x auth_lib_scheme \<Rightarrow> device_enroll \<Rightarrow> auth_error + bytes" where
  "enroll_digest A e = domain_digest A ENROLL_DOMAIN (cbor_enroll A) e"

definition revoke_digest :: "'x auth_lib_scheme \<Rightarrow> device_revoke \<Rightarrow> auth_error + bytes" where
  "revoke_digest A r = domain_digest A REVOKE_DOMAIN (cbor_device_revoke A) r"

subsection \<open>policy.rs\<close>

record confirmation_policy =
  edit_requires_confirmation :: bool
  burst_limit :: u32
  burst_window_secs :: u64

definition default_confirmation :: confirmation_policy where
  "default_confirmation = \<lparr>edit_requires_confirmation = True, burst_limit = 5, burst_window_secs = 600\<rparr>"

definition recent_approvals :: "confirmation_policy \<Rightarrow> u64 list \<Rightarrow> u64 \<Rightarrow> nat" where
  "recent_approvals p ts now =
     (let window_start = saturating_sub now (burst_window_secs p)
      in length (filter (\<lambda>t. window_start \<le> t \<and> t \<le> now) ts))"

definition required ::
  "confirmation_policy \<Rightarrow> approval_context \<Rightarrow> confirmation \<Rightarrow> u64 list \<Rightarrow> u64 \<Rightarrow> confirmation" where
  "required p ctx device_setting ts now =
     (if device_setting = OsUserVerification then OsUserVerification
      else if edit_requires_confirmation p \<and> ac_permission ctx = Edit then OsUserVerification
      else if burst_limit p \<le> word_of_nat (recent_approvals p ts now) then OsUserVerification
      else NotRequired)"

subsection \<open>webauthn.rs\<close>

definition flag_up :: "u8 \<Rightarrow> bool" where "flag_up f \<longleftrightarrow> f AND 0x01 \<noteq> 0"
definition flag_uv :: "u8 \<Rightarrow> bool" where "flag_uv f \<longleftrightarrow> f AND 0x04 \<noteq> 0"
definition flag_be :: "u8 \<Rightarrow> bool" where "flag_be f \<longleftrightarrow> f AND 0x08 \<noteq> 0"
definition flag_bs :: "u8 \<Rightarrow> bool" where "flag_bs f \<longleftrightarrow> f AND 0x10 \<noteq> 0"
definition is_synced :: "u8 \<Rightarrow> bool" where "is_synced f \<longleftrightarrow> flag_be f \<or> flag_bs f"

record authenticator_data =
  ad_rp_id_hash :: bytes
  ad_flags :: u8
  ad_sign_count :: u32

definition authenticator_parse :: "bytes \<Rightarrow> auth_error + authenticator_data" where
  "authenticator_parse bs =
     (if length bs < 37 then Inl (AuMalformed ''authenticator data shorter than 37 bytes'')
      else Inr \<lparr>ad_rp_id_hash = take 32 bs, ad_flags = bs ! 32,
                ad_sign_count = word_rcat (take 4 (drop 33 bs))\<rparr>)"

definition webauthn_signed_digest :: "'x crypto_scheme \<Rightarrow> bytes \<Rightarrow> string \<Rightarrow> bytes" where
  "webauthn_signed_digest A ad cd = sha256 A (ad @ sha256 A (ascii cd))"

definition client_data_challenge :: "'x auth_lib_scheme \<Rightarrow> string \<Rightarrow> auth_error + bytes" where
  "client_data_challenge A cd =
     rbind (ok_or (client_json A cd) (AuMalformed ''client data is not JSON'')) (\<lambda>(ty, c).
       if ty \<noteq> Some ''webauthn.get'' then Inl (AuMalformed ''client data type is not webauthn.get'')
       else rbind (ok_or c (AuMalformed ''client data has no challenge'')) (\<lambda>c.
         ok_or (b64url_decode A c) (AuMalformed ''challenge is not base64url'')))"

definition verify_p256 :: "'x auth_lib_scheme \<Rightarrow> p256_key \<Rightarrow> bytes \<Rightarrow> bytes \<Rightarrow> bytes \<Rightarrow> auth_error + unit" where
  "verify_p256 A key digest r s =
     (if \<not> p256_point A (to_sec1 key) then Inl (AuMalformed ''public key not on curve'')
      else if \<not> p256_scalars A r s then Inl (AuMalformed ''r/s out of range'')
      else if p256_normalize A (r, s) \<noteq> None then Inl AuHighS
      else if p256_verify A (to_sec1 key) digest (r, s) then Inr () else Inl AuInvalidSignature)"

fun verify_assertion :: "'x auth_lib_scheme \<Rightarrow> p256_key \<Rightarrow> bytes \<Rightarrow> assertion \<Rightarrow> auth_error + unit" where
  "verify_assertion A key challenge (AsWebAuthn ad cd r s) =
     rbind (authenticator_parse ad) (\<lambda>p.
       if \<not> (flag_up (ad_flags p) \<and> flag_uv (ad_flags p)) then Inl AuUserVerificationMissing
       else rbind (client_data_challenge A cd) (\<lambda>c.
         if c \<noteq> challenge then Inl AuChallengeMismatch
         else verify_p256 A key (webauthn_signed_digest A ad cd) r s))"
| "verify_assertion A key challenge (AsP256Raw kid r s) =
     (if kid \<noteq> p256_key_id A key then Inl AuInvalidSignature else verify_p256 A key challenge r s)"
| "verify_assertion A key challenge (AsBsa _) =
     Inl (AuMalformed ''BSA/OTAK assertions are not P-256; verify through their provider'')"
| "verify_assertion A key challenge (AsOtak _ _) =
     Inl (AuMalformed ''BSA/OTAK assertions are not P-256; verify through their provider'')"

subsection \<open>software.rs\<close>

definition public_key_of :: "'x auth_lib_scheme \<Rightarrow> bytes \<Rightarrow> p256_key" where
  "public_key_of A sk = (case from_sec1 (p256_public A sk) of Inr k \<Rightarrow> k | Inl _ \<Rightarrow> \<lparr>px = [], py = []\<rparr>)"

definition sign_low_s :: "'x auth_lib_scheme \<Rightarrow> bytes \<Rightarrow> bytes \<Rightarrow> bytes \<times> bytes" where
  "sign_low_s A sk digest =
     (let sig = p256_sign A sk digest in case p256_normalize A sig of Some sig' \<Rightarrow> sig' | None \<Rightarrow> sig)"

record software_device_key =
  dk_sk :: bytes
  dk_public :: p256_key
  dk_os_confirmation :: bool

definition device_key_from_secret :: "'x auth_lib_scheme \<Rightarrow> bytes \<Rightarrow> bool \<Rightarrow> auth_error + software_device_key" where
  "device_key_from_secret A sec os =
     (if \<not> p256_secret_ok A sec then Inl (AuMalformed ''not a P-256 scalar'')
      else Inr \<lparr>dk_sk = sec, dk_public = public_key_of A sec, dk_os_confirmation = os\<rparr>)"

definition device_key_sign ::
  "'x auth_lib_scheme \<Rightarrow> software_device_key \<Rightarrow> approval_challenge \<Rightarrow> confirmation \<Rightarrow>
     (auth_error + assertion) \<times> software_device_key" where
  "device_key_sign A k c conf =
     (if conf = OsUserVerification \<and> \<not> dk_os_confirmation k
      then (Inl (ConfirmationUnavailable DeviceKey conf), k)
      else let (r, s) = sign_low_s A (dk_sk k) (ch_digest c)
           in (Inr (AsP256Raw (p256_key_id A (dk_public k)) r s), k))"

record software_passkey =
  pk_sk :: bytes
  pk_public :: p256_key
  pk_rp_id :: string
  pk_origin :: string
  pk_synced :: bool
  pk_counter :: u32

definition passkey_from_secret ::
  "'x auth_lib_scheme \<Rightarrow> bytes \<Rightarrow> string \<Rightarrow> string \<Rightarrow> bool \<Rightarrow> auth_error + software_passkey" where
  "passkey_from_secret A sec rp org synced =
     (if \<not> p256_secret_ok A sec then Inl (AuMalformed ''not a P-256 scalar'')
      else Inr \<lparr>pk_sk = sec, pk_public = public_key_of A sec, pk_rp_id = rp, pk_origin = org,
                pk_synced = synced, pk_counter = 0\<rparr>)"

definition client_data_json :: "'x auth_lib_scheme \<Rightarrow> string \<Rightarrow> bytes \<Rightarrow> string" where
  \<open>client_data_json A org digest =
     ''{"type":"webauthn.get","challenge":"'' @ b64url_encode A digest @ ''","origin":"'' @ org @
     ''","crossOrigin":false}''\<close>

definition passkey_flags :: "bool \<Rightarrow> u8" where
  "passkey_flags synced = 0x01 OR 0x04 OR (if synced then 0x08 OR 0x10 else 0)"

definition passkey_sign ::
  "'x auth_lib_scheme \<Rightarrow> software_passkey \<Rightarrow> approval_challenge \<Rightarrow> confirmation \<Rightarrow>
     (auth_error + assertion) \<times> software_passkey" where
  "passkey_sign A k c conf =
     (let cd = client_data_json A (pk_origin k) (ch_digest c);
          count = pk_counter k + 1;
          ad = sha256 A (ascii (pk_rp_id k)) @ [passkey_flags (pk_synced k)] @ rev (u32_le count);
          (r, s) = sign_low_s A (pk_sk k) (webauthn_signed_digest A ad cd)
      in (Inr (AsWebAuthn ad cd r s), k\<lparr>pk_counter := count\<rparr>))"

subsection \<open>otak.rs\<close>

definition OTAK_DERIVE_DOMAIN :: bytes where "OTAK_DERIVE_DOMAIN = ascii ''ZBACS-OTAK-v1/derive''"
definition OTAK_ID_DOMAIN :: bytes where "OTAK_ID_DOMAIN = ascii ''ZBACS-OTAK-v1/id''"
definition OTAK_MAC_DOMAIN :: bytes where "OTAK_MAC_DOMAIN = ascii ''ZBACS-OTAK-v1/mac''"

definition otak_seed_from_bytes :: "bytes \<Rightarrow> auth_error + bytes" where
  "otak_seed_from_bytes b = (if length b = 32 then Inr b else Inl (AuMalformed ''OTAK seed must be 32 bytes''))"

definition otak_identity :: "'x auth_lib_scheme \<Rightarrow> bytes \<Rightarrow> bytes" where
  "otak_identity A seed = hmac_sha256 A OTAK_ID_DOMAIN seed"

definition one_time_key :: "'x auth_lib_scheme \<Rightarrow> bytes \<Rightarrow> bytes \<Rightarrow> bytes" where
  "one_time_key A seed digest = hmac_sha256 A OTAK_DERIVE_DOMAIN (seed @ digest)"

definition spend :: "bytes \<Rightarrow> bytes set \<Rightarrow> bool \<times> bytes set" where
  "spend digest spent = (digest \<notin> spent, insert digest spent)"

record otak_party =
  ot_seed :: bytes
  ot_spent :: "bytes set"

definition assertion_mac :: "'x auth_lib_scheme \<Rightarrow> bytes \<Rightarrow> bytes \<Rightarrow> bytes" where
  "assertion_mac A one_time digest = hmac_sha256 A one_time (OTAK_MAC_DOMAIN @ digest)"

definition otak_sign ::
  "'x auth_lib_scheme \<Rightarrow> otak_party \<Rightarrow> approval_challenge \<Rightarrow> confirmation \<Rightarrow> (auth_error + assertion) \<times> otak_party" where
  "otak_sign A p c conf =
     (if conf = OsUserVerification then (Inl (ConfirmationUnavailable Otak conf), p)
      else let (fresh, spent') = spend (ch_digest c) (ot_spent p); p' = p\<lparr>ot_spent := spent'\<rparr> in
        if \<not> fresh then (Inl (AuMalformed ''this one-time key was already used''), p')
        else (Inr (AsOtak (otak_identity A (ot_seed p))
                          (assertion_mac A (one_time_key A (ot_seed p) (ch_digest c)) (ch_digest c))), p'))"

definition otak_verify ::
  "'x auth_lib_scheme \<Rightarrow> otak_party \<Rightarrow> bytes \<Rightarrow> assertion \<Rightarrow> (auth_error + unit) \<times> otak_party" where
  "otak_verify A v digest a =
     (case a of
        AsOtak kid mac \<Rightarrow>
          if kid \<noteq> otak_identity A (ot_seed v) then (Inl AuInvalidSignature, v)
          else if assertion_mac A (one_time_key A (ot_seed v) digest) digest \<noteq> mac then (Inl AuInvalidSignature, v)
          else let (fresh, spent') = spend digest (ot_spent v); v' = v\<lparr>ot_spent := spent'\<rparr> in
            if \<not> fresh then (Inl (AuMalformed ''this one-time key was already used''), v')
            else (Inr (), v')
      | _ \<Rightarrow> (Inl (AuMalformed ''not an OTAK assertion''), v))"

subsection \<open>bsa.rs\<close>

record bsa_client =
  bsa_request :: "bytes \<Rightarrow> auth_error + bytes"
  bsa_check :: "bytes \<Rightarrow> bytes \<Rightarrow> auth_error + bool"
  bsa_identity :: bytes

definition bsa_sign ::
  "bsa_client \<Rightarrow> approval_challenge \<Rightarrow> confirmation \<Rightarrow> (auth_error + assertion) \<times> bsa_client" where
  "bsa_sign c ch conf = (rbind (bsa_request c (ch_digest ch)) (\<lambda>t. Inr (AsBsa t)), c)"

definition bsa_verify_assertion :: "bsa_client \<Rightarrow> bytes \<Rightarrow> assertion \<Rightarrow> auth_error + unit" where
  "bsa_verify_assertion c digest a =
     (case a of
        AsBsa t \<Rightarrow> rbind (bsa_check c digest t) (\<lambda>ok. if ok then Inr () else Inl AuInvalidSignature)
      | _ \<Rightarrow> Inl (AuMalformed ''not a BSA assertion''))"

definition mock_token :: "'x crypto_scheme \<Rightarrow> bytes \<Rightarrow> bytes \<Rightarrow> bytes" where
  "mock_token A sec digest = sha256 A (ascii ''mock-bsa-token'' @ sec @ digest)"

definition mock_bsa_client :: "'x crypto_scheme \<Rightarrow> bytes \<Rightarrow> bool \<Rightarrow> bsa_client" where
  "mock_bsa_client A sec refuse =
     \<lparr>bsa_request = (\<lambda>d. if refuse then Inl AuCancelled else Inr (mock_token A sec d)),
      bsa_check = (\<lambda>d t. Inr (t = mock_token A sec d)),
      bsa_identity = sha256 A (ascii ''mock-bsa-identity'' @ sec)\<rparr>"

subsection \<open>What the code relies on\<close>

definition p256_lawful :: "'x auth_lib_scheme \<Rightarrow> bool" where
  "p256_lawful A \<longleftrightarrow>
     (\<forall>sk. length (p256_public A sk) = 65 \<and> p256_public A sk ! 0 = 4 \<and> p256_point A (p256_public A sk) \<and>
        (\<forall>d r s. p256_sign A sk d = (r, s) \<longrightarrow>
           p256_scalars A r s \<and> p256_verify A (p256_public A sk) d (r, s))) \<and>
     (\<forall>r s r' s'. p256_normalize A (r, s) = Some (r', s') \<longrightarrow>
        p256_scalars A r s \<longrightarrow> p256_scalars A r' s' \<and> p256_normalize A (r', s') = None \<and>
        (\<forall>pk d. p256_verify A pk d (r, s) \<longrightarrow> p256_verify A pk d (r', s')))"

definition client_json_lawful :: "'x auth_lib_scheme \<Rightarrow> string \<Rightarrow> bool" where
  "client_json_lawful A org \<longleftrightarrow>
     (\<forall>d. client_json A (client_data_json A org d) = Some (Some ''webauthn.get'', Some (b64url_encode A d)) \<and>
          b64url_decode A (b64url_encode A d) = Some d)"

lemma sec1_roundtrip:
  assumes "length bs = 65" and "bs ! 0 = 4"
  shows "\<exists>k. from_sec1 bs = Inr k \<and> to_sec1 k = bs"
proof -
  have "bs = 4 # drop 1 bs" using assms by (cases bs) auto
  moreover have "take 32 (drop 1 bs) @ drop 33 bs = drop 1 bs"
    using append_take_drop_id [of 32 "drop 1 bs"] by (simp add: drop_drop)
  ultimately show ?thesis using assms by (auto simp: from_sec1_def to_sec1_def)
qed

lemma low_s_verifies:
  assumes "p256_lawful A"
  shows "verify_p256 A (public_key_of A sk) d (fst (sign_low_s A sk d)) (snd (sign_low_s A sk d)) = Inr ()"
proof -
  obtain r s where sg: "p256_sign A sk d = (r, s)" by fastforce
  have pk: "length (p256_public A sk) = 65" "p256_public A sk ! 0 = 4" "p256_point A (p256_public A sk)"
    and ok: "p256_scalars A r s" "p256_verify A (p256_public A sk) d (r, s)"
    using assms sg unfolding p256_lawful_def by blast+
  have key: "to_sec1 (public_key_of A sk) = p256_public A sk"
    using sec1_roundtrip [OF pk(1,2)] by (auto simp: public_key_of_def)
  show ?thesis
  proof (cases "p256_normalize A (r, s)")
    case None
    then show ?thesis by (simp add: sign_low_s_def sg verify_p256_def key pk ok)
  next
    case (Some sig')
    obtain r' s' where s': "sig' = (r', s')" by fastforce
    then have "p256_scalars A r' s'" "p256_normalize A (r', s') = None" "p256_verify A (p256_public A sk) d (r', s')"
      using assms Some ok unfolding p256_lawful_def by blast+
    then show ?thesis using Some s' by (simp add: sign_low_s_def sg verify_p256_def key pk)
  qed
qed

lemma passkey_flags_ok: "flag_up (passkey_flags b)" "flag_uv (passkey_flags b)"
  by (cases b; simp add: flag_up_def flag_uv_def passkey_flags_def)+

lemma passkey_synced: "is_synced (passkey_flags b) \<longleftrightarrow> b"
  by (cases b) (simp_all add: is_synced_def flag_be_def flag_bs_def passkey_flags_def)

subsection \<open>provider.rs: the trait and its implementations\<close>

text \<open>
  A signer names its kind truthfully and never signs without the operating system's verification
  of the person when that is demanded and it cannot give it. A checked signer is one whose
  assertions its counterpart accepts.
\<close>

locale auth_provider =
  fixes knd :: signer_kind
    and supports :: "'s \<Rightarrow> bool"
    and sign :: "'s \<Rightarrow> approval_challenge \<Rightarrow> confirmation \<Rightarrow> (auth_error + assertion) \<times> 's"
  assumes sign_kind: "sign s c f = (Inr a, s') \<Longrightarrow> assertion_kind a = knd"
    and sign_confirms: "sign s c OsUserVerification = (Inr a, s') \<Longrightarrow> supports s"
begin

text \<open>What the policy demands is what the person gave.\<close>

lemma policy_enforced:
  assumes "sign s c (required p (ch_context c) dev ts now) = (Inr a, s')"
    and "required p (ch_context c) dev ts now = OsUserVerification"
  shows "supports s"
  using assms sign_confirms by metis

end

locale checked_provider = auth_provider +
  fixes ready :: "'s \<Rightarrow> 'v \<Rightarrow> bytes \<Rightarrow> bool"
    and check :: "'v \<Rightarrow> bytes \<Rightarrow> assertion \<Rightarrow> auth_error + unit"
  assumes check_sign: "ready s v (ch_digest c) \<Longrightarrow> sign s c f = (Inr a, s') \<Longrightarrow> check v (ch_digest c) a = Inr ()"
begin

lemma approval_accepted:
  assumes "ready s v (ch_digest c)" and "fst (sign s c f) = Inr a"
  shows "check v (ch_digest c) a = Inr () \<and> assertion_kind a = knd"
  using assms check_sign sign_kind by (metis prod.collapse)

end

definition device_key_ready :: "'x auth_lib_scheme \<Rightarrow> software_device_key \<Rightarrow> p256_key \<Rightarrow> bytes \<Rightarrow> bool" where
  "device_key_ready A k key d \<longleftrightarrow> p256_lawful A \<and> key = public_key_of A (dk_sk k) \<and> dk_public k = key"

definition passkey_ready :: "'x auth_lib_scheme \<Rightarrow> software_passkey \<Rightarrow> p256_key \<Rightarrow> bytes \<Rightarrow> bool" where
  "passkey_ready A k key d \<longleftrightarrow> p256_lawful A \<and> hash_lengths A \<and> client_json_lawful A (pk_origin k) \<and>
     key = public_key_of A (pk_sk k)"

definition otak_ready :: "otak_party \<Rightarrow> otak_party \<Rightarrow> bytes \<Rightarrow> bool" where
  "otak_ready p v d \<longleftrightarrow> ot_seed p = ot_seed v \<and> d \<notin> ot_spent v"

definition bsa_ready :: "bsa_client \<Rightarrow> bsa_client \<Rightarrow> bytes \<Rightarrow> bool" where
  "bsa_ready c v d \<longleftrightarrow> (case bsa_request c d of Inl _ \<Rightarrow> True | Inr t \<Rightarrow> bsa_check v d t = Inr True)"

interpretation device_key: checked_provider DeviceKey dk_os_confirmation "device_key_sign A"
  "device_key_ready A" "verify_assertion A" for A
proof unfold_locales
  fix s c f a s' v
  show "assertion_kind a = DeviceKey" if "device_key_sign A s c f = (Inr a, s')"
    using that by (auto simp: device_key_sign_def split: if_splits prod.splits)
  show "dk_os_confirmation s" if "device_key_sign A s c OsUserVerification = (Inr a, s')"
    using that by (auto simp: device_key_sign_def split: if_splits prod.splits)
  show "verify_assertion A v (ch_digest c) a = Inr ()"
    if "device_key_ready A s v (ch_digest c)" "device_key_sign A s c f = (Inr a, s')"
    using that low_s_verifies [of A "dk_sk s" "ch_digest c"]
    by (auto simp: device_key_sign_def device_key_ready_def split: if_splits prod.splits)
qed

interpretation passkey: checked_provider PlatformPasskey "\<lambda>_. True" "passkey_sign A"
  "passkey_ready A" "verify_assertion A" for A
proof unfold_locales
  fix s c f a s' v
  show "assertion_kind a = PlatformPasskey" if "passkey_sign A s c f = (Inr a, s')"
    using that by (auto simp: passkey_sign_def Let_def split: prod.splits)
  show "verify_assertion A v (ch_digest c) a = Inr ()"
    if r: "passkey_ready A s v (ch_digest c)" and sg: "passkey_sign A s c f = (Inr a, s')"
  proof -
    let ?cd = "client_data_json A (pk_origin s) (ch_digest c)"
    let ?ad = "sha256 A (ascii (pk_rp_id s)) @ [passkey_flags (pk_synced s)] @ rev (u32_le (pk_counter s + 1))"
    let ?w = "webauthn_signed_digest A ?ad ?cd"
    have len: "length (sha256 A (ascii (pk_rp_id s))) = 32" using r hash_lengthsD(1) by (auto simp: passkey_ready_def)
    then have ad: "\<exists>p. authenticator_parse ?ad = Inr p \<and> ad_flags p = passkey_flags (pk_synced s)"
      by (simp add: authenticator_parse_def nth_append u32_le_def)
    have a: "a = AsWebAuthn ?ad ?cd (fst (sign_low_s A (pk_sk s) ?w)) (snd (sign_low_s A (pk_sk s) ?w))"
      using sg by (auto simp: passkey_sign_def Let_def split: prod.splits)
    have cd: "client_data_challenge A ?cd = Inr (ch_digest c)"
      using r by (auto simp: passkey_ready_def client_json_lawful_def client_data_challenge_def)
    have "verify_p256 A v ?w (fst (sign_low_s A (pk_sk s) ?w)) (snd (sign_low_s A (pk_sk s) ?w)) = Inr ()"
      using r low_s_verifies by (auto simp: passkey_ready_def)
    then show ?thesis using ad a cd passkey_flags_ok by auto
  qed
qed simp

interpretation otak: checked_provider Otak "\<lambda>_. False" "otak_sign A"
  "otak_ready" "\<lambda>v d a. fst (otak_verify A v d a)" for A
  by unfold_locales
    (auto simp: otak_sign_def otak_verify_def otak_ready_def spend_def Let_def split: if_splits)

interpretation bsa: checked_provider Bsa "\<lambda>_. True" bsa_sign bsa_ready bsa_verify_assertion
  by unfold_locales
    (auto simp: bsa_sign_def bsa_verify_assertion_def bsa_ready_def rbind_eq_Inr split: sum.splits)

subsection \<open>Lemmas on the policy and the one-time keys\<close>

lemma required_iff:
  assumes "recent_approvals p ts now < 2 ^ 32"
  shows "required p ctx dev ts now = OsUserVerification \<longleftrightarrow>
    dev = OsUserVerification \<or> edit_requires_confirmation p \<and> ac_permission ctx = Edit \<or>
    unat (burst_limit p) \<le> recent_approvals p ts now"
  using assms by (auto simp: required_def word_le_nat_alt unat_of_nat)

fun otak_accepted :: "'x auth_lib_scheme \<Rightarrow> otak_party \<Rightarrow> (bytes \<times> assertion) list \<Rightarrow> (bytes \<times> assertion) list" where
  "otak_accepted A v [] = []"
| "otak_accepted A v ((d, a) # calls) =
     (case otak_verify A v d a of
        (Inr _, v') \<Rightarrow> (d, a) # otak_accepted A v' calls
      | (Inl _, v') \<Rightarrow> otak_accepted A v' calls)"

lemma otak_verify_spends:
  assumes "otak_verify A v d a = (r, v')"
  shows "ot_spent v \<subseteq> ot_spent v'" and "ot_seed v' = ot_seed v"
    and "r = Inr u \<Longrightarrow> d \<notin> ot_spent v \<and> d \<in> ot_spent v' \<and>
      a = AsOtak (otak_identity A (ot_seed v)) (assertion_mac A (one_time_key A (ot_seed v) d) d)"
  using assms by (auto simp: otak_verify_def spend_def Let_def split: assertion.splits if_splits)

lemma otak_accepted_fresh:
  "distinct (map fst (otak_accepted A v calls)) \<and> set (map fst (otak_accepted A v calls)) \<inter> ot_spent v = {}"
proof (induction A v calls rule: otak_accepted.induct)
  case (2 A v d a calls)
  obtain r v' where v': "otak_verify A v d a = (r, v')" by fastforce
  show ?case
  proof (cases r)
    case (Inl e)
    then show ?thesis using 2(1) [OF v' [symmetric] Inl] otak_verify_spends(1) [OF v'] v' by auto
  next
    case (Inr u)
    then show ?thesis using 2(2) [OF v' [symmetric] Inr] otak_verify_spends [OF v'] v' by auto
  qed
qed simp

lemma otak_accepted_genuine:
  "(d, a) \<in> set (otak_accepted A v calls) \<Longrightarrow>
     a = AsOtak (otak_identity A (ot_seed v)) (assertion_mac A (one_time_key A (ot_seed v) d) d)"
proof (induction A v calls rule: otak_accepted.induct)
  case (2 A v d' a' calls)
  obtain r v' where v': "otak_verify A v d' a' = (r, v')" by fastforce
  show ?case
  proof (cases r)
    case (Inl e)
    then show ?thesis using 2 v' otak_verify_spends(2) [OF v'] by auto
  next
    case (Inr u)
    then show ?thesis using 2 v' otak_verify_spends(2,3) [OF v'] by auto
  qed
qed simp

subsection \<open>A sample library\<close>

definition sample_auth :: auth_lib where
  "sample_auth = proto_lib.extend sampleP
     (auth_lib.fields (\<lambda>k m. replicate 32 8) (\<lambda>_. True) (\<lambda>r s. True)
        (\<lambda>(r, s). if s = [2] then Some (r, [1]) else None) (\<lambda>_ _ _. True) (\<lambda>_ _. ([], [2])) (\<lambda>_. replicate 65 4)
        (\<lambda>_. True) (map (\<lambda>b. char_of (unat b))) (\<lambda>s. Some (map (\<lambda>c. word_of_nat (of_char c)) s))
        (\<lambda>s. Some (Some ''webauthn.get'', Some (take (length s - 70) (drop 36 s))))
        (\<lambda>_. Inr []) (\<lambda>_. Inr []))"

lemma sample_auth_sel:
  "hmac_sha256 sample_auth = (\<lambda>k m. replicate 32 8)" "p256_point sample_auth = (\<lambda>_. True)"
  "p256_scalars sample_auth = (\<lambda>r s. True)"
  "p256_normalize sample_auth = (\<lambda>(r, s). if s = [2] then Some (r, [1]) else None)"
  "p256_verify sample_auth = (\<lambda>_ _ _. True)" "p256_sign sample_auth = (\<lambda>_ _. ([], [2]))"
  "p256_public sample_auth = (\<lambda>_. replicate 65 4)" "p256_secret_ok sample_auth = (\<lambda>_. True)"
  "b64url_encode sample_auth = map (\<lambda>b. char_of (unat b))"
  "b64url_decode sample_auth = (\<lambda>s. Some (map (\<lambda>c. word_of_nat (of_char c)) s))"
  "client_json sample_auth = (\<lambda>s. Some (Some ''webauthn.get'', Some (take (length s - 70) (drop 36 s))))"
  "sha256 sample_auth = (\<lambda>_. replicate 32 7)" "blake3 sample_auth = (\<lambda>_. replicate 32 9)"
  "keccak256 sample_auth = (\<lambda>_. replicate 32 3)"
  by (simp_all add: sample_auth_def proto_lib.defs auth_lib.defs sample_proto_core)

lemma sample_auth_p256: "p256_lawful sample_auth"
  by (simp add: p256_lawful_def sample_auth_sel)

lemma sample_client_json: "client_json_lawful sample_auth []"
proof -
  have "word_of_nat (of_char (char_of (unat b))) = b" for b :: byte
    using unsigned_less [where ?'a = nat, of b] by simp
  then have "map ((\<lambda>c. word_of_nat (of_char c)) \<circ> (\<lambda>b. char_of (unat b))) d = d" for d :: bytes
    by (intro map_idI) simp
  then show ?thesis by (simp add: client_json_lawful_def sample_auth_sel client_data_json_def)
qed

section \<open>Properties\<close>



text \<open>Every approval a signer of the crate gives is accepted by its counterpart for the same digest
  and carries the signer's kind: a device key and a passkey by \<open>verify_assertion\<close> with the registered
  public key, a one-time key by the verifier with the same seed that has not seen the digest, a BSA
  token by the client that vouches for it.\<close>

theorem approvals_verify:
  shows "(device_key_ready A dk key (ch_digest c) \<and> fst (device_key_sign A dk c f) = Inr a \<longrightarrow>
      verify_assertion A key (ch_digest c) a = Inr () \<and> assertion_kind a = DeviceKey) \<and>
    (passkey_ready A pk key (ch_digest c) \<and> fst (passkey_sign A pk c f) = Inr a \<longrightarrow>
      verify_assertion A key (ch_digest c) a = Inr () \<and> assertion_kind a = PlatformPasskey) \<and>
    (otak_ready p v (ch_digest c) \<and> fst (otak_sign A p c f) = Inr a \<longrightarrow>
      fst (otak_verify A v (ch_digest c) a) = Inr () \<and> assertion_kind a = Otak) \<and>
    (bsa_ready b w (ch_digest c) \<and> fst (bsa_sign b c f) = Inr a \<longrightarrow>
      bsa_verify_assertion w (ch_digest c) a = Inr () \<and> assertion_kind a = Bsa)"
proof (intro conjI)
qed (use device_key.approval_accepted [of A dk key c f a] passkey.approval_accepted [of A pk key c f a]
    otak.approval_accepted [of p v c A f a] bsa.approval_accepted [of b w c f a] in blast)+

theorem approvals_verify_witness:
  "\<exists>a. fst (passkey_sign sample_auth
        \<lparr>pk_sk = [], pk_public = public_key_of sample_auth [], pk_rp_id = [], pk_origin = [], pk_synced = False,
         pk_counter = 0\<rparr>
        \<lparr>ch_digest = [65], ch_context = \<lparr>ac_permission = ReadOnly, ac_file_id = []\<rparr>\<rparr> NotRequired) = Inr a \<and>
     verify_assertion sample_auth (public_key_of sample_auth []) [65] a = Inr ()"
proof -
  let ?k = "\<lparr>pk_sk = [], pk_public = public_key_of sample_auth [], pk_rp_id = [], pk_origin = [], pk_synced = False,
         pk_counter = 0\<rparr>"
  let ?c = "\<lparr>ch_digest = [65], ch_context = \<lparr>ac_permission = ReadOnly, ac_file_id = []\<rparr>\<rparr>"
  obtain a where a: "fst (passkey_sign sample_auth ?k ?c NotRequired) = Inr a"
    by (cases "fst (passkey_sign sample_auth ?k ?c NotRequired)") (auto simp: passkey_sign_def Let_def split: prod.splits)
  have "passkey_ready sample_auth ?k (public_key_of sample_auth []) (ch_digest ?c)"
    using sample_auth_p256 sample_client_json by (simp add: passkey_ready_def hash_lengths_def sample_auth_sel)
  then show ?thesis
    using approvals_verify [of sample_auth _ "public_key_of sample_auth []" ?c NotRequired a ?k] a by auto
qed

text \<open>One-time keys are used once: over any sequence of assertions put to a verifier, no digest is
  accepted twice nor one spent before, and what is accepted is the one assertion the seed yields
  for that digest.\<close>

theorem otak_single_use:
  shows "distinct (map fst (otak_accepted A v calls)) \<and>
    (\<forall>(d, a) \<in> set (otak_accepted A v calls). d \<notin> ot_spent v \<and>
       a = AsOtak (otak_identity A (ot_seed v)) (assertion_mac A (one_time_key A (ot_seed v) d) d))"
  using otak_accepted_fresh [of A v calls] otak_accepted_genuine [of _ _ A v calls] by fastforce

theorem otak_single_use_witness:
  "map fst (otak_accepted sample_auth \<lparr>ot_seed = [], ot_spent = {}\<rparr>
     [([1], AsOtak (replicate 32 8) (replicate 32 8)), ([1], AsOtak (replicate 32 8) (replicate 32 8))]) = [[1]] \<and>
   distinct (map fst (otak_accepted sample_auth \<lparr>ot_seed = [], ot_spent = {}\<rparr>
     [([1], AsOtak (replicate 32 8) (replicate 32 8)), ([1], AsOtak (replicate 32 8) (replicate 32 8))]))"
  using otak_single_use [of sample_auth "\<lparr>ot_seed = [], ot_spent = {}\<rparr>"
     "[([1], AsOtak (replicate 32 8) (replicate 32 8)), ([1], AsOtak (replicate 32 8) (replicate 32 8))]"]
  by (simp add: otak_verify_def otak_identity_def assertion_mac_def one_time_key_def spend_def
      sample_auth_sel)

end
