(* ===== verification/Auth_Setup.thy ===== *)
theory Auth_Setup
  imports Auth_Signers
begin

text \<open>
  First-run setup of a device (\<open>crates/zbacs-auth/src/setup.rs\<close>, \<open>store.rs\<close>): the key store, the
  profile beside it, finishing and resuming setup, adopting the owner account, forgetting the device.
  The signer factory and the CBOR of the profile are parameters; fresh secrets and the outcomes of
  the operating-system calls are arguments. Shown: whatever calls are made and whichever fail, the
  secrets of a device and what its profile says never change until it is forgotten.
\<close>

subsection \<open>Choices and capabilities\<close>

datatype approval_style = Biometric | ThisDevice

fun style_signer_kind :: "approval_style \<Rightarrow> signer_kind" where
  "style_signer_kind Biometric = PlatformPasskey"
| "style_signer_kind ThisDevice = DeviceKey"

fun device_confirmation :: "approval_style \<Rightarrow> confirmation" where
  "device_confirmation Biometric = OsUserVerification"
| "device_confirmation ThisDevice = NotRequired"

record capabilities =
  cp_os_authenticator :: bool
  cp_hardware_key :: bool
  cp_persistent_store :: bool

fun offers :: "capabilities \<Rightarrow> approval_style \<Rightarrow> bool" where
  "offers c Biometric = cp_os_authenticator c"
| "offers c ThisDevice = True"

definition recommended :: "capabilities \<Rightarrow> approval_style" where
  "recommended c = (if cp_os_authenticator c then Biometric else ThisDevice)"

record signer_info =
  si_kind :: signer_kind
  si_key_id :: bytes
  si_public_key :: "p256_key option"

record created_signer =
  cs_provider :: signer_info
  cs_credential :: "bytes option"
  cs_hardware_backed :: bool

record device_profile =
  dp_schema :: u16
  dp_style :: approval_style
  dp_signer :: signer_kind
  dp_key_id :: bytes
  dp_public_key :: "p256_key option"
  dp_credential :: bytes
  dp_require_os_confirm :: bool
  dp_hardware_backed :: bool
  dp_device_x25519_pub :: bytes
  dp_device_ed25519_pub :: bytes
  dp_owner_sealing_pub :: bytes
  dp_owner_signing_pub :: bytes
  dp_account :: "bytes option"
  dp_enrolled_on_chain :: bool
  dp_created_at :: u64

definition PROFILE_SCHEMA :: u16 where "PROFILE_SCHEMA = 1"

record signer_factory =
  sf_capabilities :: capabilities
  sf_create :: "approval_style \<Rightarrow> bool \<Rightarrow> auth_error + created_signer"
  sf_reopen :: "device_profile \<Rightarrow> auth_error + signer_info"

record device_key_pair =
  kp_envelope :: device_keys
  kp_signing :: bytes

datatype pending = AccountOnChain | DeviceEnrolment | RecoveryCode | VolatileKeyStore | SoftwareSigner

record prepared =
  pp_profile :: device_profile
  pp_signer :: signer_info
  pp_pending :: "pending list"

subsection \<open>store.rs\<close>

definition DEVICE_X25519 :: string where "DEVICE_X25519 = ''device-x25519''"
definition DEVICE_ED25519 :: string where "DEVICE_ED25519 = ''device-ed25519''"
definition OWNER_SEALING :: string where "OWNER_SEALING = ''owner-sealing''"
definition OWNER_SIGNING :: string where "OWNER_SIGNING = ''owner-signing''"
definition APPROVAL_SOFTWARE :: string where "APPROVAL_SOFTWARE = ''approval-software''"

text \<open>The store maps entry names to secrets; the operating system's keychain may refuse a call.\<close>

type_synonym key_store = "string \<rightharpoonup> bytes"

record setup_io =
  so_get :: "string \<Rightarrow> bool"
  so_put :: "string \<Rightarrow> bool"
  so_delete :: "string \<Rightarrow> bool"
  so_read :: bool
  so_mkdir :: bool
  so_write :: bool
  so_restrict :: bool
  so_rename :: bool
  so_remove :: bool

definition store_get :: "setup_io \<Rightarrow> string \<Rightarrow> key_store \<Rightarrow> auth_error + bytes option" where
  "store_get io name st = (if so_get io name then Inr (st name) else Inl (AuHardware ''keychain read''))"

definition store_put :: "setup_io \<Rightarrow> string \<Rightarrow> bytes \<Rightarrow> key_store \<Rightarrow> (auth_error + unit) \<times> key_store" where
  "store_put io name secret st =
     (if so_put io name then (Inr (), st(name \<mapsto> secret)) else (Inl (AuHardware ''keychain write''), st))"

definition store_delete :: "setup_io \<Rightarrow> string \<Rightarrow> key_store \<Rightarrow> (auth_error + unit) \<times> key_store" where
  "store_delete io name st =
     (if so_delete io name then (Inr (), st(name := None)) else (Inl (AuHardware ''keychain delete''), st))"

definition good_keychain :: setup_io where
  "good_keychain = \<lparr>so_get = (\<lambda>_. True), so_put = (\<lambda>_. True), so_delete = (\<lambda>_. True), so_read = True, so_mkdir = True, so_write = True,
     so_restrict = True, so_rename = True, so_remove = True\<rparr>"

text \<open>The in-process store never refuses: it is a last-writer-wins store.\<close>

interpretation memory_store: keyed_store "\<lambda>k v st. snd (store_put good_keychain k v st)" "\<lambda>st k. st k"
  by unfold_locales (simp_all add: store_put_def good_keychain_def)

subsection \<open>Setup\<close>

record setup_state =
  ss_store :: key_store
  ss_profile :: "bytes option"

record profile_codec =
  pc_to :: "device_profile \<Rightarrow> string + bytes"
  pc_from :: "bytes \<Rightarrow> string + device_profile"

definition is_set_up :: "setup_state \<Rightarrow> bool" where
  "is_set_up s \<longleftrightarrow> ss_profile s \<noteq> None"

definition setup_profile :: "profile_codec \<Rightarrow> setup_io \<Rightarrow> setup_state \<Rightarrow> auth_error + device_profile option" where
  "setup_profile P io s =
     (case ss_profile s of
        None \<Rightarrow> Inr None
      | Some bs \<Rightarrow>
          if \<not> so_read io then Inl (AuHardware ''read profile'')
          else rbind (map_err AuEncode (pc_from P bs)) (\<lambda>p.
            if dp_schema p \<noteq> PROFILE_SCHEMA then Inl (AuEncode ''profile schema'') else Inr (Some p)))"

definition pending_for :: "signer_factory \<Rightarrow> device_profile \<Rightarrow> pending list" where
  "pending_for F p =
     (if dp_account p = None then [AccountOnChain] else []) @
     (if \<not> dp_enrolled_on_chain p then [DeviceEnrolment] else []) @
     (if \<not> dp_hardware_backed p then [SoftwareSigner] else []) @
     (if \<not> cp_persistent_store (sf_capabilities F) then [VolatileKeyStore] else []) @ [RecoveryCode]"

definition setup_resume ::
  "profile_codec \<Rightarrow> signer_factory \<Rightarrow> setup_io \<Rightarrow> setup_state \<Rightarrow> auth_error + prepared option" where
  "setup_resume P F io s =
     rbind (setup_profile P io s) (\<lambda>op.
       case op of
         None \<Rightarrow> Inr None
       | Some p \<Rightarrow>
           rbind (sf_reopen F p) (\<lambda>sg.
             if si_key_id sg \<noteq> dp_key_id p
             then Inl (AuHardware ''stored approval key no longer matches this device'')
             else Inr (Some \<lparr>pp_profile = p, pp_signer = sg, pp_pending = pending_for F p\<rparr>)))"

definition setup_secret :: "setup_io \<Rightarrow> string \<Rightarrow> bytes \<Rightarrow> key_store \<Rightarrow> (auth_error + bytes) \<times> key_store" where
  "setup_secret io name fresh st =
     (case store_get io name st of
        Inl e \<Rightarrow> (Inl e, st)
      | Inr (Some found) \<Rightarrow> (Inr found, st)
      | Inr None \<Rightarrow>
          (case store_put io name fresh st of (Inl e, st') \<Rightarrow> (Inl e, st') | (Inr _, st') \<Rightarrow> (Inr fresh, st')))"

definition key_err :: "string \<Rightarrow> core_error \<Rightarrow> auth_error" where
  "key_err name e = AuHardware (''key material '' @ name)"

definition setup_x25519 ::
  "'x crypto_scheme \<Rightarrow> setup_io \<Rightarrow> string \<Rightarrow> bytes \<Rightarrow> key_store \<Rightarrow> (auth_error + device_keys) \<times> key_store" where
  "setup_x25519 X io name fresh st =
     (case setup_secret io name fresh st of
        (Inl e, st') \<Rightarrow> (Inl e, st')
      | (Inr sec, st') \<Rightarrow> (map_err (key_err name) (device_keys_from_secret X sec), st'))"

definition setup_ed25519 :: "setup_io \<Rightarrow> string \<Rightarrow> bytes \<Rightarrow> key_store \<Rightarrow> (auth_error + bytes) \<times> key_store" where
  "setup_ed25519 io name fresh st =
     (case setup_secret io name fresh st of
        (Inl e, st') \<Rightarrow> (Inl e, st')
      | (Inr sec, st') \<Rightarrow> (map_err (key_err name) (signing_keys_from_secret sec), st'))"

definition fixed32 :: "bytes \<Rightarrow> auth_error + bytes" where
  "fixed32 b = (if length b = 32 then Inr b else Inl (AuMalformed ''public key is not 32 bytes''))"

definition write_profile :: "profile_codec \<Rightarrow> setup_io \<Rightarrow> device_profile \<Rightarrow> setup_state \<Rightarrow> (auth_error + unit) \<times> setup_state" where
  "write_profile P io p s =
     (if \<not> so_mkdir io then (Inl (AuHardware ''create config dir''), s)
      else case pc_to P p of
        Inl e \<Rightarrow> (Inl (AuEncode e), s)
      | Inr bs \<Rightarrow>
          if \<not> so_write io then (Inl (AuHardware ''write profile''), s)
          else if \<not> so_restrict io then (Inl (AuHardware ''restrict profile''), s)
          else if \<not> so_rename io then (Inl (AuHardware ''replace profile''), s)
          else (Inr (), s\<lparr>ss_profile := Some bs\<rparr>))"

definition load_four ::
  "'x crypto_scheme \<Rightarrow> setup_io \<Rightarrow> (string \<Rightarrow> bytes) \<Rightarrow> key_store \<Rightarrow>
     (auth_error + (device_keys \<times> bytes \<times> device_keys \<times> bytes)) \<times> key_store" where
  "load_four X io fresh st =
     (case setup_x25519 X io DEVICE_X25519 (fresh DEVICE_X25519) st of
        (Inl e, st1) \<Rightarrow> (Inl e, st1)
      | (Inr dx, st1) \<Rightarrow>
     (case setup_ed25519 io DEVICE_ED25519 (fresh DEVICE_ED25519) st1 of
        (Inl e, st2) \<Rightarrow> (Inl e, st2)
      | (Inr de, st2) \<Rightarrow>
     (case setup_x25519 X io OWNER_SEALING (fresh OWNER_SEALING) st2 of
        (Inl e, st3) \<Rightarrow> (Inl e, st3)
      | (Inr ox, st3) \<Rightarrow>
     (case setup_ed25519 io OWNER_SIGNING (fresh OWNER_SIGNING) st3 of
        (Inl e, st4) \<Rightarrow> (Inl e, st4)
      | (Inr oe, st4) \<Rightarrow> (Inr (dx, de, ox, oe), st4)))))"

definition new_profile ::
  "'x crypto_scheme \<Rightarrow> approval_style \<Rightarrow> u64 \<Rightarrow> created_signer \<Rightarrow> device_keys \<times> bytes \<times> device_keys \<times> bytes \<Rightarrow>
     auth_error + device_profile" where
  "new_profile X style now c = (\<lambda>(dx, de, ox, oe).
     rbind (fixed32 (x25519_pk dx)) (\<lambda>dxp.
     rbind (fixed32 (x25519_pk ox)) (\<lambda>oxp.
       Inr \<lparr>dp_schema = PROFILE_SCHEMA, dp_style = style, dp_signer = si_kind (cs_provider c),
            dp_key_id = si_key_id (cs_provider c), dp_public_key = si_public_key (cs_provider c),
            dp_credential = (case cs_credential c of Some b \<Rightarrow> b | None \<Rightarrow> []),
            dp_require_os_confirm = (device_confirmation style = OsUserVerification),
            dp_hardware_backed = cs_hardware_backed c, dp_device_x25519_pub = dxp,
            dp_device_ed25519_pub = verifying_key X de, dp_owner_sealing_pub = oxp,
            dp_owner_signing_pub = verifying_key X oe, dp_account = None, dp_enrolled_on_chain = False,
            dp_created_at = now\<rparr>)))"

definition setup_complete ::
  "'x crypto_scheme \<Rightarrow> profile_codec \<Rightarrow> signer_factory \<Rightarrow> setup_io \<Rightarrow> (string \<Rightarrow> bytes) \<Rightarrow> approval_style \<Rightarrow> u64 \<Rightarrow>
     setup_state \<Rightarrow> (auth_error + prepared) \<times> setup_state" where
  "setup_complete X P F io fresh style now s =
     (case setup_resume P F io s of
        Inl e \<Rightarrow> (Inl e, s)
      | Inr (Some existing) \<Rightarrow> (Inr existing, s)
      | Inr None \<Rightarrow>
          if \<not> offers (sf_capabilities F) style then (Inl (AuUnsupported (style_signer_kind style)), s)
          else case load_four X io fresh (ss_store s) of
            (Inl e, st) \<Rightarrow> (Inl e, s\<lparr>ss_store := st\<rparr>)
          | (Inr ks, st) \<Rightarrow>
              let s1 = s\<lparr>ss_store := st\<rparr> in
              (case sf_create F style (device_confirmation style = OsUserVerification) of
                 Inl e \<Rightarrow> (Inl e, s1)
               | Inr c \<Rightarrow>
                   (case new_profile X style now c ks of
                      Inl e \<Rightarrow> (Inl e, s1)
                    | Inr p \<Rightarrow>
                        (case write_profile P io p s1 of
                           (Inl e, s2) \<Rightarrow> (Inl e, s2)
                         | (Inr _, s2) \<Rightarrow>
                             (Inr \<lparr>pp_profile = p, pp_signer = cs_provider c, pp_pending = pending_for F p\<rparr>, s2)))))"

definition adopt_account ::
  "profile_codec \<Rightarrow> signer_factory \<Rightarrow> setup_io \<Rightarrow> bytes \<Rightarrow> setup_state \<Rightarrow> (auth_error + pending list) \<times> setup_state" where
  "adopt_account P F io account s =
     (case setup_profile P io s of
        Inl e \<Rightarrow> (Inl e, s)
      | Inr None \<Rightarrow> (Inl (AuHardware ''this device has not been set up yet''), s)
      | Inr (Some p) \<Rightarrow>
          (case dp_account p of
             Some existing \<Rightarrow>
               if existing \<noteq> account
               then (Inl (AuMalformed ''this device already belongs to another owner account''), s)
               else (Inr (pending_for F p), s)
           | None \<Rightarrow>
               let p' = p\<lparr>dp_account := Some account\<rparr> in
               (case write_profile P io p' s of (Inl e, s') \<Rightarrow> (Inl e, s') | (Inr _, s') \<Rightarrow> (Inr (pending_for F p'), s'))))"

definition setup_owner_keys ::
  "'x crypto_scheme \<Rightarrow> setup_io \<Rightarrow> (string \<Rightarrow> bytes) \<Rightarrow> setup_state \<Rightarrow> (auth_error + owner_keys) \<times> setup_state" where
  "setup_owner_keys X io fresh s =
     (if \<not> is_set_up s then (Inl (AuHardware ''this device has not been set up yet''), s)
      else case setup_x25519 X io OWNER_SEALING (fresh OWNER_SEALING) (ss_store s) of
        (Inl e, st) \<Rightarrow> (Inl e, s\<lparr>ss_store := st\<rparr>)
      | (Inr k, st) \<Rightarrow>
          (case setup_ed25519 io OWNER_SIGNING (fresh OWNER_SIGNING) st of
             (Inl e, st') \<Rightarrow> (Inl e, s\<lparr>ss_store := st'\<rparr>)
           | (Inr sg, st') \<Rightarrow> (Inr \<lparr>sealing = k, signing = sg\<rparr>, s\<lparr>ss_store := st'\<rparr>)))"

definition setup_device_keys ::
  "'x crypto_scheme \<Rightarrow> setup_io \<Rightarrow> (string \<Rightarrow> bytes) \<Rightarrow> setup_state \<Rightarrow> (auth_error + device_key_pair) \<times> setup_state" where
  "setup_device_keys X io fresh s =
     (if \<not> is_set_up s then (Inl (AuHardware ''this device has not been set up yet''), s)
      else case setup_x25519 X io DEVICE_X25519 (fresh DEVICE_X25519) (ss_store s) of
        (Inl e, st) \<Rightarrow> (Inl e, s\<lparr>ss_store := st\<rparr>)
      | (Inr k, st) \<Rightarrow>
          (case setup_ed25519 io DEVICE_ED25519 (fresh DEVICE_ED25519) st of
             (Inl e, st') \<Rightarrow> (Inl e, s\<lparr>ss_store := st'\<rparr>)
           | (Inr sg, st') \<Rightarrow> (Inr \<lparr>kp_envelope = k, kp_signing = sg\<rparr>, s\<lparr>ss_store := st'\<rparr>)))"

fun delete_all :: "setup_io \<Rightarrow> string list \<Rightarrow> key_store \<Rightarrow> (auth_error + unit) \<times> key_store" where
  "delete_all io [] st = (Inr (), st)"
| "delete_all io (n # ns) st =
     (case store_delete io n st of (Inl e, st') \<Rightarrow> (Inl e, st') | (Inr _, st') \<Rightarrow> delete_all io ns st')"

definition forget :: "setup_io \<Rightarrow> setup_state \<Rightarrow> (auth_error + unit) \<times> setup_state" where
  "forget io s =
     (case delete_all io [DEVICE_X25519, DEVICE_ED25519, OWNER_SEALING, OWNER_SIGNING] (ss_store s) of
        (Inl e, st) \<Rightarrow> (Inl e, s\<lparr>ss_store := st\<rparr>)
      | (Inr _, st) \<Rightarrow>
          let s1 = s\<lparr>ss_store := st\<rparr> in
          if ss_profile s1 = None then (Inr (), s1)
          else if so_remove io then (Inr (), s1\<lparr>ss_profile := None\<rparr>)
          else (Inl (AuHardware ''remove profile''), s1))"

subsection \<open>Nothing a device is changes under it\<close>

definition profile_lawful :: "profile_codec \<Rightarrow> bool" where
  "profile_lawful P \<longleftrightarrow> (\<forall>p bs. pc_to P p = Inr bs \<longrightarrow> pc_from P bs = Inr p)"

definition stored_profile :: "profile_codec \<Rightarrow> setup_state \<Rightarrow> device_profile option" where
  "stored_profile P s = (case ss_profile s of None \<Rightarrow> None | Some bs \<Rightarrow> res_ok (pc_from P bs))"

definition same_device :: "device_profile \<Rightarrow> device_profile \<Rightarrow> bool" where
  "same_device p p' \<longleftrightarrow> p'\<lparr>dp_account := None\<rparr> = p\<lparr>dp_account := None\<rparr> \<and>
     (dp_account p \<noteq> None \<longrightarrow> dp_account p' = dp_account p)"

lemma same_device_refl [simp]: "same_device p p"
  by (simp add: same_device_def)

lemma same_device_trans: "same_device p q \<Longrightarrow> same_device q r \<Longrightarrow> same_device p r"
  by (auto simp: same_device_def)

lemma setup_secret_keeps: "setup_secret io n f st = (r, st') \<Longrightarrow> st \<subseteq>\<^sub>m st'"
  by (auto simp: setup_secret_def store_get_def store_put_def map_le_def split: if_splits option.splits sum.splits)

lemma setup_key_keeps:
  "setup_x25519 X io n f st = (r, st') \<Longrightarrow> st \<subseteq>\<^sub>m st'"
  "setup_ed25519 io n f st = (r2, st') \<Longrightarrow> st \<subseteq>\<^sub>m st'"
  by (auto simp: setup_x25519_def setup_ed25519_def split: sum.splits prod.splits dest: setup_secret_keeps)

lemma load_four_keeps: "load_four X io fresh st = (r, st') \<Longrightarrow> st \<subseteq>\<^sub>m st'"
  unfolding load_four_def
  by (auto split: sum.splits prod.splits dest!: setup_key_keeps intro: map_le_trans)

lemma write_profile_cases:
  assumes "write_profile P io p s = (r, s')" and "profile_lawful P"
  shows "ss_store s' = ss_store s" and "(\<exists>e. r = Inl e \<and> s' = s) \<or> (r = Inr () \<and> stored_profile P s' = Some p)"
  using assms
  by (auto simp: write_profile_def profile_lawful_def stored_profile_def res_ok_def split: if_splits sum.splits)

inductive setup_step :: "'x crypto_scheme \<Rightarrow> profile_codec \<Rightarrow> signer_factory \<Rightarrow> setup_state \<Rightarrow> setup_state \<Rightarrow> bool"
  for X P F where
  sp_complete: "setup_complete X P F io fresh style now s = (r, s') \<Longrightarrow> setup_step X P F s s'"
| sp_adopt: "adopt_account P F io account s = (r2, s') \<Longrightarrow> setup_step X P F s s'"
| sp_owner: "setup_owner_keys X io fresh s = (r3, s') \<Longrightarrow> setup_step X P F s s'"
| sp_device: "setup_device_keys X io fresh s = (r4, s') \<Longrightarrow> setup_step X P F s s'"

inductive setup_run :: "'x crypto_scheme \<Rightarrow> profile_codec \<Rightarrow> signer_factory \<Rightarrow> setup_state \<Rightarrow> setup_state \<Rightarrow> bool"
  for X P F where
  sr_nil: "setup_run X P F s s"
| sr_step: "setup_step X P F s s1 \<Longrightarrow> setup_run X P F s1 s' \<Longrightarrow> setup_run X P F s s'"

lemma keys_step:
  assumes "setup_owner_keys X io fresh s = (r, s') \<or> setup_device_keys X io fresh s = (r2, s')"
  shows "ss_store s \<subseteq>\<^sub>m ss_store s'" and "ss_profile s' = ss_profile s"
proof -
  show "ss_profile s' = ss_profile s"
    using assms by (auto simp: setup_owner_keys_def setup_device_keys_def split: if_splits sum.splits prod.splits)
  show "ss_store s \<subseteq>\<^sub>m ss_store s'"
    using assms
    by (auto simp: setup_owner_keys_def setup_device_keys_def split: if_splits sum.splits prod.splits
        dest!: setup_key_keeps intro: map_le_trans)
qed

lemma write_profile_store [simp]: "ss_store (snd (write_profile P io p s)) = ss_store s"
  by (simp add: write_profile_def split: sum.splits)

lemma complete_store_fresh:
  assumes "setup_resume P F io s = Inr None" and "offers (sf_capabilities F) style"
    and "load_four X io fresh (ss_store s) = (r, st)"
  shows "ss_store (snd (setup_complete X P F io fresh style now s)) = st"
proof (cases r)
  case (Inr ks)
  have wp: "write_profile P io p s1 = (q, s2) \<Longrightarrow> ss_store s2 = ss_store s1" for p s1 q s2
    using write_profile_store [of P io p s1] by simp
  then show ?thesis
    using assms Inr by (auto simp: setup_complete_def Let_def split: sum.split prod.split dest: wp)
qed (use assms in \<open>simp add: setup_complete_def\<close>)

lemma complete_store_idle:
  assumes "\<not> (setup_resume P F io s = Inr None \<and> offers (sf_capabilities F) style)"
  shows "snd (setup_complete X P F io fresh style now s) = s"
  using assms by (auto simp: setup_complete_def split: sum.split option.split)

lemma complete_step:
  assumes "setup_complete X P F io fresh style now s = (r, s')"
  shows "ss_store s \<subseteq>\<^sub>m ss_store s'" and "ss_profile s \<noteq> None \<Longrightarrow> ss_profile s' = ss_profile s"
proof -
  have s': "s' = snd (setup_complete X P F io fresh style now s)" using assms by simp
  show "ss_store s \<subseteq>\<^sub>m ss_store s'"
  proof (cases "setup_resume P F io s = Inr None \<and> offers (sf_capabilities F) style")
    case True
    obtain q st where q: "load_four X io fresh (ss_store s) = (q, st)" by fastforce
    show ?thesis using complete_store_fresh [OF _ _ q] True load_four_keeps [OF q] s' by simp
  qed (simp add: s' complete_store_idle)
  show "ss_profile s' = ss_profile s" if "ss_profile s \<noteq> None"
  proof -
    have "setup_resume P F io s \<noteq> Inr None"
      using that by (auto simp: setup_resume_def setup_profile_def rbind_eq_Inr split: if_splits)
    then show ?thesis using s' complete_store_idle by metis
  qed
qed

lemma adopt_step:
  assumes "adopt_account P F io account s = (r, s')" and "profile_lawful P"
  shows "ss_store s' = ss_store s"
    and "stored_profile P s = Some p \<Longrightarrow> \<exists>p'. stored_profile P s' = Some p' \<and> same_device p p'"
proof -
  consider "s' = s" | p0 r' where "setup_profile P io s = Inr (Some p0)" "dp_account p0 = None"
    "write_profile P io (p0\<lparr>dp_account := Some account\<rparr>) s = (r', s')"
    using assms(1)
    by (auto simp: adopt_account_def Let_def split: sum.splits option.splits prod.splits if_splits)
  note cases = this
  show "ss_store s' = ss_store s"
    by (rule cases) (auto dest: write_profile_cases(1) [OF _ assms(2)])
  show "\<exists>p'. stored_profile P s' = Some p' \<and> same_device p p'" if "stored_profile P s = Some p"
  proof (rule cases)
    fix p0 r'
    assume p0: "setup_profile P io s = Inr (Some p0)" "dp_account p0 = None"
      and w: "write_profile P io (p0\<lparr>dp_account := Some account\<rparr>) s = (r', s')"
    have "p0 = p"
      using p0(1) that
      by (auto simp: setup_profile_def stored_profile_def rbind_eq_Inr map_err_def res_ok_def
          split: option.splits if_splits sum.splits)
    then show ?thesis using write_profile_cases(2) [OF w assms(2)] that p0(2) by (auto simp: same_device_def)
  qed (use that in auto)
qed

lemma stored_profile_cong: "ss_profile s' = ss_profile s \<Longrightarrow> stored_profile P s' = stored_profile P s"
  by (simp add: stored_profile_def)

lemma setup_step_stable:
  assumes "setup_step X P F s s'" and "profile_lawful P"
  shows "ss_store s \<subseteq>\<^sub>m ss_store s' \<and>
    (\<forall>p. stored_profile P s = Some p \<longrightarrow> (\<exists>p'. stored_profile P s' = Some p' \<and> same_device p p'))"
  using assms(1)
proof cases
  case (sp_complete io fresh style now r)
  have "stored_profile P s' = stored_profile P s" if "stored_profile P s = Some p" for p
    using complete_step(2) [OF sp_complete] that stored_profile_cong
    by (metis option.distinct(1) option.simps(4) stored_profile_def)
  then show ?thesis using complete_step(1) [OF sp_complete] by force
next
  case (sp_adopt io account r2)
  then show ?thesis using adopt_step [OF sp_adopt assms(2)] by simp
next
  case (sp_owner io fresh r3)
  then show ?thesis using keys_step(1) [OF disjI1 [OF sp_owner]] stored_profile_cong [OF keys_step(2) [OF disjI1 [OF sp_owner]]] by simp
next
  case (sp_device io fresh r4)
  then show ?thesis using keys_step(1) [OF disjI2 [OF sp_device]] stored_profile_cong [OF keys_step(2) [OF disjI2 [OF sp_device]]] by simp
qed

lemma setup_run_stable:
  assumes "setup_run X P F s s'" and "profile_lawful P"
  shows "ss_store s \<subseteq>\<^sub>m ss_store s' \<and>
    (\<forall>p. stored_profile P s = Some p \<longrightarrow> (\<exists>p'. stored_profile P s' = Some p' \<and> same_device p p'))"
  using assms(1)
proof induction
  case (sr_step s s1 s')
  from setup_step_stable [OF sr_step(1) assms(2)] sr_step(3) show ?case
    by (meson map_le_trans same_device_trans)
qed simp

lemma complete_stores:
  assumes "setup_complete X P F io fresh style now s = (Inr pp, s')" and "profile_lawful P"
  shows "stored_profile P s' = Some (pp_profile pp)"
proof (cases "setup_resume P F io s")
  case (Inr op)
  show ?thesis
  proof (cases op)
    case None
    then show ?thesis
      using assms Inr
      by (auto simp: setup_complete_def Let_def split: if_splits sum.splits prod.splits
          dest!: write_profile_cases(2) [OF _ assms(2)])
  next
    case (Some existing)
    then have "s' = s" "pp = existing" using assms(1) Inr by (auto simp: setup_complete_def)
    then show ?thesis
      using Inr Some
      by (auto simp: setup_resume_def setup_profile_def stored_profile_def rbind_eq_Inr map_err_def res_ok_def
          split: option.splits if_splits sum.splits)
  qed
qed (use assms(1) in \<open>auto simp: setup_complete_def\<close>)

subsection \<open>A sample device\<close>

definition sample_factory :: signer_factory where
  "sample_factory =
     \<lparr>sf_capabilities = \<lparr>cp_os_authenticator = False, cp_hardware_key = False, cp_persistent_store = True\<rparr>,
      sf_create = (\<lambda>_ _. Inr \<lparr>cs_provider = \<lparr>si_kind = DeviceKey, si_key_id = [5], si_public_key = None\<rparr>,
                               cs_credential = None, cs_hardware_backed = False\<rparr>),
      sf_reopen = (\<lambda>_. Inr \<lparr>si_kind = DeviceKey, si_key_id = [5], si_public_key = None\<rparr>)\<rparr>"

definition sample_profile :: device_profile where
  "sample_profile =
     \<lparr>dp_schema = 1, dp_style = ThisDevice, dp_signer = DeviceKey, dp_key_id = [5], dp_public_key = None,
      dp_credential = [], dp_require_os_confirm = False, dp_hardware_backed = False,
      dp_device_x25519_pub = replicate 32 1, dp_device_ed25519_pub = replicate 32 1,
      dp_owner_sealing_pub = replicate 32 1, dp_owner_signing_pub = replicate 32 1, dp_account = None,
      dp_enrolled_on_chain = False, dp_created_at = 9\<rparr>"

text \<open>A codec that knows the fresh profile and the one with the account \<open>[7]\<close>.\<close>

definition sample_codec :: profile_codec where
  "sample_codec =
     (let q = sample_profile\<lparr>dp_account := Some [7]\<rparr> in
      \<lparr>pc_to = (\<lambda>p. if p = sample_profile then Inr [0] else if p = q then Inr [1] else Inl []),
       pc_from = (\<lambda>bs. if bs = [0] then Inr sample_profile else if bs = [1] then Inr q else Inl [])\<rparr>)"

lemma sample_codec_lawful: "profile_lawful sample_codec"
  by (simp add: profile_lawful_def sample_codec_def Let_def)

definition sample_secrets :: key_store where
  "sample_secrets = [DEVICE_X25519 \<mapsto> replicate 32 1, DEVICE_ED25519 \<mapsto> replicate 32 1,
     OWNER_SEALING \<mapsto> replicate 32 1, OWNER_SIGNING \<mapsto> replicate 32 1]"

lemma good_secret: "st n = None \<Longrightarrow> setup_secret good_keychain n f st = (Inr f, st(n \<mapsto> f))"
  by (simp add: setup_secret_def store_get_def store_put_def good_keychain_def)

lemma good_load:
  assumes "\<And>n. length (fresh n) = 32"
  shows "load_four X good_keychain fresh Map.empty =
    (Inr (\<lparr>x25519_sk = fresh DEVICE_X25519, x25519_pk = x25519_base X (fresh DEVICE_X25519)\<rparr>, fresh DEVICE_ED25519,
          \<lparr>x25519_sk = fresh OWNER_SEALING, x25519_pk = x25519_base X (fresh OWNER_SEALING)\<rparr>, fresh OWNER_SIGNING),
     [DEVICE_X25519 \<mapsto> fresh DEVICE_X25519, DEVICE_ED25519 \<mapsto> fresh DEVICE_ED25519,
      OWNER_SEALING \<mapsto> fresh OWNER_SEALING, OWNER_SIGNING \<mapsto> fresh OWNER_SIGNING])"
proof -
  have names: "distinct [OWNER_SIGNING, OWNER_SEALING, DEVICE_ED25519, DEVICE_X25519]"
    by (simp add: DEVICE_X25519_def DEVICE_ED25519_def OWNER_SEALING_def OWNER_SIGNING_def)
  then show ?thesis
    using assms
    by (simp add: load_four_def setup_x25519_def setup_ed25519_def good_secret device_keys_from_secret_def
        x25519_public_def signing_keys_from_secret_def)
qed

section \<open>Properties\<close>

text \<open>C31. A device keeps its identity: after setup has finished, over any sequence of setup calls but
  forgetting the device, with whichever failing, no stored secret changes, the profile stays that of
  the same device, and once it names an owner account it names that account for good.\<close>

theorem device_identity_stable:
  assumes "profile_lawful P" and "setup_complete X P F io fresh style now s0 = (Inr pp, s)" and "setup_run X P F s s'"
  shows "(\<forall>n v. ss_store s n = Some v \<longrightarrow> ss_store s' n = Some v) \<and>
    (\<exists>p'. stored_profile P s' = Some p' \<and> same_device (pp_profile pp) p')"
proof -
  have "ss_store s \<subseteq>\<^sub>m ss_store s'" "\<exists>p'. stored_profile P s' = Some p' \<and> same_device (pp_profile pp) p'"
    using setup_run_stable [OF assms(3,1)] complete_stores [OF assms(2,1)] by blast+
  then show ?thesis by (auto simp: map_le_def dom_def)
qed

theorem device_identity_stable_witness:
  "\<exists>pp s s'. setup_complete (sample_lib sample_uncbor) sample_codec sample_factory good_keychain
      (\<lambda>_. replicate 32 1) ThisDevice 9 \<lparr>ss_store = Map.empty, ss_profile = None\<rparr> = (Inr pp, s) \<and>
    setup_run (sample_lib sample_uncbor) sample_codec sample_factory s s' \<and> ss_profile s' = Some [1] \<and>
    ss_store s' OWNER_SIGNING = Some (replicate 32 1)"
proof -
  let ?X = "sample_lib sample_uncbor" and ?P = sample_codec and ?F = sample_factory
  let ?s = "\<lparr>ss_store = sample_secrets, ss_profile = Some [0]\<rparr>"
  let ?s' = "\<lparr>ss_store = sample_secrets, ss_profile = Some [1]\<rparr>"
  let ?pp = "\<lparr>pp_profile = sample_profile, pp_signer = \<lparr>si_kind = DeviceKey, si_key_id = [5], si_public_key = None\<rparr>,
     pp_pending = pending_for ?F sample_profile\<rparr>"
  have done_: "setup_complete ?X ?P ?F good_keychain (\<lambda>_. replicate 32 1) ThisDevice 9
      \<lparr>ss_store = Map.empty, ss_profile = None\<rparr> = (Inr ?pp, ?s)"
    using good_load [of "\<lambda>_. replicate 32 1" ?X]
    by (simp add: setup_complete_def setup_resume_def setup_profile_def sample_factory_def new_profile_def fixed32_def
        write_profile_def good_keychain_def verifying_key_def sample_profile_def sample_codec_def Let_def
        PROFILE_SCHEMA_def sample_secrets_def)
  have "adopt_account ?P ?F good_keychain [7] ?s = (Inr (pending_for ?F (sample_profile\<lparr>dp_account := Some [7]\<rparr>)), ?s')"
    by (simp add: adopt_account_def setup_profile_def write_profile_def good_keychain_def sample_codec_def
        sample_profile_def PROFILE_SCHEMA_def Let_def)
  then have run: "setup_run ?X ?P ?F ?s ?s'" using sr_step [OF sp_adopt sr_nil] by blast
  show ?thesis
    using device_identity_stable [OF sample_codec_lawful done_ run] done_ run
    by (intro exI [of _ ?pp] exI [of _ ?s] exI [of _ ?s']) (simp add: sample_secrets_def OWNER_SIGNING_def)
qed

text \<open>A device whose keychain lost the owner's secrets gets new ones without notice, although the
  profile still names the old public keys.\<close>

theorem lost_owner_keys_are_reinvented:
  assumes "is_set_up s" and "ss_store s OWNER_SEALING = None" and "ss_store s OWNER_SIGNING = None"
    and "length (fresh OWNER_SEALING) = 32" and "length (fresh OWNER_SIGNING) = 32"
  shows "\<exists>s'. setup_owner_keys X good_keychain fresh s =
    (Inr \<lparr>sealing = \<lparr>x25519_sk = fresh OWNER_SEALING, x25519_pk = x25519_base X (fresh OWNER_SEALING)\<rparr>,
          signing = fresh OWNER_SIGNING\<rparr>, s') \<and> ss_profile s' = ss_profile s"
  using assms
  by (auto simp: setup_owner_keys_def setup_x25519_def setup_ed25519_def setup_secret_def store_get_def store_put_def
      good_keychain_def device_keys_from_secret_def x25519_public_def signing_keys_from_secret_def
      OWNER_SEALING_def OWNER_SIGNING_def)

end
