(* ===== verification/Agent_Seal.thy ===== *)
theory Agent_Seal
  imports Container_Files Workspace Auth_Setup
begin

text \<open>
  Locking a file (\<open>apps/agent/src-tauri/src/seal.rs\<close>): the presets of the lock screen as a
  header policy, the check of a dropped path, the sealing itself with its read-back, and erasing
  the original. What the file system answers about a path is its content, or that it is a folder,
  missing or unreadable. A path given by the screen is already split into directory and name;
  \<open>hexe\<close> is the third-party \<open>hex::encode\<close>.
\<close>

definition SEALED_EXT :: string where "SEALED_EXT = ''zbacs''"

datatype permission_arg = PaReadOnly | PaEdit
datatype ttl_arg = Hour | Day | Week
datatype opens_arg = Once | Thrice | Unlimited

record seal_request =
  sr_path :: path
  sr_permission :: permission_arg
  sr_ttl :: ttl_arg
  sr_opens :: opens_arg

definition request_policy :: "seal_request \<Rightarrow> policy" where
  "request_policy q =
     \<lparr>pol_default = (case sr_permission q of PaReadOnly \<Rightarrow> ReadOnly | PaEdit \<Rightarrow> Edit),
      pol_ttl = (case sr_ttl q of Hour \<Rightarrow> 3600 | Day \<Rightarrow> 86400 | Week \<Rightarrow> 604800),
      pol_max = (case sr_opens q of Once \<Rightarrow> 1 | Thrice \<Rightarrow> 3 | Unlimited \<Rightarrow> 0),
      pol_pin = True, pol_strict = False\<rparr>"

record seal_result =
  sl_output :: path
  sl_output_name :: string
  sl_original :: path
  sl_size :: nat
  sl_pending :: "string list"
  sl_fid :: string
  sl_header_hash :: string
  sl_tx_hash :: "string option"

text \<open>What the agent's checks ask of the operating system besides contents.\<close>

record os_view =
  ov_dirs :: "path set"
  ov_denied :: "path set"

definition sealed_path :: "path \<Rightarrow> path" where
  "sealed_path source = (fst source, snd source @ ''.'' @ SEALED_EXT)"

definition exists_path :: "os_view \<Rightarrow> fs \<Rightarrow> path \<Rightarrow> bool" where
  "exists_path v fs p \<longleftrightarrow> p \<in> ov_dirs v \<or> fs p \<noteq> None \<and> p \<notin> ov_denied v"

text \<open>\<open>Path::extension\<close>: what follows the last dot, unless the name has no other part.\<close>

definition extension :: "string \<Rightarrow> string option" where
  "extension f =
     (let ext = takeWhile (\<lambda>c. c \<noteq> CHR ''.'') (rev f); before = dropWhile (\<lambda>c. c \<noteq> CHR ''.'') (rev f) in
      if f = ''..'' \<or> before = [] \<or> tl before = [] then None else Some (rev ext))"

definition ascii_lower :: "char \<Rightarrow> char" where
  "ascii_lower c = (let n = of_char c :: nat in if 65 \<le> n \<and> n \<le> 90 then char_of (n + 32) else c)"

definition eq_ignore_ascii_case :: "string \<Rightarrow> string \<Rightarrow> bool" where
  "eq_ignore_ascii_case a b \<longleftrightarrow> map ascii_lower a = map ascii_lower b"

record candidate =
  ca_path :: path
  ca_name :: string
  ca_size :: "nat option"
  ca_ok :: bool
  ca_problem :: "string option"

definition examine :: "os_view \<Rightarrow> fs \<Rightarrow> path \<Rightarrow> candidate" where
  "examine v fs p =
     (let c = \<lparr>ca_path = p, ca_name = snd p, ca_size = None, ca_ok = False, ca_problem = Some ''unreadable''\<rparr> in
      if p \<in> ov_denied v then c
      else if p \<in> ov_dirs v then c\<lparr>ca_problem := Some ''is_folder''\<rparr>
      else case fs p of
        None \<Rightarrow> c\<lparr>ca_problem := Some ''missing''\<rparr>
      | Some content \<Rightarrow>
          let c = c\<lparr>ca_size := Some (length content)\<rparr> in
          if (case extension (snd p) of Some e \<Rightarrow> eq_ignore_ascii_case e SEALED_EXT | None \<Rightarrow> False)
          then c\<lparr>ca_problem := Some ''already_locked''\<rparr>
          else if length content = 0 then c\<lparr>ca_problem := Some ''empty''\<rparr>
          else if exists_path v fs (sealed_path p) then c\<lparr>ca_problem := Some ''output_exists''\<rparr>
          else c\<lparr>ca_ok := True, ca_problem := None\<rparr>)"

definition owner_account :: "device_profile \<Rightarrow> bytes" where
  "owner_account prof = (case dp_account prof of Some a \<Rightarrow> a | None \<Rightarrow> dp_owner_signing_pub prof)"

definition seal_now ::
  "(bytes \<Rightarrow> string) \<Rightarrow> 'x core_lib_scheme \<Rightarrow> io_env \<Rightarrow> os_view \<Rightarrow> seal_rng \<Rightarrow> owner_keys \<Rightarrow> device_profile \<Rightarrow> seal_request \<Rightarrow> fs \<Rightarrow>
     (string + seal_result) \<times> fs" where
  "seal_now hexe X io v rng owner prof q fs =
     (let source = sr_path q; checked = examine v fs source in
      if \<not> ca_ok checked then (Inl (case ca_problem checked of Some e \<Rightarrow> e | None \<Rightarrow> ''unreadable''), fs)
      else
        let output = sealed_path source;
            opts = (seal_options_new (owner_account prof) (ascii (snd source)))\<lparr>so_policy := request_policy q\<rparr>
        in case seal_to_path X io rng source output owner opts fs of
             (Inl _, fs1) \<Rightarrow> (Inl ''failed'', fs1)
           | (Inr _, fs1) \<Rightarrow>
               let size = (case fs1 output of Some c \<Rightarrow> length c | None \<Rightarrow> 0) in
               (case rbind (ok_or (fs1 output) Io) (inspect X) of
                  Inl _ \<Rightarrow> (Inl ''failed'', fs1)
                | Inr (h, hh) \<Rightarrow>
                    (Inr \<lparr>sl_output = output, sl_output_name = snd output, sl_original = source, sl_size = size,
                          sl_pending = [''chain_registration''], sl_fid = hexe (hb_fid (hdr_body h)),
                          sl_header_hash = hexe hh, sl_tx_hash = None\<rparr>, fs1)))"

definition shred_original :: "path set \<Rightarrow> os_view \<Rightarrow> path \<Rightarrow> disk \<Rightarrow> (string + unit) \<times> disk" where
  "shred_original locked v source d =
     (if \<not> exists_path v (dk_files d) (sealed_path source) then (Inl ''no_locked_copy'', d)
      else case secure_delete locked source d of
        (Inl _, d') \<Rightarrow> (Inl ''failed'', d')
      | (Inr u, d') \<Rightarrow> (Inr u, d'))"

text \<open>A sample instance of \<open>hex::encode\<close>.\<close>

definition sample_hex :: "bytes \<Rightarrow> string" where
  "sample_hex = map (\<lambda>b. char_of (unat b + 48))"

subsection \<open>Lemmas\<close>

lemma sealed_path_neq [simp]: "sealed_path p \<noteq> p"
  by (cases p) (simp add: sealed_path_def)

lemma examine_ok:
  "ca_ok (examine v fs p) \<longleftrightarrow>
     p \<notin> ov_denied v \<and> p \<notin> ov_dirs v \<and> (\<exists>content. fs p = Some content \<and> content \<noteq> []) \<and>
     \<not> (case extension (snd p) of Some e \<Rightarrow> eq_ignore_ascii_case e SEALED_EXT | None \<Rightarrow> False) \<and>
     \<not> exists_path v fs (sealed_path p)"
  by (auto simp: examine_def Let_def split: option.splits)

lemma seal_now_cases:
  assumes "seal_now hexe X io v rng owner prof q fs = (r, fs')"
  shows "(\<not> ca_ok (examine v fs (sr_path q)) \<and> fs' = fs \<and> (\<exists>e. r = Inl e)) \<or>
    (ca_ok (examine v fs (sr_path q)) \<and>
     (\<exists>r'. seal_to_path X io rng (sr_path q) (sealed_path (sr_path q)) owner
        ((seal_options_new (owner_account prof) (ascii (snd (sr_path q))))\<lparr>so_policy := request_policy q\<rparr>) fs = (r', fs')
        \<and> (case r' of Inl _ \<Rightarrow> r = Inl ''failed''
           | Inr _ \<Rightarrow> r = Inl ''failed'' \<or> (\<exists>file h hh. fs' (sealed_path (sr_path q)) = Some file \<and>
               inspect X file = Inr (h, hh) \<and> (\<exists>res. r = Inr res \<and> sl_output res = sealed_path (sr_path q) \<and>
                 sl_original res = sr_path q \<and> sl_fid res = hexe (hb_fid (hdr_body h)) \<and> sl_header_hash res = hexe hh)))))"
  using assms
  by (auto simp: seal_now_def Let_def rbind_eq_Inr ok_or_eq_Inr split: if_splits sum.splits prod.splits option.splits)

lemma seal_now_Inr:
  assumes "seal_now hexe X io v rng owner prof q fs = (Inr res, fs')"
  obtains h' cf h hh where
    "seal_to_path X io rng (sr_path q) (sealed_path (sr_path q)) owner
       ((seal_options_new (owner_account prof) (ascii (snd (sr_path q))))\<lparr>so_policy := request_policy q\<rparr>) fs = (Inr h', fs')"
    "fs' (sealed_path (sr_path q)) = Some cf" "inspect X cf = Inr (h, hh)"
    "sl_output res = sealed_path (sr_path q)" "sl_header_hash res = hexe hh"
  using assms
  by (auto simp: seal_now_def Let_def rbind_eq_Inr ok_or_eq_Inr split: if_splits sum.splits prod.splits option.splits)

lemma file_stem_sealed: "length n \<le> length (file_stem (n @ ''.zbacs''))"
proof -
  have before: "dropWhile (\<lambda>c. c \<noteq> CHR ''.'') (rev (n @ ''.zbacs'')) = CHR ''.'' # rev n" by simp
  then show ?thesis by (simp add: file_stem_def Let_def)
qed

lemma source_not_tmp: "source \<noteq> tmp_path (sealed_path source)"
proof
  assume "source = tmp_path (sealed_path source)"
  then have "length (snd source) = length (snd (tmp_path (sealed_path source)))" by simp
  then show False
    using file_stem_sealed [of "snd source"]
    by (simp add: tmp_path_def with_extension_def sealed_path_def SEALED_EXT_def)
qed

lemma seal_now_frame:
  assumes "seal_now hexe X io v rng owner prof q fs = (r, fs')"
  shows "fs' (sr_path q) = fs (sr_path q)"
    and "exists_path v fs (sealed_path (sr_path q)) \<Longrightarrow> fs' = fs \<and> (\<exists>e. r = Inl e)"
    and "r = Inl e \<Longrightarrow> fs' (sealed_path (sr_path q)) = fs (sealed_path (sr_path q)) \<or>
           (\<exists>h file pk sk opts. seal_signed X rng (the (fs (sr_path q))) pk sk opts = (Inr h, file) \<and>
              fs' (sealed_path (sr_path q)) = Some file)"
proof -
  let ?o = "(seal_options_new (owner_account prof) (ascii (snd (sr_path q))))\<lparr>so_policy := request_policy q\<rparr>"
  let ?src = "sr_path q" and ?out = "sealed_path (sr_path q)"
  consider (refused) "\<not> ca_ok (examine v fs ?src)" "fs' = fs" "\<exists>e. r = Inl e"
    | (short) r' where "ca_ok (examine v fs ?src)" "seal_to_path X io rng ?src ?out owner ?o fs = (r', fs')"
    using seal_now_cases [OF assms] by blast
  note cases = this
  have frame: "fs' p = fs p" if "seal_to_path X io rng ?src ?out owner ?o fs = (r', fs')" "p \<noteq> ?out" "p \<noteq> tmp_path ?out" for p r'
    using that by (rule seal_to_path_frame)
  show "fs' ?src = fs ?src"
  proof (rule cases)
    fix r'
    assume "seal_to_path X io rng ?src ?out owner ?o fs = (r', fs')"
    then show ?thesis by (rule frame) (use sealed_path_neq [of ?src, symmetric] source_not_tmp [of ?src] in simp_all)
  qed simp
  show "fs' = fs \<and> (\<exists>e. r = Inl e)" if "exists_path v fs ?out"
    by (rule cases) (use that in \<open>auto simp: examine_ok\<close>)
  show "fs' ?out = fs ?out \<or> (\<exists>h file pk sk opts. seal_signed X rng (the (fs ?src)) pk sk opts = (Inr h, file) \<and>
              fs' ?out = Some file)"
  proof (rule cases)
    fix r'
    assume s: "seal_to_path X io rng ?src ?out owner ?o fs = (r', fs')"
    show ?thesis
    proof (cases "length (x25519_pk (sealing owner)) = 32")
      case True
      then have ss: "seal_signed_to_path X io rng ?src ?out (x25519_pk (sealing owner)) (signing owner) ?o fs = (r', fs')"
        using s by (simp add: seal_to_path_def)
      show ?thesis
      proof (cases r')
        case (Inl e)
        then show ?thesis using seal_signed_to_path_cases(2) [OF ss Inl] by simp
      next
        case (Inr h)
        then show ?thesis using seal_signed_to_path_cases(3) [OF ss Inr] source_not_tmp [of ?src] by auto
      qed
    qed (use s in \<open>auto simp: seal_to_path_def\<close>)
  qed simp
qed

section \<open>Properties\<close>

text \<open>Locking never destroys anything: whatever happens, the original keeps its content; if a file
  or folder with the locked name is already there, nothing at all changes and the lock is refused;
  otherwise the locked name is either untouched or holds a completely sealed copy. Erasing the
  original is refused when no locked copy sits beside it.\<close>

theorem locking_never_overwrites:
  assumes "seal_now hexe X io v rng owner prof q fs = (r, fs')"
  shows "fs' (sr_path q) = fs (sr_path q) \<and>
    (exists_path v fs (sealed_path (sr_path q)) \<longrightarrow> fs' = fs \<and> \<not> is_ok r) \<and>
    (\<not> exists_path v (dk_files d) (sealed_path p) \<longrightarrow>
       shred_original locked v p d = (Inl ''no_locked_copy'', d))"
  using seal_now_frame(1,2) [OF assms] by (auto simp: shred_original_def)

theorem locking_never_overwrites_witness:
  "snd (seal_now sample_hex sampleX sample_io \<lparr>ov_dirs = {}, ov_denied = {}\<rparr> sample_rng \<lparr>sealing = sample_keys, signing = []\<rparr>
      (sample_profile\<lparr>dp_account := Some [1]\<rparr>)
      \<lparr>sr_path = ([], ''a''), sr_permission = PaReadOnly, sr_ttl = Hour, sr_opens = Once\<rparr>
      [([], ''a'') \<mapsto> [42], ([], ''a.zbacs'') \<mapsto> [1]]) ([], ''a.zbacs'') = Some [1]"
proof -
  let ?fs = "[([], ''a'') \<mapsto> [42], ([], ''a.zbacs'') \<mapsto> [1 :: byte]] :: fs"
  let ?q = "\<lparr>sr_path = ([], ''a''), sr_permission = PaReadOnly, sr_ttl = Hour, sr_opens = Once\<rparr>"
  let ?v = "\<lparr>ov_dirs = {}, ov_denied = {}\<rparr>"
  have "exists_path ?v ?fs (sealed_path (sr_path ?q))"
    by (simp add: exists_path_def sealed_path_def SEALED_EXT_def)
  then show ?thesis
    using locking_never_overwrites [of sample_hex sampleX sample_io ?v sample_rng "\<lparr>sealing = sample_keys, signing = []\<rparr>"
        "(sample_profile\<lparr>dp_account := Some [1]\<rparr>)" ?q ?fs, OF prod.collapse [symmetric]] by simp
qed

text \<open>C35. What is locked opens again for its owner: after a successful lock the copy beside the original
  opens with the owner's own key to the original's content under its name, and the reported header
  hash is the one of the header in it.\<close>

theorem locked_file_opens:
  assumes "aead_exact X" and "hash_lengths X" and "hpke_opens X" and "hpke_small X" and "ed25519_signs X"
    and "keys_wf X (sealing owner)" and "length (rng_dek rng) = 32"
    and "seal_now hexe X io v rng owner prof q fs = (Inr res, fs')" and "fs (sr_path q) = Some content"
    and "0 < length (owner_account prof)" and "length (owner_account prof) \<le> 64"
    and "utf8_valid (ascii (snd (sr_path q)))" and "length content < 2 ^ 64"
    and "\<And>h file hb. seal_signed X rng content (x25519_pk (sealing owner)) (signing owner)
           ((seal_options_new (owner_account prof) (ascii (snd (sr_path q))))\<lparr>so_policy := request_policy q\<rparr>)
             = (Inr h, file) \<Longrightarrow> cbor_header X h = Inr hb \<Longrightarrow> uncbor_header X hb = Inr h"
  shows "\<exists>file opened. fs' (sl_output res) = Some file \<and>
    open_container X file (sealing owner) = (Inr opened, content) \<and>
    op_file_name opened = ascii (snd (sr_path q)) \<and> hexe (op_header_hash opened) = sl_header_hash res \<and>
    hb_pol (hdr_body (op_header opened)) = request_policy q"
proof -
  let ?o = "(seal_options_new (owner_account prof) (ascii (snd (sr_path q))))\<lparr>so_policy := request_policy q\<rparr>"
  let ?out = "sealed_path (sr_path q)" and ?pk = "x25519_pk (sealing owner)"
  from seal_now_Inr [OF assms(8)] obtain h' cf h hh where
    s: "seal_to_path X io rng (sr_path q) ?out owner ?o fs = (Inr h', fs')"
    and f: "fs' ?out = Some cf" "inspect X cf = Inr (h, hh)"
    and res: "sl_output res = ?out" "sl_header_hash res = hexe hh" by blast
  then have ss: "seal_signed_to_path X io rng (sr_path q) ?out ?pk (signing owner) ?o fs = (Inr h', fs')"
    by (simp add: seal_to_path_def split: if_splits)
  have sealed: "seal_signed X rng content ?pk (signing owner) ?o = (Inr h', cf)"
    using seal_signed_to_path_cases(3) [OF ss refl] f source_not_tmp [of "sr_path q"] assms(9) by auto
  have lim: "seal_limits ?o" "so_extra_recipients ?o = []" "so_file_name ?o = ascii (snd (sr_path q))"
    using assms(10,11) by (simp_all add: seal_limits_def seal_options_new_def container_consts)
  obtain hh2 where hh2: "header_hash X h' = Inr hh2" and op: "open_container X cf (sealing owner) =
      (Inr \<lparr>op_header = h', op_header_hash = hh2, op_file_name = so_file_name ?o\<rparr>, content)"
    using seal_open_roundtrip [OF assms(1-7) _ _ lim(1) _ assms(13) _ sealed] assms(12,14) sealed lim by auto
  obtain r where "read_header X cf = Inr (h', hh2, r)"
    using device.verified [of X "sealing owner" cf] op by (auto simp: device_keys_open_def)
  then have "h = h'" "hh = hh2" using f(2) by (simp_all add: inspect_def)
  moreover have "hb_pol (hdr_body h') = request_policy q"
    by (rule seal_signed_Inr [OF sealed]) (simp add: seal_header_Inr(6))
  ultimately show ?thesis using op f res lim by auto
qed

lemma sample_dek: "length (rng_dek sample_rng) = 32"
  by (simp add: sample_rng_def)

abbreviation "sample_lock \<equiv> \<lparr>sr_path = ([], ''a''), sr_permission = PaReadOnly, sr_ttl = Hour, sr_opens = Once\<rparr>"

lemma sample_lock_opts:
  "(seal_options_new [1] (ascii ''a''))\<lparr>so_policy := request_policy sample_lock\<rparr> = sample_opts"
  by (simp add: sample_opts_def seal_options_new_def request_policy_def default_policy_def ascii_def)

lemma sample_core_seal_now:
  assumes "sample_core sample_uncbor X"
  shows "seal_now hx X sample_io \<lparr>ov_dirs = {}, ov_denied = {}\<rparr> sample_rng \<lparr>sealing = sample_keys, signing = sk\<rparr>
      (sample_profile\<lparr>dp_account := Some [1]\<rparr>) sample_lock [([], ''a'') \<mapsto> [42]] =
   (Inr \<lparr>sl_output = ([], ''a.zbacs''), sl_output_name = ''a.zbacs'', sl_original = ([], ''a''),
        sl_size = length sample_file, sl_pending = [''chain_registration''], sl_fid = hx (replicate 32 7),
        sl_header_hash = hx (replicate 32 7), sl_tx_hash = None\<rparr>,
    [([], ''a'') \<mapsto> [42], ([], ''a.zbacs'') \<mapsto> sample_file])"
proof -
  let ?fs = "[([], ''a'') \<mapsto> [42 :: byte]] :: fs"
  have ex: "ca_ok (examine \<lparr>ov_dirs = {}, ov_denied = {}\<rparr> ?fs ([], ''a''))"
    by (simp add: examine_def exists_path_def extension_def sealed_path_def SEALED_EXT_def)
  have out: "sealed_path ([], ''a'') = ([], ''a.zbacs'')" by (simp add: sealed_path_def SEALED_EXT_def)
  have seal: "seal_to_path X sample_io sample_rng ([], ''a'') ([], ''a.zbacs'')
      \<lparr>sealing = sample_keys, signing = sk\<rparr> sample_opts ?fs =
      (Inr sample_header, [([], ''a'') \<mapsto> [42], ([], ''a.zbacs'') \<mapsto> sample_file])"
    using sample_core_seal [OF assms]
    by (simp add: seal_to_path_def seal_signed_to_path_def sample_keys_def sample_io_def tmp_path_def
        with_extension_def file_stem_def Let_def written_def fits_def fun_eq_iff)
  have "inspect X sample_file = Inr (sample_header, replicate 32 7)"
    using sample_core_read [OF assms] by (simp add: inspect_def)
  then show ?thesis
    unfolding seal_now_def Let_def
    by (simp add: ex out owner_account_def sample_lock_opts seal ok_or_def) (simp add: sample_header_def)
qed

lemmas sample_seal_now = sample_core_seal_now [OF sample_core_self, where hx = sample_hex and sk = "[]"]

theorem locked_file_opens_witness:
  "\<exists>opened. open_container sampleX sample_file sample_keys = (Inr opened, [42]) \<and>
     hb_pol (hdr_body (op_header opened)) = request_policy sample_lock"
proof -
  have 1: "0 < length (owner_account (sample_profile\<lparr>dp_account := Some [1]\<rparr>))"
    "length (owner_account (sample_profile\<lparr>dp_account := Some [1]\<rparr>)) \<le> 64"
    by (simp_all add: owner_account_def)
  have 2: "utf8_valid (ascii (snd (sr_path sample_lock)))" by code_simp
  have pk: "x25519_pk sample_keys = replicate 32 6" by (simp add: sample_keys_def)
  have 3: "uncbor_header sampleX hb = Inr h"
    if "seal_signed sampleX sample_rng [42] (x25519_pk sample_keys) [] sample_opts = (Inr h, c)"
      "cbor_header sampleX h = Inr hb" for h c hb
    using that by (auto simp: pk sample_seal sample_uncbor_def)
  show ?thesis
    using locked_file_opens [OF sample_lib_ok(2,1,3) sample_small sample_lib_ok(4) _ _ sample_seal_now _ 1 2] 3
    by (fastforce simp: sample_lock_opts owner_account_def sample_dek)
qed

end
