(* ===== verification/Btree_Map.thy ===== *)
theory Btree_Map
  imports Prelude "HOL-Library.Char_ord" "HOL-Library.List_Lexorder"
begin

text \<open>
  Rust's \<open>BTreeMap<String, V>\<close> as an association list kept in key order, with the operations
  the sources call: \<open>insert\<close>, \<open>get\<close>, \<open>get_mut\<close> followed by an assignment,
  \<open>into_values\<close>.
\<close>

type_synonym 'v btree = "(string \<times> 'v) list"

fun bt_insert :: "string \<Rightarrow> 'v \<Rightarrow> 'v btree \<Rightarrow> 'v btree" where
  "bt_insert k v [] = [(k, v)]"
| "bt_insert k v ((k', v') # r) =
     (if k < k' then (k, v) # (k', v') # r
      else if k = k' then (k, v) # r
      else (k', v') # bt_insert k v r)"

definition bt_get :: "'v btree \<Rightarrow> string \<Rightarrow> 'v option" where
  "bt_get m k = map_of m k"

definition bt_values :: "'v btree \<Rightarrow> 'v list" where
  "bt_values m = map snd m"

definition bt_wf :: "'v btree \<Rightarrow> bool" where
  "bt_wf m \<longleftrightarrow> sorted_wrt (\<lambda>a b. fst a < fst b) m"

interpretation bt: keyed_store bt_insert bt_get
proof unfold_locales
  fix k k' :: string and v :: 'v and s :: "'v btree"
  show "bt_get (bt_insert k v s) k = Some v"
    unfolding bt_get_def by (induction k v s rule: bt_insert.induct) auto
  show "bt_get (bt_insert k v s) k' = bt_get s k'" if "k' \<noteq> k"
    unfolding bt_get_def using that by (induction k v s rule: bt_insert.induct) auto
qed

lemmas bt_simps [simp] = bt.get_put_if

lemma bt_get_Nil [simp]: "bt_get [] k = None"
  by (simp add: bt_get_def)

lemma set_bt_insert: "x \<in> set (bt_insert k v m) \<Longrightarrow> x = (k, v) \<or> x \<in> set m"
  by (induction k v m rule: bt_insert.induct) (auto split: if_splits)

lemma bt_insert_wf: "bt_wf m \<Longrightarrow> bt_wf (bt_insert k v m)"
  unfolding bt_wf_def
proof (induction k v m rule: bt_insert.induct)
  case (1 k v)
  then show ?case by simp
next
  case (2 k v k' v' r)
  then show ?case by (auto dest!: set_bt_insert)
qed

lemma bt_wf_distinct: "bt_wf m \<Longrightarrow> distinct (map fst m)"
  unfolding bt_wf_def by (induction m) auto

text \<open>In a map in key order, the values are those of the keys.\<close>

lemma bt_values_iff:
  assumes "bt_wf m"
  shows "v \<in> set (bt_values m) \<longleftrightarrow> (\<exists>k. bt_get m k = Some v)"
  using map_of_eq_Some_iff [OF bt_wf_distinct [OF assms]] by (force simp: bt_values_def bt_get_def)

end
