(* ===== verification/Ledger.thy ===== *)
theory Ledger
  imports Agent_Seal Btree_Map
begin

text \<open>
  The local record of locked files and given approvals (\<open>apps/agent/src-tauri/src/ledger.rs\<close>):
  one JSON file, read whole, changed and replaced by a rename, under a lock. \<open>serde_json\<close> is a
  parameter with the round trip as the law the code relies on. Every operation is one atomic step of
  the store (the mutex is held for its whole body); the outcomes of the operating-system calls of a
  store are an argument, so that failed writes are runs of the model. The theory shows that nonces
  are handed out consecutively, that versions only move forward and that a revocation is final, over
  every interleaving of operations, failed ones included.
\<close>

subsection \<open>Data\<close>

record entry =
  en_fid :: string
  en_header_hash :: string
  en_name :: string
  en_path :: path
  en_permission :: string
  en_ttl :: u64
  en_max_opens :: u16
  en_sealed_at :: u64
  en_ver :: u32
  en_owner_envelope :: "bytes option"
  en_registered_tx :: "string option"

definition entry_from_seal :: "seal_result \<Rightarrow> seal_request \<Rightarrow> u64 \<Rightarrow> entry" where
  "entry_from_seal res q now =
     (let pol = request_policy q in
      \<lparr>en_fid = sl_fid res, en_header_hash = sl_header_hash res, en_name = snd (sl_original res),
       en_path = sl_output res,
       en_permission = (case pol_default pol of Edit \<Rightarrow> ''edit'' | _ \<Rightarrow> ''read_only''),
       en_ttl = ucast (pol_ttl pol), en_max_opens = pol_max pol, en_sealed_at = now, en_ver = 1,
       en_owner_envelope = None, en_registered_tx = None\<rparr>)"

record grant =
  gr_grant_id :: string
  gr_fid :: string
  gr_file_name :: string
  gr_permission :: string
  gr_expiry :: u64
  gr_granted_at :: u64
  gr_revoked_at :: "u64 option"
  gr_tx_hash :: "string option"
  gr_revoke_tx :: "string option"

definition is_active :: "grant \<Rightarrow> u64 \<Rightarrow> bool" where
  "is_active g now \<longleftrightarrow> gr_revoked_at g = None \<and> now < gr_expiry g"

record ledger_file =
  lf_grant_nonce :: u64
  lf_files :: "entry btree"
  lf_grants :: "grant btree"
  lf_chain_cursor :: "u64 option"
  lf_deferred_bumps :: "(string \<times> string) list"

definition ledger_default :: ledger_file where
  "ledger_default = \<lparr>lf_grant_nonce = 0, lf_files = [], lf_grants = [], lf_chain_cursor = None, lf_deferred_bumps = []\<rparr>"

record json =
  js_to :: "ledger_file \<Rightarrow> string + bytes"
  js_from :: "bytes \<Rightarrow> string + ledger_file"

text \<open>The disk beside the profile, and what its calls will answer during one store.\<close>

record ledger_disk =
  ld_file :: "bytes option"
  ld_tmp :: "bytes option"
  ld_readable :: bool

record store_io =
  st_mkdir :: bool
  st_room :: "nat option"
  st_rename :: bool

definition load :: "json \<Rightarrow> ledger_disk \<Rightarrow> string + ledger_file" where
  "load J d =
     (if \<not> ld_readable d then Inl ''cannot read the ledger''
      else case ld_file d of
        Some bs \<Rightarrow> map_err (\<lambda>_. ''ledger is not readable'') (js_from J bs)
      | None \<Rightarrow> Inr ledger_default)"

definition store :: "json \<Rightarrow> store_io \<Rightarrow> ledger_file \<Rightarrow> ledger_disk \<Rightarrow> (string + unit) \<times> ledger_disk" where
  "store J io f d =
     (if \<not> st_mkdir io then (Inl ''cannot create the config dir'', d)
      else case js_to J f of
        Inl e \<Rightarrow> (Inl e, d)
      | Inr bs \<Rightarrow>
          (case st_room io of
             Some n \<Rightarrow> (Inl ''cannot write the ledger'', d\<lparr>ld_tmp := Some (take n bs)\<rparr>)
           | None \<Rightarrow>
               let d1 = d\<lparr>ld_tmp := Some bs\<rparr> in
               if st_rename io then (Inr (), d1\<lparr>ld_file := ld_tmp d1, ld_tmp := None\<rparr>)
               else (Inl ''cannot replace the ledger'', d1)))"

text \<open>The shape all writers share: load, change, store, return.\<close>

definition ledger_update ::
  "json \<Rightarrow> store_io \<Rightarrow> (ledger_file \<Rightarrow> string + 'a \<times> ledger_file) \<Rightarrow> ledger_disk \<Rightarrow> (string + 'a) \<times> ledger_disk" where
  "ledger_update J io f d =
     (case rbind (load J d) f of
        Inl e \<Rightarrow> (Inl e, d)
      | Inr (out, l) \<Rightarrow>
          (case store J io l d of (Inl e, d') \<Rightarrow> (Inl e, d') | (Inr _, d') \<Rightarrow> (Inr out, d')))"

subsection \<open>Operations\<close>

definition record_entry :: "json \<Rightarrow> store_io \<Rightarrow> entry \<Rightarrow> ledger_disk \<Rightarrow> (string + unit) \<times> ledger_disk" where
  "record_entry J io e = ledger_update J io (\<lambda>l. Inr ((), l\<lparr>lf_files := bt_insert (en_fid e) e (lf_files l)\<rparr>))"

definition find_entry :: "(bytes \<Rightarrow> string) \<Rightarrow> json \<Rightarrow> bytes \<Rightarrow> ledger_disk \<Rightarrow> entry option" where
  "find_entry hexe J fid d = (case load J d of Inl _ \<Rightarrow> None | Inr l \<Rightarrow> bt_get (lf_files l) (hexe fid))"

definition ledger_entries :: "json \<Rightarrow> ledger_disk \<Rightarrow> entry list" where
  "ledger_entries J d =
     (let all = (case load J d of Inl _ \<Rightarrow> [] | Inr l \<Rightarrow> bt_values (lf_files l)) in
      sort_key (\<lambda>e. - int (unat (en_sealed_at e))) all)"

definition advance_version ::
  "(bytes \<Rightarrow> string) \<Rightarrow> json \<Rightarrow> store_io \<Rightarrow> bytes \<Rightarrow> string \<Rightarrow> string \<Rightarrow> u32 \<Rightarrow> bytes \<Rightarrow> ledger_disk \<Rightarrow>
     (string + entry) \<times> ledger_disk" where
  "advance_version hexe J io fid prev nxt ver env = ledger_update J io (\<lambda>l.
     rbind (ok_or (bt_get (lf_files l) (hexe fid)) ''unknown file'') (\<lambda>e.
       if en_header_hash e \<noteq> prev \<or> ver \<noteq> en_ver e + 1 then Inl ''not the next version''
       else let e' = e\<lparr>en_header_hash := nxt, en_ver := ver, en_owner_envelope := Some env\<rparr>
            in Inr (e', l\<lparr>lf_files := bt_insert (hexe fid) e' (lf_files l)\<rparr>)))"

definition record_grant :: "json \<Rightarrow> store_io \<Rightarrow> grant \<Rightarrow> ledger_disk \<Rightarrow> (string + unit) \<times> ledger_disk" where
  "record_grant J io g = ledger_update J io (\<lambda>l. Inr ((), l\<lparr>lf_grants := bt_insert (gr_grant_id g) g (lf_grants l)\<rparr>))"

definition ledger_grants :: "json \<Rightarrow> bool \<Rightarrow> u64 \<Rightarrow> ledger_disk \<Rightarrow> grant list" where
  "ledger_grants J active_only now d =
     (let all = (case load J d of Inl _ \<Rightarrow> [] | Inr l \<Rightarrow> bt_values (lf_grants l));
          kept = (if active_only then filter (\<lambda>g. is_active g now) all else all)
      in sort_key (\<lambda>g. - int (unat (gr_granted_at g))) kept)"

definition ledger_grant :: "json \<Rightarrow> string \<Rightarrow> ledger_disk \<Rightarrow> grant option" where
  "ledger_grant J gid d = (case load J d of Inl _ \<Rightarrow> None | Inr l \<Rightarrow> bt_get (lf_grants l) gid)"

definition revoke_entry :: "u64 \<Rightarrow> string option \<Rightarrow> grant \<Rightarrow> grant" where
  "revoke_entry now tx g =
     (let g1 = (if gr_revoked_at g = None then g\<lparr>gr_revoked_at := Some now\<rparr> else g)
      in if tx \<noteq> None then g1\<lparr>gr_revoke_tx := tx\<rparr> else g1)"

definition mark_revoked ::
  "json \<Rightarrow> store_io \<Rightarrow> string \<Rightarrow> u64 \<Rightarrow> string option \<Rightarrow> ledger_disk \<Rightarrow> (string + grant) \<times> ledger_disk" where
  "mark_revoked J io gid now tx = ledger_update J io (\<lambda>l.
     rbind (ok_or (bt_get (lf_grants l) gid) ''unknown grant'') (\<lambda>g.
       let g' = revoke_entry now tx g in Inr (g', l\<lparr>lf_grants := bt_insert gid g' (lf_grants l)\<rparr>)))"

definition set_registered_tx ::
  "json \<Rightarrow> store_io \<Rightarrow> string \<Rightarrow> string \<Rightarrow> ledger_disk \<Rightarrow> (string + unit) \<times> ledger_disk" where
  "set_registered_tx J io fid tx = ledger_update J io (\<lambda>l.
     rbind (ok_or (bt_get (lf_files l) fid) ''unknown file'') (\<lambda>e.
       Inr ((), l\<lparr>lf_files := bt_insert fid (e\<lparr>en_registered_tx := Some tx\<rparr>) (lf_files l)\<rparr>)))"

definition chain_cursor :: "json \<Rightarrow> ledger_disk \<Rightarrow> u64 option" where
  "chain_cursor J d = (case load J d of Inl _ \<Rightarrow> None | Inr l \<Rightarrow> lf_chain_cursor l)"

definition set_chain_cursor :: "json \<Rightarrow> store_io \<Rightarrow> u64 \<Rightarrow> ledger_disk \<Rightarrow> (string + unit) \<times> ledger_disk" where
  "set_chain_cursor J io b = ledger_update J io (\<lambda>l. Inr ((), l\<lparr>lf_chain_cursor := Some b\<rparr>))"

definition defer_bump ::
  "json \<Rightarrow> store_io \<Rightarrow> string \<Rightarrow> string \<Rightarrow> ledger_disk \<Rightarrow> (string + unit) \<times> ledger_disk" where
  "defer_bump J io fid hh = ledger_update J io (\<lambda>l.
     Inr ((), l\<lparr>lf_deferred_bumps := filter (\<lambda>b. fst b \<noteq> fid) (lf_deferred_bumps l) @ [(fid, hh)]\<rparr>))"

definition deferred_bumps :: "json \<Rightarrow> ledger_disk \<Rightarrow> (string \<times> string) list" where
  "deferred_bumps J d = (case load J d of Inl _ \<Rightarrow> [] | Inr l \<Rightarrow> lf_deferred_bumps l)"

definition clear_deferred_bumps ::
  "json \<Rightarrow> store_io \<Rightarrow> (string \<times> string) list \<Rightarrow> ledger_disk \<Rightarrow> (string + unit) \<times> ledger_disk" where
  "clear_deferred_bumps J io landed = ledger_update J io (\<lambda>l.
     Inr ((), l\<lparr>lf_deferred_bumps := filter (\<lambda>b. b \<notin> set landed) (lf_deferred_bumps l)\<rparr>))"

definition next_grant_nonce :: "json \<Rightarrow> store_io \<Rightarrow> ledger_disk \<Rightarrow> (string + u64) \<times> ledger_disk" where
  "next_grant_nonce J io = ledger_update J io (\<lambda>l. Inr (lf_grant_nonce l, l\<lparr>lf_grant_nonce := lf_grant_nonce l + 1\<rparr>))"

subsection \<open>Atomic replacement\<close>

definition json_lawful :: "json \<Rightarrow> bool" where
  "json_lawful J \<longleftrightarrow> (\<forall>l bs. js_to J l = Inr bs \<longrightarrow> js_from J bs = Inr l)"

text \<open>
  What the operations rely on: a store that succeeds is what the next load returns, a store that
  fails changes nothing a load can see. Then a load, change and store is atomic.
\<close>

locale atomic_store =
  fixes lawful :: "'j \<Rightarrow> bool"
    and ld :: "'j \<Rightarrow> 'd \<Rightarrow> 'e + 'f"
    and st :: "'j \<Rightarrow> 'i \<Rightarrow> 'f \<Rightarrow> 'd \<Rightarrow> ('e + unit) \<times> 'd"
  assumes stored: "lawful J \<Longrightarrow> ld J d = Inr l0 \<Longrightarrow> st J io l d = (Inr u, d') \<Longrightarrow> ld J d' = Inr l"
    and kept: "st J io l d = (Inl e, d') \<Longrightarrow> ld J d' = ld J d"
begin

lemma read_modify_write:
  assumes "lawful J"
    and "(case rbind (ld J d) f of
            Inl e \<Rightarrow> (Inl e, d)
          | Inr (out, l) \<Rightarrow>
              (case st J io l d of (Inl e, d') \<Rightarrow> (Inl e, d') | (Inr _, d') \<Rightarrow> (Inr out, d'))) = (r, d')"
  shows "(\<exists>e. r = Inl e \<and> ld J d' = ld J d) \<or>
    (\<exists>out l l'. r = Inr out \<and> ld J d = Inr l \<and> f l = Inr (out, l') \<and> ld J d' = Inr l')"
proof (cases "rbind (ld J d) f")
  case (Inl e)
  then show ?thesis using assms(2) by auto
next
  case (Inr p)
  then obtain l out l' where l: "ld J d = Inr l" "f l = Inr (out, l')" and p: "p = (out, l')"
    by (cases p) (auto simp: rbind_eq_Inr)
  obtain r2 d2 where st: "st J io l' d = (r2, d2)" by fastforce
  show ?thesis
  proof (cases r2)
    case (Inl e)
    then have "r = Inl e" "d' = d2" using assms(2) Inr p st by auto
    then show ?thesis using kept st Inl by blast
  next
    case u: (Inr u)
    then have "r = Inr out" "d' = d2" using assms(2) Inr p st by auto
    then show ?thesis using stored [OF assms(1) l(1)] st u l by blast
  qed
qed

end

interpretation ledger_disk: atomic_store json_lawful load store
  by unfold_locales
    (auto simp: load_def store_def json_lawful_def Let_def split: if_splits sum.splits option.splits)

lemma ledger_update_cases:
  assumes "json_lawful J" and "ledger_update J io f d = (r, d')"
  obtains e where "r = Inl e" "load J d' = load J d"
  | out l l' where "r = Inr out" "load J d = Inr l" "f l = Inr (out, l')" "load J d' = Inr l'"
  using ledger_disk.read_modify_write [OF assms(1) assms(2) [unfolded ledger_update_def]] by blast

subsection \<open>What the ledger promises\<close>

text \<open>
  The abstract ledger: the next nonce, the version of each file, the revocation time of each
  approval; and the events of a run that matter for it. A failed operation is \<open>Quiet\<close>.
\<close>

datatype ledger_event =
    Nonce u64 | Recorded string u32 | Advanced string u32 | GrantRecorded string "u64 option"
  | Revoked string u64 | Quiet

record promise =
  pr_nonce :: u64
  pr_ver :: "string \<rightharpoonup> u32"
  pr_revoked :: "string \<rightharpoonup> u64 option"

fun promised :: "promise \<Rightarrow> ledger_event \<Rightarrow> promise option" where
  "promised p (Nonce n) = (if n = pr_nonce p then Some (p\<lparr>pr_nonce := n + 1\<rparr>) else None)"
| "promised p (Recorded f v) = Some (p\<lparr>pr_ver := (pr_ver p)(f \<mapsto> v)\<rparr>)"
| "promised p (Advanced f v) =
     (case pr_ver p f of
        Some v0 \<Rightarrow> if v = v0 + 1 then Some (p\<lparr>pr_ver := (pr_ver p)(f \<mapsto> v)\<rparr>) else None
      | None \<Rightarrow> None)"
| "promised p (GrantRecorded g r) = Some (p\<lparr>pr_revoked := (pr_revoked p)(g \<mapsto> r)\<rparr>)"
| "promised p (Revoked g t) =
     (case pr_revoked p g of
        Some None \<Rightarrow> Some (p\<lparr>pr_revoked := (pr_revoked p)(g \<mapsto> Some t)\<rparr>)
      | Some (Some _) \<Rightarrow> Some p
      | None \<Rightarrow> None)"
| "promised p Quiet = Some p"

definition promise_of :: "ledger_file \<Rightarrow> promise" where
  "promise_of l =
     \<lparr>pr_nonce = lf_grant_nonce l, pr_ver = (\<lambda>f. map_option en_ver (bt_get (lf_files l) f)),
      pr_revoked = (\<lambda>g. map_option gr_revoked_at (bt_get (lf_grants l) g))\<rparr>"

inductive ledger_step ::
  "(bytes \<Rightarrow> string) \<Rightarrow> json \<Rightarrow> ledger_disk \<Rightarrow> ledger_event \<Rightarrow> ledger_disk \<Rightarrow> bool" for hexe J where
  st_record: "record_entry J io e d = (r, d') \<Longrightarrow>
     ledger_step hexe J d (if is_ok r then Recorded (en_fid e) (en_ver e) else Quiet) d'"
| st_advance: "advance_version hexe J io fid prev nxt ver env d = (r, d') \<Longrightarrow>
     ledger_step hexe J d (if is_ok r then Advanced (hexe fid) ver else Quiet) d'"
| st_grant: "record_grant J io g d = (r, d') \<Longrightarrow>
     ledger_step hexe J d (if is_ok r then GrantRecorded (gr_grant_id g) (gr_revoked_at g) else Quiet) d'"
| st_revoke: "mark_revoked J io gid now tx d = (r, d') \<Longrightarrow>
     ledger_step hexe J d (if is_ok r then Revoked gid now else Quiet) d'"
| st_registered: "set_registered_tx J io fid' tx' d = (r, d') \<Longrightarrow> ledger_step hexe J d Quiet d'"
| st_cursor: "set_chain_cursor J io b d = (r, d') \<Longrightarrow> ledger_step hexe J d Quiet d'"
| st_defer: "defer_bump J io fid' hh d = (r, d') \<Longrightarrow> ledger_step hexe J d Quiet d'"
| st_clear: "clear_deferred_bumps J io landed d = (r, d') \<Longrightarrow> ledger_step hexe J d Quiet d'"
| st_nonce: "next_grant_nonce J io d = (r, d') \<Longrightarrow>
     ledger_step hexe J d (case r of Inr n \<Rightarrow> Nonce n | Inl _ \<Rightarrow> Quiet) d'"

inductive ledger_run ::
  "(bytes \<Rightarrow> string) \<Rightarrow> json \<Rightarrow> ledger_disk \<Rightarrow> ledger_event list \<Rightarrow> ledger_disk \<Rightarrow> bool" for hexe J where
  run_nil: "ledger_run hexe J d [] d"
| run_step: "ledger_step hexe J d ev d1 \<Longrightarrow> ledger_run hexe J d1 evs d' \<Longrightarrow> ledger_run hexe J d (ev # evs) d'"

fun promised_run :: "promise \<Rightarrow> ledger_event list \<Rightarrow> promise option" where
  "promised_run p [] = Some p"
| "promised_run p (ev # evs) = Option.bind (promised p ev) (\<lambda>q. promised_run q evs)"

lemmas ledger_ops =
  record_entry_def advance_version_def record_grant_def mark_revoked_def set_registered_tx_def
  set_chain_cursor_def defer_bump_def clear_deferred_bumps_def next_grant_nonce_def

lemma promise_of_files:
  "promise_of (l\<lparr>lf_files := bt_insert k e (lf_files l)\<rparr>) =
     (promise_of l)\<lparr>pr_ver := (pr_ver (promise_of l))(k \<mapsto> en_ver e)\<rparr>"
  by (auto simp: promise_of_def fun_eq_iff)

lemma promise_of_grants:
  "promise_of (l\<lparr>lf_grants := bt_insert k g (lf_grants l)\<rparr>) =
     (promise_of l)\<lparr>pr_revoked := (pr_revoked (promise_of l))(k \<mapsto> gr_revoked_at g)\<rparr>"
  by (auto simp: promise_of_def fun_eq_iff)

lemma promise_of_quiet [simp]:
  "promise_of (l\<lparr>lf_chain_cursor := c\<rparr>) = promise_of l"
  "promise_of (l\<lparr>lf_deferred_bumps := b\<rparr>) = promise_of l"
  "promise_of (l\<lparr>lf_grant_nonce := n\<rparr>) = (promise_of l)\<lparr>pr_nonce := n\<rparr>"
  by (simp_all add: promise_of_def)

lemma promise_of_get [simp]:
  "pr_nonce (promise_of l) = lf_grant_nonce l"
  "pr_ver (promise_of l) f = map_option en_ver (bt_get (lf_files l) f)"
  "pr_revoked (promise_of l) g = map_option gr_revoked_at (bt_get (lf_grants l) g)"
  by (simp_all add: promise_of_def)

lemma revoke_entry_revoked:
  "gr_revoked_at (revoke_entry now tx g) = (case gr_revoked_at g of None \<Rightarrow> Some now | Some t \<Rightarrow> Some t)"
  by (auto simp: revoke_entry_def Let_def split: option.splits)

text \<open>Refinement: one operation of the ledger, failed or not, is one event of the abstract ledger.\<close>

lemma ledger_step_refines:
  assumes "ledger_step hexe J d ev d'" and "json_lawful J" and "load J d = Inr l"
  shows "\<exists>l'. load J d' = Inr l' \<and> promised (promise_of l) ev = Some (promise_of l')"
  using assms(1)
proof cases
  case (st_record io e r)
  show ?thesis
    by (rule ledger_update_cases [OF assms(2) st_record(2) [unfolded ledger_ops]])
      (use st_record(1) assms(3) in \<open>auto simp: promise_of_files is_ok_def\<close>)
next
  case (st_advance io fid prev nxt ver env r)
  show ?thesis
    by (rule ledger_update_cases [OF assms(2) st_advance(2) [unfolded ledger_ops]])
      (use st_advance(1) assms(3) in
        \<open>auto simp: promise_of_files is_ok_def rbind_eq_Inr ok_or_eq_Inr Let_def split: if_splits\<close>)
next
  case (st_grant io g r)
  show ?thesis
    by (rule ledger_update_cases [OF assms(2) st_grant(2) [unfolded ledger_ops]])
      (use st_grant(1) assms(3) in \<open>auto simp: promise_of_grants is_ok_def\<close>)
next
  case (st_revoke io gid now tx r)
  show ?thesis
    by (rule ledger_update_cases [OF assms(2) st_revoke(2) [unfolded ledger_ops]])
      (use st_revoke(1) assms(3) in
        \<open>auto simp: promise_of_grants is_ok_def rbind_eq_Inr ok_or_eq_Inr Let_def revoke_entry_revoked
           fun_upd_idem split: option.splits\<close>)
next
  case (st_registered io fid' tx' r)
  show ?thesis
    by (rule ledger_update_cases [OF assms(2) st_registered(2) [unfolded ledger_ops]])
      (use st_registered(1) assms(3) in
        \<open>auto simp: promise_of_files rbind_eq_Inr ok_or_eq_Inr fun_upd_idem\<close>)
next
  case (st_cursor io b r)
  show ?thesis
    by (rule ledger_update_cases [OF assms(2) st_cursor(2) [unfolded ledger_ops]])
      (use st_cursor(1) assms(3) in auto)
next
  case (st_defer io fid' hh r)
  show ?thesis
    by (rule ledger_update_cases [OF assms(2) st_defer(2) [unfolded ledger_ops]])
      (use st_defer(1) assms(3) in auto)
next
  case (st_clear io landed r)
  show ?thesis
    by (rule ledger_update_cases [OF assms(2) st_clear(2) [unfolded ledger_ops]])
      (use st_clear(1) assms(3) in auto)
next
  case (st_nonce io r)
  show ?thesis
    by (rule ledger_update_cases [OF assms(2) st_nonce(2) [unfolded ledger_ops]])
      (use st_nonce(1) assms(3) in auto)
qed

lemma ledger_run_refines:
  assumes "ledger_run hexe J d evs d'" and "json_lawful J" and "load J d = Inr l"
  shows "\<exists>l'. load J d' = Inr l' \<and> promised_run (promise_of l) evs = Some (promise_of l')"
  using assms(1,3)
proof (induction arbitrary: l rule: ledger_run.induct)
  case (run_nil d)
  then show ?case by auto
next
  case (run_step d ev d1 evs d')
  from ledger_step_refines [OF run_step(1) assms(2) run_step(4)] obtain l1 where
    "load J d1 = Inr l1" "promised (promise_of l) ev = Some (promise_of l1)" by blast
  then show ?case using run_step(3) by auto
qed

fun nonces_of :: "ledger_event list \<Rightarrow> u64 list" where
  "nonces_of [] = []"
| "nonces_of (Nonce n # evs) = n # nonces_of evs"
| "nonces_of (_ # evs) = nonces_of evs"

fun versions_of :: "string \<Rightarrow> ledger_event list \<Rightarrow> u32 list" where
  "versions_of f [] = []"
| "versions_of f (Advanced g v # evs) = (if g = f then v # versions_of f evs else versions_of f evs)"
| "versions_of f (_ # evs) = versions_of f evs"

lemma map_from_Suc: "map (\<lambda>i. a + word_of_nat i) [0..<Suc k] = a # map (\<lambda>i. a + 1 + word_of_nat i) [0..<k]"
  by (simp add: upt_conv_Cons map_Suc_upt [symmetric] comp_def algebra_simps del: upt_Suc)

lemma promised_nonces:
  assumes "promised_run p evs = Some q"
  shows "nonces_of evs = map (\<lambda>i. pr_nonce p + word_of_nat i) [0..<length (nonces_of evs)]"
  using assms
proof (induction evs arbitrary: p)
  case (Cons ev evs)
  then obtain p1 where p1: "promised p ev = Some p1" "promised_run p1 evs = Some q"
    by (auto simp: Option.bind_eq_Some_conv)
  note ih = Cons.IH [OF p1(2)]
  show ?case
  proof (cases ev)
    case (Nonce n)
    then have "n = pr_nonce p" "pr_nonce p1 = pr_nonce p + 1" using p1(1) by (auto split: if_splits)
    then show ?thesis using ih Nonce by (simp only: nonces_of.simps list.size map_from_Suc add_0_right add_Suc_right)
  qed (use ih p1(1) in \<open>auto split: option.splits if_splits\<close>)
qed simp

lemma promised_versions:
  assumes "promised_run p evs = Some q" and "pr_ver p f = Some v" and "\<forall>w. Recorded f w \<notin> set evs"
  shows "versions_of f evs = map (\<lambda>i. v + 1 + word_of_nat i) [0..<length (versions_of f evs)] \<and>
    pr_ver q f = Some (v + word_of_nat (length (versions_of f evs)))"
  using assms
proof (induction evs arbitrary: p v)
  case (Cons ev evs)
  then obtain p1 where p1: "promised p ev = Some p1" "promised_run p1 evs = Some q"
    by (auto simp: Option.bind_eq_Some_conv)
  show ?case
  proof (cases "\<exists>w. ev = Advanced f w")
    case True
    then have "ev = Advanced f (v + 1)" "pr_ver p1 f = Some (v + 1)"
      using p1(1) Cons.prems(2) by (auto split: if_splits)
    then show ?thesis using Cons.IH [OF p1(2), of "v + 1"] Cons.prems(3) map_from_Suc [of "v + 1"]
      by (simp add: algebra_simps del: upt_Suc)
  next
    case False
    then have "versions_of f (ev # evs) = versions_of f evs" by (cases ev) auto
    moreover have "pr_ver p1 f = Some v"
      using False p1(1) Cons.prems(2,3) by (cases ev) (auto split: option.splits if_splits)
    ultimately show ?thesis using Cons.IH [OF p1(2), of v] Cons.prems(3) by auto
  qed
qed simp

lemma promised_revoked:
  assumes "promised_run p evs = Some q" and "pr_revoked p g = Some (Some t)" and "\<forall>r. GrantRecorded g r \<notin> set evs"
  shows "pr_revoked q g = Some (Some t)"
  using assms
proof (induction evs arbitrary: p)
  case (Cons ev evs)
  then obtain p1 where p1: "promised p ev = Some p1" "promised_run p1 evs = Some q"
    by (auto simp: Option.bind_eq_Some_conv)
  have "pr_revoked p1 g = Some (Some t)"
    using p1(1) Cons.prems(2,3) by (cases ev) (auto split: option.splits if_splits)
  then show ?case using Cons.IH [OF p1(2)] Cons.prems(3) by auto
qed simp

lemma mark_revoked_sets:
  assumes "json_lawful J" and "mark_revoked J io gid now tx d = (Inr g, d')"
  obtains l where "load J d' = Inr l" "bt_get (lf_grants l) gid = Some g" "gr_revoked_at g \<noteq> None"
  by (rule ledger_update_cases [OF assms(1) assms(2) [unfolded ledger_ops]])
    (auto simp: rbind_eq_Inr ok_or_eq_Inr Let_def revoke_entry_revoked split: option.splits)

subsection \<open>A sample ledger\<close>

text \<open>A codec that knows two files, and what the operations do on a disk holding the first.\<close>

definition two_json :: "ledger_file \<Rightarrow> ledger_file \<Rightarrow> json" where
  "two_json a b =
     \<lparr>js_to = (\<lambda>l. if l = a then Inr [0] else if l = b then Inr [1] else Inl ''unknown''),
      js_from = (\<lambda>bs. if bs = [0] then Inr a else if bs = [1] then Inr b else Inl ''unknown'')\<rparr>"

lemma two_json_lawful: "json_lawful (two_json a b)"
  by (auto simp: json_lawful_def two_json_def)

definition disk_of :: "bytes \<Rightarrow> ledger_disk" where
  "disk_of bs = \<lparr>ld_file = Some bs, ld_tmp = None, ld_readable = True\<rparr>"

definition good_io :: store_io where
  "good_io = \<lparr>st_mkdir = True, st_room = None, st_rename = True\<rparr>"

lemma two_json_load [simp]:
  "load (two_json a b) (disk_of [0]) = Inr a" "load (two_json a b) (disk_of [1]) = Inr b"
  by (simp_all add: load_def two_json_def disk_of_def)

lemma two_json_update:
  "f a = Inr (out, b) \<Longrightarrow> a \<noteq> b \<Longrightarrow>
     ledger_update (two_json a b) good_io f (disk_of [0]) = (Inr out, disk_of [1])"
  "f b = Inr (out, b) \<Longrightarrow> a \<noteq> b \<Longrightarrow>
     ledger_update (two_json a b) good_io f (disk_of [1]) = (Inr out, disk_of [1])"
  by (simp_all add: ledger_update_def store_def two_json_def disk_of_def good_io_def load_def)

definition sample_entry :: entry where
  "sample_entry =
     \<lparr>en_fid = ''k'', en_header_hash = ''h1'', en_name = ''a'', en_path = ([], ''a.zbacs''),
      en_permission = ''edit'', en_ttl = 3600, en_max_opens = 1, en_sealed_at = 0, en_ver = 1,
      en_owner_envelope = None, en_registered_tx = None\<rparr>"

definition sample_grant :: grant where
  "sample_grant =
     \<lparr>gr_grant_id = ''g'', gr_fid = ''k'', gr_file_name = ''a'', gr_permission = ''edit'', gr_expiry = 100,
      gr_granted_at = 1, gr_revoked_at = None, gr_tx_hash = None, gr_revoke_tx = None\<rparr>"

section \<open>Properties\<close>

text \<open>C29. The approval nonces this machine hands out are consecutive, so none is ever handed out
  twice, whatever other operations run in between and whichever writes fail.\<close>

theorem ledger_nonces_consecutive:
  assumes "json_lawful J" and "load J d = Inr l" and "ledger_run hexe J d evs d'"
  shows "nonces_of evs = map (\<lambda>i. lf_grant_nonce l + word_of_nat i) [0..<length (nonces_of evs)] \<and>
    (length (nonces_of evs) \<le> 2 ^ 64 \<longrightarrow> distinct (nonces_of evs))"
proof -
  let ?k = "length (nonces_of evs)"
  have eq: "nonces_of evs = map (\<lambda>i. lf_grant_nonce l + word_of_nat i) [0..<?k]"
    using ledger_run_refines [OF assms(3,1,2)] promised_nonces by fastforce
  have "inj_on (\<lambda>i. lf_grant_nonce l + word_of_nat i) {0..<?k}" if "?k \<le> 2 ^ 64"
    using that by (auto intro!: inj_onI simp: word_of_nat_eq_iff take_bit_eq_mod)
  then have "?k \<le> 2 ^ 64 \<longrightarrow> distinct (map (\<lambda>i. lf_grant_nonce l + word_of_nat i) [0..<?k])"
    by (simp add: distinct_map)
  then show ?thesis using eq by metis
qed

theorem ledger_nonces_consecutive_witness:
  "ledger_run sample_hex (two_json ledger_default (ledger_default\<lparr>lf_grant_nonce := 1\<rparr>)) (disk_of [0])
     [Nonce 0] (disk_of [1]) \<and> distinct (nonces_of [Nonce 0])"
proof -
  let ?J = "two_json ledger_default (ledger_default\<lparr>lf_grant_nonce := 1\<rparr>)"
  have "next_grant_nonce ?J good_io (disk_of [0]) = (Inr 0, disk_of [1])"
    unfolding next_grant_nonce_def by (rule two_json_update) (simp_all add: ledger_default_def)
  then have run: "ledger_run sample_hex ?J (disk_of [0]) [Nonce 0] (disk_of [1])"
    using run_step [OF st_nonce run_nil] by fastforce
  then show ?thesis using ledger_nonces_consecutive [OF two_json_lawful two_json_load(1) run] by simp
qed

text \<open>C30. Version notices move the record of a file forward one version at a time: over any run
  that does not lock the file anew, the accepted notices carry the consecutive numbers after the
  known one, so a replayed or stale notice is refused; and what is looked up in the end is the last of
  them.\<close>

theorem ledger_versions_forward:
  assumes "json_lawful J" and "ledger_run hexe J d evs d'"
    and "find_entry hexe J fid d = Some e" and "\<forall>w. Recorded (hexe fid) w \<notin> set evs"
  shows "versions_of (hexe fid) evs = map (\<lambda>i. en_ver e + 1 + word_of_nat i) [0..<length (versions_of (hexe fid) evs)] \<and>
    (\<exists>e'. find_entry hexe J fid d' = Some e' \<and> en_ver e' = en_ver e + word_of_nat (length (versions_of (hexe fid) evs)))"
proof -
  from assms(3) obtain l where l: "load J d = Inr l" "bt_get (lf_files l) (hexe fid) = Some e"
    by (auto simp: find_entry_def split: sum.splits)
  from ledger_run_refines [OF assms(2,1) l(1)] obtain l' where
    l': "load J d' = Inr l'" and run: "promised_run (promise_of l) evs = Some (promise_of l')" by blast
  show ?thesis using promised_versions [OF run _ assms(4)] l l' by (auto simp: find_entry_def)
qed

theorem ledger_versions_forward_witness:
  "\<exists>J d d' e'. find_entry (\<lambda>_. ''k'') J [] d = Some sample_entry \<and> find_entry (\<lambda>_. ''k'') J [] d' = Some e' \<and>
     en_ver e' = en_ver sample_entry + 1"
proof -
  let ?e' = "sample_entry\<lparr>en_header_hash := ''h2'', en_ver := 2, en_owner_envelope := Some []\<rparr>"
  let ?J = "two_json (ledger_default\<lparr>lf_files := [(''k'', sample_entry)]\<rparr>) (ledger_default\<lparr>lf_files := [(''k'', ?e')]\<rparr>)"
  have "advance_version (\<lambda>_. ''k'') ?J good_io [] ''h1'' ''h2'' 2 [] (disk_of [0]) = (Inr ?e', disk_of [1])"
    unfolding advance_version_def
    by (rule two_json_update) (simp_all add: ledger_default_def sample_entry_def bt_get_def Let_def)
  then have run: "ledger_run (\<lambda>_. ''k'') ?J (disk_of [0]) [Advanced ''k'' 2] (disk_of [1])"
    using run_step [OF st_advance run_nil] by (fastforce simp: is_ok_def)
  have found: "find_entry (\<lambda>_. ''k'') ?J [] (disk_of [0]) = Some sample_entry"
    by (simp add: find_entry_def bt_get_def)
  show ?thesis
    using ledger_versions_forward [OF two_json_lawful run found] found by fastforce
qed

text \<open>A revocation is final: once an approval has been marked as pulled back, no later operation
  but recording the approval anew makes it active again, and its first revocation time stays.\<close>

theorem ledger_revocation_final:
  assumes "json_lawful J" and "mark_revoked J io gid now tx d = (Inr g, d1)"
    and "ledger_run hexe J d1 evs d'" and "\<forall>r. GrantRecorded gid r \<notin> set evs"
  shows "\<exists>g'. ledger_grant J gid d' = Some g' \<and> gr_revoked_at g' = gr_revoked_at g \<and> \<not> is_active g' t"
proof -
  from mark_revoked_sets [OF assms(1,2)] obtain l where
    l: "load J d1 = Inr l" "bt_get (lf_grants l) gid = Some g" "gr_revoked_at g \<noteq> None" by blast
  from ledger_run_refines [OF assms(3,1) l(1)] obtain l' where
    l': "load J d' = Inr l'" and run: "promised_run (promise_of l) evs = Some (promise_of l')" by blast
  obtain t0 where t0: "gr_revoked_at g = Some t0" using l(3) by blast
  then show ?thesis
    using promised_revoked [OF run _ assms(4), of t0] l l' by (auto simp: ledger_grant_def is_active_def)
qed

theorem ledger_revocation_final_witness:
  "\<exists>J d1 d' g'. mark_revoked J good_io ''g'' 5 None d1 = (Inr (sample_grant\<lparr>gr_revoked_at := Some 5\<rparr>), d') \<and>
     ledger_grant J ''g'' d' = Some g' \<and> gr_revoked_at g' = Some 5 \<and> \<not> is_active g' 6"
proof -
  let ?g = "sample_grant\<lparr>gr_revoked_at := Some 5\<rparr>"
  let ?J = "two_json (ledger_default\<lparr>lf_grants := [(''g'', sample_grant)]\<rparr>) (ledger_default\<lparr>lf_grants := [(''g'', ?g)]\<rparr>)"
  have first: "mark_revoked ?J good_io ''g'' 5 None (disk_of [0]) = (Inr ?g, disk_of [1])"
    unfolding mark_revoked_def
    by (rule two_json_update) (simp_all add: ledger_default_def sample_grant_def bt_get_def revoke_entry_def Let_def)
  have "mark_revoked ?J good_io ''g'' 9 None (disk_of [1]) = (Inr ?g, disk_of [1])"
    unfolding mark_revoked_def
    by (rule two_json_update) (simp_all add: ledger_default_def sample_grant_def bt_get_def revoke_entry_def Let_def)
  then have run: "ledger_run sample_hex ?J (disk_of [1]) [Revoked ''g'' 9] (disk_of [1])"
    using run_step [OF st_revoke run_nil] by (fastforce simp: is_ok_def)
  show ?thesis
    using ledger_revocation_final [OF two_json_lawful first run, of 6] first by fastforce
qed

end
