(* ===== verification/Chain_Client.thy ===== *)
theory Chain_Client
  imports Prelude
begin

text \<open>
  Reading the chain (\<open>crates/zbacs-chain\<close>: \<open>error.rs\<close>, \<open>cache.rs\<close>, \<open>client.rs\<close>, \<open>watcher.rs\<close>).
  A node is outside the program: what it answers to one call is an argument of the operation that makes
  the call, an error included. Clock readings are arguments too. Shown: an answer that a grant is dead
  is never forgotten by the cache, and the event watcher reads every block exactly once, whatever polls
  fail.
\<close>

subsection \<open>error.rs\<close>

datatype chain_error = ChUnreachable string | ChRejected string | ChMalformed string | ChConfig string

fun is_unreachable :: "chain_error \<Rightarrow> bool" where
  "is_unreachable (ChUnreachable _) = True"
| "is_unreachable _ = False"

subsection \<open>cache.rs\<close>

datatype freshness = FrFresh | FrStale

type_synonym version_record = "bytes \<times> u32 \<times> bool"

record 'v cached =
  cd_value :: 'v
  cd_freshness :: freshness
  cd_age :: nat

definition if_fresh :: "'v cached \<Rightarrow> 'v option" where
  "if_fresh c = (case cd_freshness c of FrFresh \<Rightarrow> Some (cd_value c) | FrStale \<Rightarrow> None)"

record cache =
  cc_grants :: "bytes \<rightharpoonup> bool \<times> nat"
  cc_versions :: "bytes \<rightharpoonup> version_record \<times> nat"

definition cache_new :: cache where
  "cache_new = \<lparr>cc_grants = Map.empty, cc_versions = Map.empty\<rparr>"

definition put_grant :: "bytes \<Rightarrow> bool \<Rightarrow> nat \<Rightarrow> cache \<Rightarrow> cache" where
  "put_grant gid valid now c =
     (case cc_grants c gid of
        Some (v, _) \<Rightarrow> if \<not> v \<and> valid then c else c\<lparr>cc_grants := (cc_grants c)(gid \<mapsto> (valid, now))\<rparr>
      | None \<Rightarrow> c\<lparr>cc_grants := (cc_grants c)(gid \<mapsto> (valid, now))\<rparr>)"

definition aged :: "nat \<Rightarrow> nat \<Rightarrow> 'v \<times> nat \<Rightarrow> 'v cached" where
  "aged tolerance now = (\<lambda>(v, at).
     let age = now - at in
     \<lparr>cd_value = v, cd_freshness = (if age \<le> tolerance then FrFresh else FrStale), cd_age = age\<rparr>)"

definition cache_grant :: "bytes \<Rightarrow> nat \<Rightarrow> nat \<Rightarrow> cache \<Rightarrow> bool cached option" where
  "cache_grant gid tolerance now c = map_option (aged tolerance now) (cc_grants c gid)"

definition put_version :: "bytes \<Rightarrow> bytes \<Rightarrow> u32 \<Rightarrow> bool \<Rightarrow> nat \<Rightarrow> cache \<Rightarrow> cache" where
  "put_version fid hh ver retired now c = c\<lparr>cc_versions := (cc_versions c)(fid \<mapsto> ((hh, ver, retired), now))\<rparr>"

definition cache_version :: "bytes \<Rightarrow> nat \<Rightarrow> nat \<Rightarrow> cache \<Rightarrow> version_record cached option" where
  "cache_version fid tolerance now c = map_option (aged tolerance now) (cc_versions c fid)"

definition cache_clear :: "cache \<Rightarrow> cache" where
  "cache_clear c = c\<lparr>cc_grants := Map.empty, cc_versions := Map.empty\<rparr>"

subsection \<open>client.rs: the deployment file\<close>

type_synonym address = bytes

definition ZERO_ADDRESS :: address where "ZERO_ADDRESS = replicate 20 0"

record deployment =
  dep_registry :: address
  dep_policy :: address
  dep_audit :: address
  dep_p256_validator :: "address option"

definition deployment_from_json :: "(string \<Rightarrow> string + deployment) \<Rightarrow> string \<Rightarrow> chain_error + deployment" where
  "deployment_from_json parse json =
     rbind (map_err ChConfig (parse json)) (\<lambda>f.
       let me = f\<lparr>dep_p256_validator :=
                  (case dep_p256_validator f of Some a \<Rightarrow> if a = ZERO_ADDRESS then None else Some a | None \<Rightarrow> None)\<rparr>
       in if dep_registry me = ZERO_ADDRESS then Inl (ChConfig ''registry address is zero'')
          else if dep_policy me = ZERO_ADDRESS then Inl (ChConfig ''policy address is zero'')
          else if dep_audit me = ZERO_ADDRESS then Inl (ChConfig ''audit address is zero'')
          else if dep_registry me = dep_policy me \<or> dep_registry me = dep_audit me \<or> dep_policy me = dep_audit me
          then Inl (ChConfig ''two contracts share an address'')
          else Inr me)"

subsection \<open>client.rs: reads\<close>

definition owner_of :: "string + address \<Rightarrow> chain_error + address option" where
  "owner_of ans = rbind (map_err ChUnreachable ans) (\<lambda>a. Inr (if a = ZERO_ADDRESS then None else Some a))"

definition current_version ::
  "string + version_record \<Rightarrow> bytes \<Rightarrow> nat \<Rightarrow> cache \<Rightarrow> (chain_error + version_record) \<times> cache" where
  "current_version ans fid now c =
     (case ans of
        Inl e \<Rightarrow> (Inl (ChUnreachable e), c)
      | Inr (hh, ver, retired) \<Rightarrow> (Inr (hh, ver, retired), put_version fid hh ver retired now c))"

text \<open>The contract's counter is a \<open>uint256\<close>, here a number.\<close>

definition client_grant_nonce :: "string + nat \<Rightarrow> chain_error + u64" where
  "client_grant_nonce ans =
     rbind (map_err ChUnreachable ans) (\<lambda>n.
       if n < 2 ^ 64 then Inr (word_of_nat n) else Inl (ChMalformed ''grant nonce exceeds u64''))"

definition is_grant_valid :: "string + bool \<Rightarrow> bytes \<Rightarrow> nat \<Rightarrow> cache \<Rightarrow> (chain_error + bool) \<times> cache" where
  "is_grant_valid ans gid now c =
     (case ans of
        Inl e \<Rightarrow> (Inl (ChUnreachable e), c)
      | Inr valid \<Rightarrow> (Inr valid, put_grant gid valid now c))"

definition is_grant_valid_offline ::
  "string + bool \<Rightarrow> bytes \<Rightarrow> nat \<Rightarrow> nat \<Rightarrow> cache \<Rightarrow> (chain_error + bool cached) \<times> cache" where
  "is_grant_valid_offline ans gid tolerance now c =
     (case is_grant_valid ans gid now c of
        (Inr _, c') \<Rightarrow> (ok_or (cache_grant gid tolerance now c') (ChMalformed ''cache did not keep a fresh answer''), c')
      | (Inl e, c') \<Rightarrow>
          if is_unreachable e then (ok_or (cache_grant gid tolerance now c') e, c') else (Inl e, c'))"

subsection \<open>client.rs: writes\<close>

text \<open>A transaction is refused on submission, lost before its receipt, or mined with a status; the
  client reads the hash of the receipt only.\<close>

datatype tx_answer = TxRefused string | TxNoReceipt string | TxReceipt bytes bool

fun client_send :: "tx_answer \<Rightarrow> chain_error + bytes" where
  "client_send (TxRefused e) = Inl (ChRejected e)"
| "client_send (TxNoReceipt e) = Inl (ChUnreachable e)"
| "client_send (TxReceipt h _) = Inr h"

definition client_bump_version :: "tx_answer \<Rightarrow> bytes \<Rightarrow> bytes \<Rightarrow> nat \<Rightarrow> cache \<Rightarrow> (chain_error + bytes) \<times> cache" where
  "client_bump_version ans fid hh now c =
     (case client_send ans of Inl e \<Rightarrow> (Inl e, c) | Inr h \<Rightarrow> (Inr h, put_version fid hh 0 False now c))"

definition client_revoke :: "tx_answer \<Rightarrow> bytes \<Rightarrow> nat \<Rightarrow> cache \<Rightarrow> (chain_error + bytes) \<times> cache" where
  "client_revoke ans gid now c =
     (case client_send ans of Inl e \<Rightarrow> (Inl e, c) | Inr h \<Rightarrow> (Inr h, put_grant gid False now c))"

subsection \<open>watcher.rs\<close>

datatype chain_event =
    CeGranted bytes bytes u8 u64
  | CeRevoked bytes bytes
  | CeVersionBumped bytes u32 bytes

record 'l log_codec =
  lc_topic0 :: "'l \<Rightarrow> bytes option"
  lc_granted_topic :: bytes
  lc_revoked_topic :: bytes
  lc_bumped_topic :: bytes
  lc_granted :: "'l \<Rightarrow> (bytes \<times> bytes \<times> u8 \<times> u64) option"
  lc_revoked :: "'l \<Rightarrow> (bytes \<times> bytes) option"
  lc_bumped :: "'l \<Rightarrow> (bytes \<times> u32 \<times> bytes) option"

definition event_of :: "'l log_codec \<Rightarrow> 'l \<Rightarrow> chain_event option" where
  "event_of L l =
     (case lc_topic0 L l of
        None \<Rightarrow> None
      | Some t \<Rightarrow>
          if t = lc_granted_topic L then map_option (\<lambda>(g, f, p, ex). CeGranted g f p ex) (lc_granted L l)
          else if t = lc_revoked_topic L then map_option (\<lambda>(g, f). CeRevoked g f) (lc_revoked L l)
          else if t = lc_bumped_topic L then map_option (\<lambda>(f, v, h). CeVersionBumped f v h) (lc_bumped L l)
          else None)"

record 'l node_answer =
  na_head :: "string + u64"
  na_logs :: "u64 \<Rightarrow> u64 \<Rightarrow> string + 'l list"

definition poll :: "'l log_codec \<Rightarrow> 'l node_answer \<Rightarrow> u64 \<Rightarrow> (chain_error + chain_event list) \<times> u64" where
  "poll L na next_block =
     (case na_head na of
        Inl e \<Rightarrow> (Inl (ChUnreachable e), next_block)
      | Inr head \<Rightarrow>
          if head < next_block then (Inr [], next_block)
          else case na_logs na next_block head of
            Inl e \<Rightarrow> (Inl (ChUnreachable e), next_block)
          | Inr logs \<Rightarrow> (Inr (List.map_filter (event_of L) logs), head + 1))"

text \<open>\<open>EventWatcher::run\<close> over the answers of successive turns, until \<open>should_stop\<close>.\<close>

fun watcher_run :: "'l log_codec \<Rightarrow> (bool \<times> 'l node_answer) list \<Rightarrow> u64 \<Rightarrow> chain_event list \<times> u64" where
  "watcher_run L [] next_block = ([], next_block)"
| "watcher_run L ((stop, na) # turns) next_block =
     (if stop then ([], next_block)
      else
        let (r, next1) = poll L na next_block;
            now_events = (case r of Inr es \<Rightarrow> es | Inl _ \<Rightarrow> []);
            (later, last) = watcher_run L turns next1
        in (now_events @ later, last))"

subsection \<open>The cache never forgets a dead grant\<close>

definition known_dead :: "bytes \<Rightarrow> cache \<Rightarrow> bool" where
  "known_dead gid c \<longleftrightarrow> (\<exists>at. cc_grants c gid = Some (False, at))"

lemma put_grant_dead: "known_dead gid c \<Longrightarrow> known_dead gid (put_grant g v now c)"
  by (auto simp: known_dead_def put_grant_def split: option.splits)

lemma put_grant_False: "known_dead gid (put_grant gid False now c)"
  by (auto simp: known_dead_def put_grant_def split: option.splits)

inductive client_step :: "cache \<Rightarrow> cache \<Rightarrow> bool" where
  cs_version: "current_version ans fid now c = (r, c') \<Longrightarrow> client_step c c'"
| cs_valid: "is_grant_valid ans' gid now c = (r', c') \<Longrightarrow> client_step c c'"
| cs_offline: "is_grant_valid_offline ans' gid tol now c = (r2, c') \<Longrightarrow> client_step c c'"
| cs_bump: "client_bump_version tx fid hh now c = (r3, c') \<Longrightarrow> client_step c c'"
| cs_revoke: "client_revoke tx gid now c = (r3, c') \<Longrightarrow> client_step c c'"

inductive client_run :: "cache \<Rightarrow> cache \<Rightarrow> bool" where
  cr_nil: "client_run c c"
| cr_step: "client_step c c1 \<Longrightarrow> client_run c1 c' \<Longrightarrow> client_run c c'"

lemma is_grant_valid_dead: "known_dead gid c \<Longrightarrow> is_grant_valid ans g now c = (r, c') \<Longrightarrow> known_dead gid c'"
  by (auto simp: is_grant_valid_def put_grant_dead split: sum.splits)

lemma is_grant_valid_offline_cache: "snd (is_grant_valid_offline ans g tol now c) = snd (is_grant_valid ans g now c)"
  by (auto simp: is_grant_valid_offline_def split: sum.splits prod.splits)

lemma client_step_dead: "client_step c c' \<Longrightarrow> known_dead gid c \<Longrightarrow> known_dead gid c'"
proof (induction rule: client_step.induct)
  case (cs_version ans fid now c r c')
  then show ?case by (auto simp: current_version_def put_version_def known_dead_def split: sum.splits)
next
  case (cs_offline ans' g tol now c r2 c')
  then have "c' = snd (is_grant_valid ans' g now c)"
    using is_grant_valid_offline_cache [of ans' g tol now c] by simp
  then show ?case using is_grant_valid_dead [of gid c ans' g now] cs_offline by (metis prod.collapse)
next
  case (cs_bump tx fid hh now c r3 c')
  then show ?case by (auto simp: client_bump_version_def put_version_def known_dead_def split: sum.splits)
qed (auto simp: client_revoke_def put_grant_dead is_grant_valid_dead split: sum.splits)

lemma client_run_dead: "client_run c c' \<Longrightarrow> known_dead gid c \<Longrightarrow> known_dead gid c'"
  by (induction rule: client_run.induct) (auto dest: client_step_dead)

lemma dead_offline:
  assumes "known_dead gid c" and "is_grant_valid_offline ans gid tol now c = (Inr v, c')"
  shows "\<not> cd_value v"
proof -
  obtain r c1 where v: "is_grant_valid ans gid now c = (r, c1)" by fastforce
  then obtain at where "cc_grants c1 gid = Some (False, at)"
    using is_grant_valid_dead [OF assms(1) v] by (auto simp: known_dead_def)
  then show ?thesis
    using assms(2) v
    by (auto simp: is_grant_valid_offline_def cache_grant_def aged_def Let_def split: sum.splits if_splits)
qed

subsection \<open>The watcher reads every block once\<close>

text \<open>A node that tells the truth when it answers: block \<open>i\<close> holds the logs \<open>blk i\<close>.\<close>

definition blocks :: "(nat \<Rightarrow> 'l list) \<Rightarrow> nat \<Rightarrow> nat \<Rightarrow> 'l list" where
  "blocks blk a b = concat (map blk [a..<b])"

definition honest :: "(nat \<Rightarrow> 'l list) \<Rightarrow> 'l node_answer \<Rightarrow> bool" where
  "honest blk na \<longleftrightarrow>
     (\<forall>h. na_head na = Inr h \<longrightarrow> unat h + 1 < 2 ^ 64) \<and>
     (\<forall>a b logs. na_logs na a b = Inr logs \<longrightarrow> logs = blocks blk (unat a) (unat b + 1))"

lemma blocks_append: "a \<le> b \<Longrightarrow> b \<le> c \<Longrightarrow> blocks blk a b @ blocks blk b c = blocks blk a c"
  using upt_add_eq_append [of a b "c - b"] by (simp add: blocks_def)

lemma blocks_same [simp]: "blocks blk a a = []"
  by (simp add: blocks_def)

lemma map_filter_append: "List.map_filter f (a @ b) = List.map_filter f a @ List.map_filter f b"
  by (simp add: map_filter_def)

lemma poll_reads:
  assumes "honest blk na" and "poll L na n = (r, n')"
  shows "unat n \<le> unat n' \<and>
    (case r of Inr es \<Rightarrow> es | Inl _ \<Rightarrow> []) = List.map_filter (event_of L) (blocks blk (unat n) (unat n'))"
proof (cases "na_head na")
  case (Inl e)
  then show ?thesis using assms(2) by (auto simp: poll_def map_filter_def)
next
  case head: (Inr h)
  then have bound: "unat h + 1 < 2 ^ 64" using assms(1) by (simp add: honest_def)
  have suc: "unat (h + 1) = unat h + 1" using bound by (simp add: unat_word_ariths)
  show ?thesis
  proof (cases "h < n")
    case True
    then show ?thesis using assms(2) head by (auto simp: poll_def map_filter_def)
  next
    case False
    then have le: "unat n \<le> unat h + 1" by (simp add: word_less_nat_alt)
    show ?thesis
    proof (cases "na_logs na n h")
      case (Inl e)
      then show ?thesis using assms(2) head False by (auto simp: poll_def map_filter_def)
    next
      case (Inr logs)
      then have "logs = blocks blk (unat n) (unat h + 1)" using assms(1) unfolding honest_def by blast
      then show ?thesis using assms(2) head False Inr le suc by (auto simp: poll_def)
    qed
  qed
qed

lemma watcher_run_reads:
  assumes "\<forall>(stop, na) \<in> set turns. honest blk na" and "watcher_run L turns n = (es, n')"
  shows "unat n \<le> unat n' \<and> es = List.map_filter (event_of L) (blocks blk (unat n) (unat n'))"
  using assms
proof (induction L turns n arbitrary: es rule: watcher_run.induct)
  case (2 L stop na turns n)
  show ?case
  proof (cases stop)
    case True
    then show ?thesis using 2 by (auto simp: map_filter_def)
  next
    case False
    obtain r n1 where p: "poll L na n = (r, n1)" by fastforce
    obtain later n2 where w: "watcher_run L turns n1 = (later, n2)" by fastforce
    have es: "es = (case r of Inr es \<Rightarrow> es | Inl _ \<Rightarrow> []) @ later" "n' = n2"
      using 2(3) False p w by (auto simp: Let_def)
    have "unat n1 \<le> unat n2 \<and> later = List.map_filter (event_of L) (blocks blk (unat n1) (unat n2))"
      using 2(1) [OF False _ _ _ ] 2(2) p w es by (metis (no_types, lifting) list.set_intros(2))
    then show ?thesis
      using poll_reads [of blk na L n r n1] 2(2) p es blocks_append [of "unat n" "unat n1" "unat n2" blk]
      by (auto simp flip: map_filter_append)
  qed
qed (auto simp: map_filter_def)

section \<open>Properties\<close>

text \<open>A revocation once seen is never unseen: after the chain answered that a grant is not valid, or
  this client revoked it, no later sequence of reads and writes, whatever the node answers, makes the
  checked lookup report the grant as valid.\<close>

theorem dead_grants_stay_dead:
  assumes "is_grant_valid (Inr False) gid t c0 = (r, c) \<or> client_revoke tx gid t c0 = (Inr h, c)"
    and "client_run c c'" and "is_grant_valid_offline ans gid tol now c' = (Inr v, c'')"
  shows "cd_value v = False"
proof -
  have "known_dead gid c"
    using assms(1) put_grant_False by (auto simp: is_grant_valid_def client_revoke_def split: sum.splits)
  then show ?thesis using dead_offline client_run_dead assms(2,3) by blast
qed

theorem dead_grants_stay_dead_witness:
  "\<exists>c' v. is_grant_valid_offline (Inr True) [1] 60 5 (snd (is_grant_valid (Inr False) [1] 0 cache_new)) = (Inr v, c') \<and>
     cd_value v = False"
proof -
  let ?c = "snd (is_grant_valid (Inr False) [1] 0 cache_new)"
  have first: "is_grant_valid (Inr False) [1] 0 cache_new = (Inr False, ?c)" by (simp add: is_grant_valid_def)
  obtain v c' where res: "is_grant_valid_offline (Inr True) [1] 60 5 ?c = (Inr v, c')"
    by (simp add: is_grant_valid_offline_def is_grant_valid_def put_grant_def cache_new_def cache_grant_def)
  show ?thesis using dead_grants_stay_dead [OF disjI1 [OF first] cr_nil res] res by blast
qed

text \<open>The unchecked lookup passes the node's answer on, dead or not.\<close>

theorem raw_answer_ignores_cache: "fst (is_grant_valid (Inr v) gid now c) = Inr v"
  by (simp add: is_grant_valid_def)

text \<open>A transaction that was mined and reverted is reported like one that succeeded.\<close>

theorem reverted_reported_as_landed: "client_send (TxReceipt h False) = client_send (TxReceipt h True)"
  by simp

text \<open>The watcher misses no event and repeats none: over any sequence of polls of a node that
  tells the truth when it answers, whichever answers fail and wherever the watch stops, the events
  handed out are exactly those of the blocks from the first one to the cursor, in order.\<close>

theorem watcher_reads_every_block_once:
  assumes "\<forall>(stop, na) \<in> set turns. honest blk na" and "watcher_run L turns from = (es, next_block)"
  shows "from \<le> next_block \<and> es = List.map_filter (event_of L) (blocks blk (unat from) (unat next_block))"
  using watcher_run_reads [OF assms] by (simp add: word_le_nat_alt)

definition sample_logs :: "nat log_codec" where
  "sample_logs = \<lparr>lc_topic0 = (\<lambda>_. Some [2]), lc_granted_topic = [1], lc_revoked_topic = [2], lc_bumped_topic = [3],
     lc_granted = (\<lambda>_. None), lc_revoked = (\<lambda>l. Some ([word_of_nat l], [])), lc_bumped = (\<lambda>_. None)\<rparr>"

definition sample_node :: "u64 \<Rightarrow> bool \<Rightarrow> nat node_answer" where
  "sample_node h ok = \<lparr>na_head = Inr h,
     na_logs = (\<lambda>a b. if ok then Inr (blocks (\<lambda>i. [i]) (unat a) (unat b + 1)) else Inl ''down'')\<rparr>"

theorem watcher_reads_every_block_once_witness:
  "\<exists>n. watcher_run sample_logs [(False, sample_node 4 False), (False, sample_node 5 True)] 4 =
     ([CeRevoked [4] [], CeRevoked [5] []], n)"
proof -
  let ?turns = "[(False, sample_node 4 False), (False, sample_node 5 True)]"
  obtain es n where run: "watcher_run sample_logs ?turns 4 = (es, n)" by fastforce
  have n: "n = 6" using run by (simp add: poll_def sample_node_def)
  have "\<forall>(stop, na) \<in> set ?turns. honest (\<lambda>i. [i]) na" by (simp add: sample_node_def honest_def)
  then have "es = List.map_filter (event_of sample_logs) (blocks (\<lambda>i. [i]) 4 6)"
    using watcher_reads_every_block_once [of ?turns "\<lambda>i. [i]", OF _ run] n by simp
  then have "es = [CeRevoked [4] [], CeRevoked [5] []]"
    by (simp add: blocks_def upt_conv_Cons map_filter_def event_of_def sample_logs_def)
  then show ?thesis using run by blast
qed

end
