(* ===== verification/Chain_Calls.thy ===== *)
theory Chain_Calls
  imports Proto Chain_Client
begin

text \<open>
  Writing to the chain (\<open>crates/zbacs-chain\<close>: \<open>calls.rs\<close>, \<open>aa.rs\<close>, \<open>bundler.rs\<close>,
  \<open>writer.rs\<close>): contract calldata, the owner's smart account, user operations, the bundlers tried in
  order, and the two ways a write travels. The ABI encoder and CREATE2 are third-party code and thus
  parameters; what the code relies on of the encoder is that a tuple of static values in front is
  laid out word by word. Shown: the terms in the calldata are the words of the signed EIP-712
  structure, and what a bundler receives is the operation whose hash was signed.
\<close>

subsection \<open>Values of the ABI\<close>

text \<open>\<open>AUint\<close> is any unsigned integer of up to 64 bits (also as \<open>U256::from\<close>), \<open>AWord\<close> a 32-byte
  word (\<open>B256\<close>, \<open>U256::from_be_bytes\<close>), \<open>AFixed\<close> a shorter \<open>FixedBytes\<close>.\<close>

datatype abi_value =
    AUint u64 | ANum nat | AWord bytes | AFixed bytes | AAddress bytes | ABool bool | ABytes bytes
  | ATuple "abi_value list" | AArray "abi_value list"

record chain_lib = proto_lib +
  abi_params :: "abi_value list \<Rightarrow> bytes"
  create2 :: "address \<Rightarrow> bytes \<Rightarrow> bytes \<Rightarrow> address"

fun static_word :: "abi_value \<Rightarrow> bytes option" where
  "static_word (AUint v) = Some (replicate 24 0 @ u64_be v)"
| "static_word (AWord w) = (if length w = 32 then Some w else None)"
| "static_word (AFixed b) = (if length b \<le> 32 then Some (b @ replicate (32 - length b) 0) else None)"
| "static_word (AAddress a) = (if length a = 20 then Some (replicate 12 0 @ a) else None)"
| "static_word _ = None"

fun static_words :: "abi_value list \<Rightarrow> bytes option" where
  "static_words [] = Some []"
| "static_words (v # vs) =
     Option.bind (static_word v) (\<lambda>w. Option.bind (static_words vs) (\<lambda>ws. Some (w @ ws)))"

definition abi_lawful :: "'x chain_lib_scheme \<Rightarrow> bool" where
  "abi_lawful A \<longleftrightarrow>
     (\<forall>vs ws rest. static_words vs = Some ws \<longrightarrow>
        abi_params A vs = ws \<and> take (length ws) (abi_params A (ATuple vs # rest)) = ws)"

subsection \<open>calls.rs\<close>

record grant_args =
  ga_file_id :: bytes
  ga_header_hash :: bytes
  ga_device_key_hash :: bytes
  ga_permission :: u8
  ga_not_before :: u64
  ga_expiry :: u64
  ga_max_opens :: u16
  ga_request_nonce :: bytes
  ga_grant_nonce :: u64

definition selector :: "'x proto_lib_scheme \<Rightarrow> string \<Rightarrow> bytes" where
  "selector A sig = take 4 (keccak256 A (ascii sig))"

definition calldata :: "'x proto_lib_scheme \<Rightarrow> string \<Rightarrow> bytes \<Rightarrow> bytes" where
  "calldata A sig params = selector A sig @ params"

definition calls_register :: "'x chain_lib_scheme \<Rightarrow> bytes \<Rightarrow> bytes \<Rightarrow> bytes" where
  "calls_register A fid hh = calldata A ''register(bytes32,bytes32)'' (abi_params A [AWord fid, AWord hh])"

definition calls_bump_version :: "'x chain_lib_scheme \<Rightarrow> bytes \<Rightarrow> bytes \<Rightarrow> bytes" where
  "calls_bump_version A fid hh = calldata A ''bumpVersion(bytes32,bytes32)'' (abi_params A [AWord fid, AWord hh])"

definition grant_tuple :: "grant_args \<Rightarrow> abi_value list" where
  "grant_tuple g =
     [AWord (ga_file_id g), AWord (ga_header_hash g), AWord (ga_device_key_hash g), AUint (ucast (ga_permission g)),
      AUint (ga_not_before g), AUint (ga_expiry g), AUint (ucast (ga_max_opens g)), AFixed (ga_request_nonce g),
      AUint (ga_grant_nonce g)]"

definition calls_grant :: "'x chain_lib_scheme \<Rightarrow> grant_args \<Rightarrow> bytes \<Rightarrow> bytes" where
  "calls_grant A g owner_sig =
     calldata A ''grant((bytes32,bytes32,bytes32,uint8,uint64,uint64,uint16,bytes16,uint256),bytes)''
       (abi_params A [ATuple (grant_tuple g), ABytes owner_sig])"

definition calls_revoke :: "'x chain_lib_scheme \<Rightarrow> bytes \<Rightarrow> bytes" where
  "calls_revoke A gid = calldata A ''revoke(bytes32)'' (abi_params A [AWord gid])"

definition calls_audit_log :: "'x chain_lib_scheme \<Rightarrow> bytes \<Rightarrow> u8 \<Rightarrow> bytes \<Rightarrow> bytes \<Rightarrow> bytes" where
  "calls_audit_log A fid k actor detail =
     calldata A ''log(bytes32,uint8,bytes32,bytes32)''
       (abi_params A [AWord fid, AUint (ucast k), AWord actor, AWord detail])"

definition calls_get_nonce :: "'x chain_lib_scheme \<Rightarrow> address \<Rightarrow> bytes \<Rightarrow> bytes" where
  "calls_get_nonce A sender key =
     calldata A ''getNonce(address,uint192)'' (abi_params A [AAddress sender, AWord (replicate 8 0 @ key)])"

subsection \<open>aa.rs\<close>

definition ENTRY_POINT_V07 :: address where
  "ENTRY_POINT_V07 = [0x00, 0x00, 0x00, 0x00, 0x71, 0x72, 0x7D, 0xe2, 0x2E, 0x5E, 0x9d, 0x8B, 0xAf, 0x0e, 0xdA, 0xc6,
     0xf3, 0x7d, 0xa0, 0x32]"

definition KERNEL_FACTORY :: address where
  "KERNEL_FACTORY = [0xaa, 0xc5, 0xD4, 0x24, 0x0A, 0xF8, 0x72, 0x49, 0xB3, 0xf7, 0x1B, 0xC8, 0xE4, 0xA2, 0xca, 0xe0,
     0x74, 0xA3, 0xE4, 0x19]"

definition META_FACTORY :: address where
  "META_FACTORY = [0xd7, 0x03, 0xaa, 0xE7, 0x95, 0x38, 0x62, 0x8d, 0x27, 0x09, 0x9B, 0x8c, 0x4f, 0x62, 0x1b, 0xE4,
     0xCC, 0xd1, 0x42, 0xd5]"

definition ACCOUNT_LOGIC :: address where
  "ACCOUNT_LOGIC = [0xBA, 0xC8, 0x49, 0xbB, 0x64, 0x18, 0x41, 0xb4, 0x4E, 0x96, 0x5f, 0xB0, 0x1A, 0x4B, 0xf5, 0xF0,
     0x74, 0xf8, 0x4b, 0x4D]"

definition WEBAUTHN_VALIDATOR :: address where
  "WEBAUTHN_VALIDATOR = [0x7a, 0xb1, 0x6F, 0xf3, 0x54, 0xAc, 0xB3, 0x28, 0x45, 0x2F, 0x1D, 0x44, 0x5b, 0x3D, 0xde, 0xe9,
     0xa9, 0x1e, 0x9e, 0x69]"

datatype root_validator = RvWebAuthn bytes bytes bytes | RvDeviceKey address bytes bytes bool

fun validator_address :: "root_validator \<Rightarrow> address" where
  "validator_address (RvWebAuthn _ _ _) = WEBAUTHN_VALIDATOR"
| "validator_address (RvDeviceKey v _ _ _) = v"

fun install_data :: "'x chain_lib_scheme \<Rightarrow> root_validator \<Rightarrow> bytes" where
  "install_data A (RvWebAuthn x y cid) = abi_params A [ATuple [AWord x, AWord y], AWord (keccak256 A cid)]"
| "install_data A (RvDeviceKey _ x y os) = x @ y @ [if os then 1 else 0]"

record kernel_account =
  ka_root :: root_validator
  ka_index :: u64

definition kernel_new :: "root_validator \<Rightarrow> kernel_account" where
  "kernel_new root = \<lparr>ka_root = root, ka_index = 0\<rparr>"

definition INITIALIZE_SELECTOR :: bytes where "INITIALIZE_SELECTOR = [0x3c, 0x3b, 0x75, 0x2b]"
definition DEPLOY_WITH_FACTORY_SELECTOR :: bytes where "DEPLOY_WITH_FACTORY_SELECTOR = [0xc5, 0x26, 0x5d, 0x5d]"
definition EXECUTE_SELECTOR :: bytes where "EXECUTE_SELECTOR = [0xe9, 0xae, 0x5c, 0x53]"

definition initialize_calldata :: "'x chain_lib_scheme \<Rightarrow> kernel_account \<Rightarrow> bytes" where
  "initialize_calldata A k =
     INITIALIZE_SELECTOR @
     abi_params A [AFixed (1 # validator_address (ka_root k)), AAddress ZERO_ADDRESS, ABytes (install_data A (ka_root k)),
       ABytes [], AArray []]"

definition account_salt :: "kernel_account \<Rightarrow> bytes" where
  "account_salt k = replicate 24 0 @ u64_be (ka_index k)"

definition init_code :: "'x chain_lib_scheme \<Rightarrow> kernel_account \<Rightarrow> bytes" where
  "init_code A k =
     META_FACTORY @ DEPLOY_WITH_FACTORY_SELECTOR @
     abi_params A [AAddress KERNEL_FACTORY, ABytes (initialize_calldata A k), AWord (account_salt k)]"

definition erc1967_clone_init_code_hash :: "'x chain_lib_scheme \<Rightarrow> address \<Rightarrow> bytes" where
  "erc1967_clone_init_code_hash A impl =
     keccak256 A ([0x60, 0x3d, 0x3d, 0x81, 0x60, 0x22, 0x3d, 0x39, 0x73] @ impl @ [0x60, 0x09] @
       [0x51, 0x55, 0xf3, 0x36, 0x3d, 0x3d, 0x37, 0x3d, 0x3d, 0x36, 0x3d, 0x7f, 0x36, 0x08, 0x94, 0xa1, 0x3b,
        0xa1, 0xa3, 0x21, 0x06, 0x67, 0xc8, 0x28, 0x49, 0x2d, 0xb9, 0x8d, 0xca, 0x3e, 0x20, 0x76] @
       [0xcc, 0x37, 0x35, 0xa9, 0x20, 0xa3, 0xca, 0x50, 0x5d, 0x38, 0x2b, 0xbc, 0x54, 0x5a, 0xf4, 0x3d, 0x60,
        0x00, 0x80, 0x3e, 0x60, 0x38, 0x57, 0x3d, 0x60, 0x00, 0xfd, 0x5b, 0x3d, 0x60, 0x00, 0xf3])"

definition account_address :: "'x chain_lib_scheme \<Rightarrow> kernel_account \<Rightarrow> address" where
  "account_address A k =
     create2 A KERNEL_FACTORY (keccak256 A (initialize_calldata A k @ account_salt k))
       (erc1967_clone_init_code_hash A ACCOUNT_LOGIC)"

definition account_nonce :: "kernel_account \<Rightarrow> u64 \<Rightarrow> bytes" where
  "account_nonce k seqn = [0, 0] @ validator_address (ka_root k) @ [0, 0] @ u64_be seqn"

definition execute_batch :: "'x chain_lib_scheme \<Rightarrow> (address \<times> bytes) list \<Rightarrow> bytes" where
  "execute_batch A calls =
     EXECUTE_SELECTOR @
     abi_params A [AWord (1 # replicate 31 0),
       ABytes (abi_params A [AArray (map (\<lambda>(t, d). ATuple [AAddress t, AUint 0, ABytes d]) calls)])]"

definition execute_call :: "'x chain_lib_scheme \<Rightarrow> address \<Rightarrow> bytes \<Rightarrow> bytes" where
  "execute_call A target data =
     EXECUTE_SELECTOR @ abi_params A [AWord (replicate 32 0), ABytes (target @ replicate 32 0 @ data)]"

record packed_op =
  pu_sender :: address
  pu_nonce :: bytes
  pu_init_code :: bytes
  pu_call_data :: bytes
  pu_account_gas_limits :: bytes
  pu_pre_verification_gas :: nat
  pu_gas_fees :: bytes
  pu_paymaster_and_data :: bytes
  pu_signature :: bytes

definition u128_be :: "nat \<Rightarrow> bytes" where
  "u128_be n = u64_be (word_of_nat (n div 2 ^ 64)) @ u64_be (word_of_nat n)"

definition pack_pair :: "nat \<Rightarrow> nat \<Rightarrow> bytes" where
  "pack_pair high low = u128_be high @ u128_be low"

definition packed_hash :: "'x chain_lib_scheme \<Rightarrow> u64 \<Rightarrow> address \<Rightarrow> packed_op \<Rightarrow> bytes" where
  "packed_hash A chain_id entry_point p =
     keccak256 A (abi_params A
       [AWord (keccak256 A (abi_params A
          [AAddress (pu_sender p), AWord (pu_nonce p), AWord (keccak256 A (pu_init_code p)),
           AWord (keccak256 A (pu_call_data p)), AWord (pu_account_gas_limits p), ANum (pu_pre_verification_gas p),
           AWord (pu_gas_fees p), AWord (keccak256 A (pu_paymaster_and_data p))])),
        AAddress entry_point, AUint chain_id])"

definition find_from :: "string \<Rightarrow> string \<Rightarrow> nat option" where
  "find_from pat s =
     (case filter (\<lambda>i. take (length pat) (drop i s) = pat) [0..<Suc (length s)] of [] \<Rightarrow> None | i # _ \<Rightarrow> Some i)"

definition webauthn_signature ::
  "'x chain_lib_scheme \<Rightarrow> bytes \<Rightarrow> string \<Rightarrow> bytes \<Rightarrow> bytes \<Rightarrow> bool \<Rightarrow> bytes" where
  \<open>webauthn_signature A ad cd r s use_precompiled =
     (let type_index = (case find_from ''"type":'' cd of Some i \<Rightarrow> i | None \<Rightarrow> 0) in
      abi_params A [ABytes ad, ABytes (ascii cd), ANum type_index, AWord r, AWord s, ABool use_precompiled])\<close>

definition p256_raw_signature :: "bytes \<Rightarrow> bytes \<Rightarrow> bytes \<Rightarrow> bytes" where
  "p256_raw_signature kid r s = kid @ r @ s"

subsection \<open>bundler.rs\<close>

record rpc_op =
  ro_sender :: address
  ro_nonce :: bytes
  ro_factory :: "address option"
  ro_factory_data :: "bytes option"
  ro_call_data :: bytes
  ro_call_gas_limit :: nat
  ro_verification_gas_limit :: nat
  ro_pre_verification_gas :: nat
  ro_max_fee :: nat
  ro_max_priority_fee :: nat
  ro_paymaster :: "address option"
  ro_paymaster_verification_gas_limit :: "nat option"
  ro_paymaster_post_op_gas_limit :: "nat option"
  ro_paymaster_data :: "bytes option"
  ro_signature :: bytes

text \<open>\<open>U256::to::<u128>\<close> panics above 128 bits: the packed form is undefined then.\<close>

definition to_u128 :: "nat \<Rightarrow> nat option" where
  "to_u128 n = (if n < 2 ^ 128 then Some n else None)"

definition paymaster_and_data :: "rpc_op \<Rightarrow> bytes option" where
  "paymaster_and_data op =
     (case ro_paymaster op of
        None \<Rightarrow> Some []
      | Some pm \<Rightarrow>
          Option.bind (to_u128 (case ro_paymaster_verification_gas_limit op of Some v \<Rightarrow> v | None \<Rightarrow> 0)) (\<lambda>v.
          Option.bind (to_u128 (case ro_paymaster_post_op_gas_limit op of Some p \<Rightarrow> p | None \<Rightarrow> 0)) (\<lambda>p.
            Some (pm @ u128_be v @ u128_be p @ (case ro_paymaster_data op of Some d \<Rightarrow> d | None \<Rightarrow> [])))))"

definition packed :: "rpc_op \<Rightarrow> packed_op option" where
  "packed op =
     Option.bind (paymaster_and_data op) (\<lambda>pd.
     Option.bind (to_u128 (ro_verification_gas_limit op)) (\<lambda>vg.
     Option.bind (to_u128 (ro_call_gas_limit op)) (\<lambda>cg.
     Option.bind (to_u128 (ro_max_priority_fee op)) (\<lambda>pf.
     Option.bind (to_u128 (ro_max_fee op)) (\<lambda>mf.
       Some \<lparr>pu_sender = ro_sender op, pu_nonce = ro_nonce op,
             pu_init_code = (case (ro_factory op, ro_factory_data op) of (Some f, Some d) \<Rightarrow> f @ d | _ \<Rightarrow> []),
             pu_call_data = ro_call_data op, pu_account_gas_limits = pack_pair vg cg,
             pu_pre_verification_gas = ro_pre_verification_gas op, pu_gas_fees = pack_pair pf mf,
             pu_paymaster_and_data = pd, pu_signature = ro_signature op\<rparr>)))))"

definition op_hash :: "'x chain_lib_scheme \<Rightarrow> u64 \<Rightarrow> rpc_op \<Rightarrow> bytes option" where
  "op_hash A chain_id op = map_option (packed_hash A chain_id ENTRY_POINT_V07) (packed op)"

record gas_estimate =
  ge_pre_verification_gas :: nat
  ge_verification_gas_limit :: nat
  ge_call_gas_limit :: nat

record sponsorship =
  sp_paymaster :: address
  sp_paymaster_data :: bytes
  sp_paymaster_verification_gas_limit :: nat
  sp_paymaster_post_op_gas_limit :: nat
  sp_pre_verification_gas :: "nat option"
  sp_verification_gas_limit :: "nat option"
  sp_call_gas_limit :: "nat option"

record op_receipt =
  or_success :: bool
  or_transaction_hash :: bytes

record bundler =
  bu_gas_price :: "chain_error + (nat \<times> nat)"
  bu_estimate :: "rpc_op \<Rightarrow> chain_error + gas_estimate"
  bu_sponsor :: "rpc_op \<Rightarrow> chain_error + sponsorship option"
  bu_send :: "rpc_op \<Rightarrow> chain_error + bytes"
  bu_receipt :: "bytes \<Rightarrow> chain_error + op_receipt option"

definition with_estimate :: "bundler \<Rightarrow> rpc_op \<Rightarrow> chain_error + rpc_op" where
  "with_estimate b op =
     rbind (bu_estimate b op) (\<lambda>g.
       Inr (op\<lparr>ro_pre_verification_gas := ge_pre_verification_gas g,
               ro_verification_gas_limit := ge_verification_gas_limit g,
               ro_call_gas_limit := ge_call_gas_limit g\<rparr>))"

definition prepare_op :: "bundler \<Rightarrow> bytes \<Rightarrow> rpc_op \<Rightarrow> chain_error + rpc_op" where
  "prepare_op b stub op =
     rbind (bu_gas_price b) (\<lambda>(fee, prio).
       let op1 = op\<lparr>ro_max_fee := fee, ro_max_priority_fee := prio, ro_signature := stub\<rparr> in
       rbind (bu_sponsor b op1) (\<lambda>sp.
         case sp of
           None \<Rightarrow> with_estimate b op1
         | Some s \<Rightarrow>
             let op2 = op1\<lparr>ro_paymaster := Some (sp_paymaster s), ro_paymaster_data := Some (sp_paymaster_data s),
                           ro_paymaster_verification_gas_limit := Some (sp_paymaster_verification_gas_limit s),
                           ro_paymaster_post_op_gas_limit := Some (sp_paymaster_post_op_gas_limit s)\<rparr> in
             (case (sp_pre_verification_gas s, sp_verification_gas_limit s, sp_call_gas_limit s) of
                (Some p, Some v, Some c) \<Rightarrow>
                  Inr (op2\<lparr>ro_pre_verification_gas := p, ro_verification_gas_limit := v, ro_call_gas_limit := c\<rparr>)
              | _ \<Rightarrow> with_estimate b op2)))"

text \<open>Submitting returns what the bundler answered and the operation handed to it, if any; a value
  beyond 128 bits stops the task, here \<open>None\<close>.\<close>

definition op_submit ::
  "'x chain_lib_scheme \<Rightarrow> bundler \<Rightarrow> u64 \<Rightarrow> bytes \<Rightarrow> (bytes \<Rightarrow> chain_error + bytes) \<Rightarrow> rpc_op \<Rightarrow>
     ((chain_error + bytes) \<times> rpc_op option) option" where
  "op_submit A b chain_id stub sign op =
     (case prepare_op b stub op of
        Inl e \<Rightarrow> Some (Inl e, None)
      | Inr op1 \<Rightarrow>
          (case op_hash A chain_id op1 of
             None \<Rightarrow> None
           | Some h \<Rightarrow>
               (case sign h of
                  Inl e \<Rightarrow> Some (Inl e, None)
                | Inr sg \<Rightarrow> let op2 = op1\<lparr>ro_signature := sg\<rparr> in Some (bu_send b op2, Some op2))))"

text \<open>Waiting for the receipt: one entry per poll, the bundler's answer and whether the deadline has
  passed by then.\<close>

fun op_wait :: "(chain_error + op_receipt option) list \<Rightarrow> bool list \<Rightarrow> (chain_error + op_receipt) option" where
  "op_wait (Inl e # _) _ = Some (Inl e)"
| "op_wait (Inr (Some r) # _) _ = Some (Inr r)"
| "op_wait (Inr None # answers) (late # rest) =
     (if late then Some (Inl (ChUnreachable ''user operation not included in time'')) else op_wait answers rest)"
| "op_wait _ _ = None"

definition failover_new :: "'b list \<Rightarrow> chain_error + 'b list" where
  "failover_new endpoints = (if endpoints = [] then Inl (ChConfig ''no bundler endpoint'') else Inr endpoints)"

fun failover_from :: "chain_error \<Rightarrow> ('b \<Rightarrow> chain_error + 'a) \<Rightarrow> 'b list \<Rightarrow> chain_error + 'a" where
  "failover_from lst f [] = Inl lst"
| "failover_from lst f (b # bs) =
     (case f b of Inl e \<Rightarrow> if is_unreachable e then failover_from e f bs else Inl e | Inr x \<Rightarrow> Inr x)"

definition failover_each :: "('b \<Rightarrow> chain_error + 'a) \<Rightarrow> 'b list \<Rightarrow> chain_error + 'a" where
  "failover_each = failover_from (ChUnreachable ''no bundler endpoint'')"

definition failover_bundler :: "bundler list \<Rightarrow> bundler" where
  "failover_bundler bs =
     \<lparr>bu_gas_price = failover_each bu_gas_price bs,
      bu_estimate = (\<lambda>op. failover_each (\<lambda>b. bu_estimate b op) bs),
      bu_sponsor = (\<lambda>op. failover_each (\<lambda>b. bu_sponsor b op) bs),
      bu_send = (\<lambda>op. failover_each (\<lambda>b. bu_send b op) bs),
      bu_receipt = (\<lambda>h. failover_each (\<lambda>b. bu_receipt b h) bs)\<rparr>"

subsection \<open>writer.rs\<close>

datatype chain_write = WRegister bytes | WBumpVersion bytes | WGrant bytes u8 | WRevoke bytes

fun write_file_id :: "chain_write \<Rightarrow> bytes" where
  "write_file_id (WRegister f) = f"
| "write_file_id (WBumpVersion f) = f"
| "write_file_id (WGrant f _) = f"
| "write_file_id (WRevoke f) = f"

datatype chain_call = CRegister bytes bytes | CBumpVersion bytes bytes | CGrant grant_args | CRevoke bytes bytes

fun target_and_data :: "'x chain_lib_scheme \<Rightarrow> deployment \<Rightarrow> chain_call \<Rightarrow> address \<times> bytes" where
  "target_and_data A d (CRegister f h) = (dep_registry d, calls_register A f h)"
| "target_and_data A d (CBumpVersion f h) = (dep_registry d, calls_bump_version A f h)"
| "target_and_data A d (CGrant g) = (dep_policy d, calls_grant A g [])"
| "target_and_data A d (CRevoke _ g) = (dep_policy d, calls_revoke A g)"

text \<open>The default \<open>submit\<close>: one transaction after another, the last hash, stopping at the first error.
  \<open>send\<close> is what the four single writes do.\<close>

fun submit_each :: "(chain_call \<Rightarrow> chain_error + bytes) \<Rightarrow> bytes \<Rightarrow> chain_call list \<Rightarrow> chain_error + bytes" where
  "submit_each send lst [] = Inr lst"
| "submit_each send lst (c # cs) = rbind (send c) (\<lambda>h. submit_each send h cs)"

definition direct_submit :: "(chain_call \<Rightarrow> tx_answer) \<Rightarrow> chain_call list \<Rightarrow> chain_error + bytes" where
  "direct_submit node batch = submit_each (\<lambda>c. client_send (node c)) (replicate 32 0) batch"

record smart_env =
  sv_code :: "string + bytes"
  sv_entry_nonce :: "string + bytes"
  sv_bundler :: bundler
  sv_stub :: bytes
  sv_sign :: "bytes \<Rightarrow> chain_write \<Rightarrow> chain_error + bytes"
  sv_receipts :: "(chain_error + op_receipt option) list"
  sv_late :: "bool list"

definition next_nonce :: "smart_env \<Rightarrow> chain_error + bytes" where
  "next_nonce v =
     rbind (map_err ChUnreachable (sv_entry_nonce v)) (\<lambda>out.
       if length out \<noteq> 32 then Inl (ChMalformed ''getNonce returned another length'') else Inr out)"

definition smart_op :: "'x chain_lib_scheme \<Rightarrow> kernel_account \<Rightarrow> smart_env \<Rightarrow> bytes \<Rightarrow> chain_error + rpc_op" where
  "smart_op A k v call_data =
     rbind (map_err ChUnreachable (sv_code v)) (\<lambda>code.
     rbind (next_nonce v) (\<lambda>n.
       Inr \<lparr>ro_sender = account_address A k, ro_nonce = n,
            ro_factory = (if code \<noteq> [] then None else Some META_FACTORY),
            ro_factory_data = (if code \<noteq> [] then None else Some (drop 20 (init_code A k))),
            ro_call_data = call_data, ro_call_gas_limit = 0, ro_verification_gas_limit = 0,
            ro_pre_verification_gas = 0, ro_max_fee = 0, ro_max_priority_fee = 0, ro_paymaster = None,
            ro_paymaster_verification_gas_limit = None, ro_paymaster_post_op_gas_limit = None,
            ro_paymaster_data = None, ro_signature = []\<rparr>))"

definition send_call_data ::
  "'x chain_lib_scheme \<Rightarrow> kernel_account \<Rightarrow> u64 \<Rightarrow> smart_env \<Rightarrow> bytes \<Rightarrow> chain_write \<Rightarrow>
     ((chain_error + bytes) \<times> rpc_op option) option" where
  "send_call_data A k chain_id v call_data about =
     (case smart_op A k v call_data of
        Inl e \<Rightarrow> Some (Inl e, None)
      | Inr op \<Rightarrow>
          (case op_submit A (sv_bundler v) chain_id (sv_stub v) (\<lambda>h. sv_sign v h about) op of
             None \<Rightarrow> None
           | Some (Inl e, sent) \<Rightarrow> Some (Inl e, sent)
           | Some (Inr _, sent) \<Rightarrow>
               (case op_wait (sv_receipts v) (sv_late v) of
                  None \<Rightarrow> None
                | Some (Inl e) \<Rightarrow> Some (Inl e, sent)
                | Some (Inr r) \<Rightarrow>
                    Some (if or_success r then Inr (or_transaction_hash r) else Inl (ChRejected ''user operation reverted''),
                          sent))))"

definition batch_call_data :: "'x chain_lib_scheme \<Rightarrow> deployment \<Rightarrow> chain_call list \<Rightarrow> bytes" where
  "batch_call_data A d batch =
     (case batch of
        [one] \<Rightarrow> (let (t, c) = target_and_data A d one in execute_call A t c)
      | many \<Rightarrow> execute_batch A (map (target_and_data A d) many))"

definition smart_submit ::
  "'x chain_lib_scheme \<Rightarrow> kernel_account \<Rightarrow> deployment \<Rightarrow> u64 \<Rightarrow> smart_env \<Rightarrow> chain_call list \<Rightarrow> chain_write \<Rightarrow>
     ((chain_error + bytes) \<times> rpc_op option) option" where
  "smart_submit A k d chain_id v batch about =
     (if batch = [] then Some (Inl (ChConfig ''nothing to submit''), None)
      else send_call_data A k chain_id v (batch_call_data A d batch) about)"

text \<open>\<open>grant_args\<close> of the agent: the terms as the contract takes them.\<close>

definition grant_args_of :: "access_grant_terms \<Rightarrow> grant_args" where
  "grant_args_of t =
     \<lparr>ga_file_id = gt_file_id t, ga_header_hash = gt_header_hash t, ga_device_key_hash = gt_device_key_hash t,
      ga_permission = gt_permission t, ga_not_before = gt_not_before t, ga_expiry = gt_expiry t,
      ga_max_opens = gt_max_opens t, ga_request_nonce = gt_request_nonce t, ga_grant_nonce = gt_grant_nonce t\<rparr>"

subsection \<open>Lemmas\<close>

lemma grant_words:
  assumes "terms_wf t"
  shows "\<exists>ws. static_words (grant_tuple (grant_args_of t)) = Some ws \<and> struct_bytes A t = typehash A @ ws \<and> length ws = 288"
  using assms
  by (simp add: terms_wf_def grant_tuple_def grant_args_of_def struct_bytes_def word_u64_def word_bytes16_def)

lemma packed_signature:
  "packed (op\<lparr>ro_signature := sg\<rparr>) = map_option (\<lambda>p. p\<lparr>pu_signature := sg\<rparr>) (packed op)"
proof -
  have "paymaster_and_data (op\<lparr>ro_signature := sg\<rparr>) = paymaster_and_data op"
    by (simp add: paymaster_and_data_def split: option.splits)
  then show ?thesis by (simp add: packed_def split: bind_splits)
qed

lemma op_hash_signature [simp]: "op_hash A c (op\<lparr>ro_signature := sg\<rparr>) = op_hash A c op"
  by (cases "packed op") (simp_all add: op_hash_def packed_signature packed_hash_def)

definition same_call :: "rpc_op \<Rightarrow> rpc_op \<Rightarrow> bool" where
  "same_call op op' \<longleftrightarrow> ro_sender op' = ro_sender op \<and> ro_nonce op' = ro_nonce op \<and> ro_call_data op' = ro_call_data op"

lemma with_estimate_keeps: "with_estimate b op = Inr op' \<Longrightarrow> same_call op op'"
  by (auto simp: with_estimate_def rbind_eq_Inr same_call_def)

lemma prepare_op_keeps:
  assumes "prepare_op b stub op = Inr op'"
  shows "same_call op op'"
proof -
  from assms obtain fee prio sp where "bu_gas_price b = Inr (fee, prio)"
    and sp: "bu_sponsor b (op\<lparr>ro_max_fee := fee, ro_max_priority_fee := prio, ro_signature := stub\<rparr>) = Inr sp"
    by (auto simp: prepare_op_def rbind_eq_Inr Let_def)
  then show ?thesis
  proof (cases sp)
    case None
    then show ?thesis using assms sp \<open>bu_gas_price b = _\<close>
      by (auto simp: prepare_op_def same_call_def dest!: with_estimate_keeps)
  next
    case (Some s)
    then show ?thesis using assms sp \<open>bu_gas_price b = _\<close>
      by (auto simp: prepare_op_def same_call_def Let_def split: option.splits dest!: with_estimate_keeps)
  qed
qed

lemma op_submit_sent:
  assumes "op_submit A b c stub sign op = Some (r, Some op')"
  shows "\<exists>h. op_hash A c op' = Some h \<and> sign h = Inr (ro_signature op') \<and> bu_send b op' = r \<and>
    ro_sender op' = ro_sender op \<and> ro_call_data op' = ro_call_data op \<and> ro_nonce op' = ro_nonce op"
proof -
  from assms obtain op1 h sg where p: "prepare_op b stub op = Inr op1" and h: "op_hash A c op1 = Some h"
    and sg: "sign h = Inr sg" and op': "op' = op1\<lparr>ro_signature := sg\<rparr>" "r = bu_send b op'"
    by (auto simp: op_submit_def Let_def split: sum.splits option.splits)
  then show ?thesis using prepare_op_keeps [OF p] by (simp add: same_call_def)
qed

lemma send_call_data_sent:
  assumes "send_call_data A k c v cd about = Some (r, Some op)"
  shows "\<exists>h n. op_hash A c op = Some h \<and> sv_sign v h about = Inr (ro_signature op) \<and>
    ro_sender op = account_address A k \<and> ro_call_data op = cd \<and> sv_entry_nonce v = Inr (ro_nonce op)"
proof -
  from assms obtain op0 r0 where o0: "smart_op A k v cd = Inr op0"
    and s: "op_submit A (sv_bundler v) c (sv_stub v) (\<lambda>h. sv_sign v h about) op0 = Some (r0, Some op)"
    by (auto simp: send_call_data_def split: sum.splits option.splits prod.splits)
  have "ro_sender op0 = account_address A k" "ro_call_data op0 = cd" "sv_entry_nonce v = Inr (ro_nonce op0)"
    using o0 by (auto simp: smart_op_def next_nonce_def rbind_eq_Inr map_err_def split: if_splits sum.splits)
  then show ?thesis using op_submit_sent [OF s] by auto
qed

text \<open>The failover believes the first endpoint that answers.\<close>

lemma failover_first:
  assumes "\<forall>b \<in> set pre. \<exists>e. f b = Inl e \<and> is_unreachable e"
    and "\<forall>e. f b = Inl e \<longrightarrow> \<not> is_unreachable e"
  shows "failover_each f (pre @ b # rest) = f b"
proof -
  have "failover_from lst f (pre @ b # rest) = f b" for lst
    using assms by (induction pre arbitrary: lst) (auto split: sum.splits)
  then show ?thesis by (simp add: failover_each_def)
qed

lemma failover_all_down:
  assumes "\<forall>b \<in> set bs. \<exists>e. f b = Inl e \<and> is_unreachable e"
  shows "\<exists>e. failover_each f bs = Inl e \<and> is_unreachable e"
proof -
  have "\<exists>e. failover_from lst f bs = Inl e \<and> is_unreachable e" if "is_unreachable lst" for lst
    using assms that by (induction bs arbitrary: lst) auto
  then show ?thesis by (simp add: failover_each_def)
qed

text \<open>Waiting for a receipt ends: at the latest with the first poll after the deadline.\<close>

lemma op_wait_step:
  "op_wait (a # answers) (late # rest) =
     (case a of Inl e \<Rightarrow> Some (Inl e) | Inr (Some r) \<Rightarrow> Some (Inr r)
      | Inr None \<Rightarrow> if late then Some (Inl (ChUnreachable ''user operation not included in time''))
          else op_wait answers rest)"
  by (auto split: sum.splits option.splits)

lemma op_wait_ends:
  assumes "late ! n" and "n < length late" and "n < length answers"
  shows "op_wait answers late \<noteq> None"
  using assms
proof (induction n arbitrary: answers late)
  case 0
  then obtain a as ls where "answers = a # as" "late = True # ls" by (cases answers; cases late) auto
  then show ?case by (auto simp: op_wait_step split: sum.splits option.splits)
next
  case (Suc n)
  then obtain a as l ls where al: "answers = a # as" "late = l # ls" by (cases answers; cases late) auto
  then have "op_wait as ls \<noteq> None" using Suc by simp
  then show ?case using al by (auto simp: op_wait_step split: sum.splits option.splits)
qed

subsection \<open>A sample chain library\<close>

definition sample_abi :: "abi_value list \<Rightarrow> bytes" where
  "sample_abi vs =
     (case static_words vs of
        Some ws \<Rightarrow> ws
      | None \<Rightarrow> (case vs of ATuple ts # _ \<Rightarrow> (case static_words ts of Some ws \<Rightarrow> ws | None \<Rightarrow> []) | _ \<Rightarrow> []))"

definition sample_chain :: chain_lib where
  "sample_chain = proto_lib.extend sampleP (chain_lib.fields sample_abi (\<lambda>_ _ _. replicate 20 9))"

lemma sample_chain_sel [simp]:
  "abi_params sample_chain = sample_abi" "keccak256 sample_chain = (\<lambda>_. replicate 32 3)"
  by (simp_all add: sample_chain_def proto_lib.defs chain_lib.defs)

lemma sample_abi_lawful: "abi_lawful sample_chain"
  by (simp add: abi_lawful_def sample_abi_def)

definition sample_bundler :: bundler where
  "sample_bundler =
     \<lparr>bu_gas_price = Inr (1, 1), bu_estimate = (\<lambda>_. Inr \<lparr>ge_pre_verification_gas = 1, ge_verification_gas_limit = 1, ge_call_gas_limit = 1\<rparr>),
      bu_sponsor = (\<lambda>_. Inr None), bu_send = (\<lambda>_. Inr [7]), bu_receipt = (\<lambda>_. Inr None)\<rparr>"

definition sample_smart :: smart_env where
  "sample_smart =
     \<lparr>sv_code = Inr [1], sv_entry_nonce = Inr (replicate 32 0), sv_bundler = sample_bundler, sv_stub = [], sv_sign = (\<lambda>h w. Inr [5]),
      sv_receipts = [Inr (Some \<lparr>or_success = True, or_transaction_hash = [8]\<rparr>)], sv_late = []\<rparr>"

section \<open>Properties\<close>

text \<open>The chain records the grant the owner signed: the arguments of the \<open>grant\<close> call are, word for
  word, the EIP-712 encoding of the terms after its type hash, so the contract recomputes the same
  grant id and digest.\<close>

theorem grant_calldata_is_signed_struct:
  assumes "abi_lawful A" and "\<forall>m. length (keccak256 A m) = 32" and "terms_wf t"
  shows "struct_bytes A t = typehash A @ take 288 (drop 4 (calls_grant A (grant_args_of t) owner_sig))"
proof -
  from grant_words [OF assms(3), of A] obtain ws where
    ws: "static_words (grant_tuple (grant_args_of t)) = Some ws" "struct_bytes A t = typehash A @ ws" "length ws = 288"
    by blast
  have "take 288 (abi_params A [ATuple (grant_tuple (grant_args_of t)), ABytes owner_sig]) = ws"
    using assms(1) ws unfolding abi_lawful_def by metis
  then show ?thesis using ws(2) assms(2) by (simp add: calls_grant_def calldata_def selector_def)
qed

theorem grant_calldata_is_signed_struct_witness:
  "struct_bytes sample_chain sample_terms =
     typehash sample_chain @ take 288 (drop 4 (calls_grant sample_chain (grant_args_of sample_terms) []))"
  using grant_calldata_is_signed_struct [OF sample_abi_lawful, of sample_terms "[]"]
  by (simp add: terms_wf_def sample_terms_def)

text \<open>C33. What reaches the bundler is what was authorised: an operation the smart account writer hands
  over carries the signature of the owner's signer over exactly its own hash, comes from the owner's
  account and executes the given batch; without a signature nothing is sent.\<close>

theorem user_op_sent_is_signed:
  assumes "smart_submit A k d chain_id v batch about = Some (r, sent)"
  shows "(\<forall>op. sent = Some op \<longrightarrow>
      (\<exists>h. op_hash A chain_id op = Some h \<and> sv_sign v h about = Inr (ro_signature op)) \<and>
      ro_sender op = account_address A k \<and> ro_call_data op = batch_call_data A d batch) \<and>
    (is_ok r \<longrightarrow> sent \<noteq> None)"
proof -
  have "is_ok r \<longrightarrow> sent \<noteq> None"
    using assms
    by (auto simp: smart_submit_def send_call_data_def op_submit_def Let_def is_ok_def
        split: if_splits sum.splits option.splits prod.splits)
  moreover have "(\<exists>h. op_hash A chain_id op = Some h \<and> sv_sign v h about = Inr (ro_signature op)) \<and>
      ro_sender op = account_address A k \<and> ro_call_data op = batch_call_data A d batch" if "sent = Some op" for op
    using send_call_data_sent [of A k chain_id v "batch_call_data A d batch" about r op] assms that
    by (auto simp: smart_submit_def split: if_splits)
  ultimately show ?thesis by blast
qed

theorem user_op_sent_is_signed_witness:
  "\<exists>op. smart_submit sample_chain (kernel_new (RvDeviceKey [] [] [] True))
      \<lparr>dep_registry = [1], dep_policy = [2], dep_audit = [3], dep_p256_validator = None\<rparr> 31337 sample_smart
      [CRevoke [4] [5]] (WRevoke [4]) = Some (Inr [8], Some op) \<and> ro_signature op = [5]"
proof -
  let ?k = "kernel_new (RvDeviceKey [] [] [] True)"
  let ?d = "\<lparr>dep_registry = [1], dep_policy = [2], dep_audit = [3], dep_p256_validator = None\<rparr>"
  obtain op where run: "smart_submit sample_chain ?k ?d 31337 sample_smart [CRevoke [4] [5]] (WRevoke [4]) = Some (Inr [8], Some op)"
    by (simp add: smart_submit_def send_call_data_def smart_op_def next_nonce_def sample_smart_def op_submit_def
        prepare_op_def with_estimate_def sample_bundler_def op_hash_def packed_def paymaster_and_data_def to_u128_def)
  then have "\<exists>h. sv_sign sample_smart h (WRevoke [4]) = Inr (ro_signature op)"
    using user_op_sent_is_signed [OF run] by blast
  then show ?thesis using run by (simp add: sample_smart_def)
qed

end
