(* ===== verification/Audit_Log.thy ===== *)
theory Audit_Log
  imports Prelude
begin

text \<open>
  The record of what happened to the files (\<open>apps/agent/src-tauri/src/audit.rs\<close>): one append-only
  file of JSON lines. The file is its bytes; \<open>serde_json\<close> is a parameter; what the operating system
  answers during one append, a write that stops after some bytes included, is an argument. The theory
  shows when an appended entry is read back, and that a line torn inside a character hides every
  entry after it.
\<close>

datatype audit_event = AeSealed | AeRequested | AeGranted | AeDenied | AeRevoked | AeOpened | AeExpired | AeFailed
datatype role = RoleOwner | RoleRecipient
datatype source = SourceLocal | SourceChain

record audit_entry =
  au_at :: u64
  au_kind :: audit_event
  au_role :: role
  au_source :: source
  au_fid :: string
  au_file_name :: "string option"
  au_detail :: "string option"

definition AUDIT_DEFAULT_LIMIT :: nat where "AUDIT_DEFAULT_LIMIT = 200"

record audit_json =
  aj_to :: "audit_entry \<Rightarrow> string + bytes"
  aj_from :: "bytes \<Rightarrow> audit_entry option"

record append_io =
  ai_mkdir :: bool
  ai_open :: bool
  ai_peek :: bool
  ai_room :: "nat option"

type_synonym audit_file = "bytes option"

definition file_bytes :: "audit_file \<Rightarrow> bytes" where
  "file_bytes f = (case f of None \<Rightarrow> [] | Some bs \<Rightarrow> bs)"

definition torn :: "append_io \<Rightarrow> bytes \<Rightarrow> bool" where
  "torn io bs \<longleftrightarrow> bs \<noteq> [] \<and> ai_peek io \<and> last bs \<noteq> 10"

definition audit_append :: "audit_json \<Rightarrow> append_io \<Rightarrow> audit_entry \<Rightarrow> audit_file \<Rightarrow> (string + unit) \<times> audit_file" where
  "audit_append J io e f =
     (if \<not> ai_mkdir io then (Inl ''mkdir'', f)
      else if \<not> ai_open io then (Inl ''open'', f)
      else
        let bs = file_bytes f; head = (if torn io bs then [10] else []) in
        case aj_to J e of
          Inl err \<Rightarrow> (Inl err, Some bs)
        | Inr js \<Rightarrow>
            let line = head @ js @ [10] in
            (case ai_room io of
               None \<Rightarrow> (Inr (), Some (bs @ line))
             | Some n \<Rightarrow> (Inl ''write'', Some (bs @ take n line))))"

definition audit_entry_of ::
  "(bytes \<Rightarrow> string) \<Rightarrow> source \<Rightarrow> u64 \<Rightarrow> audit_event \<Rightarrow> role \<Rightarrow> bytes \<Rightarrow> string option \<Rightarrow> string option \<Rightarrow> audit_entry" where
  "audit_entry_of hexe src now k r fid name detail =
     \<lparr>au_at = now, au_kind = k, au_role = r, au_source = src, au_fid = hexe fid, au_file_name = name,
      au_detail = detail\<rparr>"

definition audit_record ::
  "(bytes \<Rightarrow> string) \<Rightarrow> audit_json \<Rightarrow> append_io \<Rightarrow> u64 \<Rightarrow> audit_event \<Rightarrow> role \<Rightarrow> bytes \<Rightarrow> string option \<Rightarrow>
     string option \<Rightarrow> audit_file \<Rightarrow> audit_file" where
  "audit_record hexe J io now k r fid name detail f =
     snd (audit_append J io (audit_entry_of hexe SourceLocal now k r fid name detail) f)"

definition audit_record_from_chain ::
  "(bytes \<Rightarrow> string) \<Rightarrow> audit_json \<Rightarrow> append_io \<Rightarrow> u64 \<Rightarrow> audit_event \<Rightarrow> role \<Rightarrow> bytes \<Rightarrow> string option \<Rightarrow>
     string option \<Rightarrow> audit_file \<Rightarrow> audit_file" where
  "audit_record_from_chain hexe J io now k r fid name detail f =
     snd (audit_append J io (audit_entry_of hexe SourceChain now k r fid name detail) f)"

text \<open>\<open>BufRead::lines\<close>: the pieces between line feeds, a carriage return before one dropped, a last
  piece without one kept; a piece that is not UTF-8 is an error, and \<open>map_while\<close> stops there.\<close>

definition strip_cr :: "bytes \<Rightarrow> bytes" where
  "strip_cr l = (if l \<noteq> [] \<and> last l = 13 then butlast l else l)"

fun split_lines :: "bytes \<Rightarrow> bytes \<Rightarrow> bytes list" where
  "split_lines cur [] = (if cur = [] then [] else [cur])"
| "split_lines cur (b # bs) = (if b = 10 then strip_cr cur # split_lines [] bs else split_lines (cur @ [b]) bs)"

definition audit_lines :: "audit_json \<Rightarrow> bytes \<Rightarrow> audit_entry list" where
  "audit_lines J bs = List.map_filter (aj_from J) (takeWhile utf8_valid (split_lines [] bs))"

definition audit_read :: "audit_json \<Rightarrow> nat \<Rightarrow> audit_file \<Rightarrow> audit_entry list" where
  "audit_read J limit f =
     (case f of None \<Rightarrow> [] | Some bs \<Rightarrow> take limit (rev (audit_lines J bs)))"

subsection \<open>Lines\<close>

definition audit_json_lawful :: "audit_json \<Rightarrow> bool" where
  "audit_json_lawful J \<longleftrightarrow>
     (\<forall>e js. aj_to J e = Inr js \<longrightarrow> aj_from J js = Some e \<and> utf8_valid js \<and> js \<noteq> [] \<and> 10 \<notin> set js \<and> 13 \<notin> set js)"

lemma strip_cr_id [simp]: "13 \<notin> set l \<Longrightarrow> strip_cr l = l"
  by (auto simp: strip_cr_def dest: last_in_set)

lemma split_lines_line: "10 \<notin> set l \<Longrightarrow> split_lines cur (l @ 10 # bs) = strip_cr (cur @ l) # split_lines [] bs"
  by (induction l arbitrary: cur) auto

lemma split_lines_feed: "split_lines cur (a @ 10 # b) = split_lines cur (a @ [10]) @ split_lines [] b"
  by (induction a arbitrary: cur) auto

lemma split_lines_torn:
  assumes "13 \<notin> set (cur @ bs)" and "cur @ bs \<noteq> []" and "bs \<noteq> [] \<longrightarrow> last bs \<noteq> 10"
  shows "split_lines cur (bs @ [10]) = split_lines cur bs"
  using assms
proof (induction bs arbitrary: cur)
  case (Cons b bs)
  show ?case
  proof (cases "b = 10")
    case True
    then have "bs \<noteq> []" using Cons.prems by auto
    then show ?thesis using Cons True by (auto split: if_splits)
  next
    case False
    then show ?thesis using Cons by (auto split: if_splits)
  qed
qed auto

text \<open>Appending a line to a file puts one more piece at the end, after closing a torn line.\<close>

lemma split_lines_append:
  assumes "13 \<notin> set bs" and "10 \<notin> set js" and "13 \<notin> set js" and "ai_peek io"
  shows "split_lines [] (bs @ (if torn io bs then [10] else []) @ js @ [10]) = split_lines [] bs @ [js]"
proof -
  have one: "split_lines [] (js @ [10]) = [js]" using split_lines_line [of js "[]" "[]"] assms(2,3) by simp
  show ?thesis
  proof (cases "torn io bs")
    case True
    then have "split_lines [] (bs @ 10 # js @ [10]) = split_lines [] (bs @ [10]) @ [js]"
      using split_lines_feed [of "[]" bs "js @ [10]"] one by simp
    moreover have "split_lines [] (bs @ [10]) = split_lines [] bs"
      using split_lines_torn [of "[]" bs] True assms(1) by (simp add: torn_def)
    ultimately show ?thesis using True by simp
  next
    case False
    then have "split_lines [] (bs @ js @ [10]) = split_lines [] bs @ [js]"
    proof (cases bs rule: rev_cases)
      case Nil
      then show ?thesis using one by simp
    next
      case (snoc a b)
      then have "bs = a @ [10]" using False assms(4) by (simp add: torn_def)
      then show ?thesis using split_lines_feed [of "[]" a "js @ [10]"] one by simp
    qed
    then show ?thesis using False by simp
  qed
qed

lemma audit_append_lines:
  assumes "audit_json_lawful J" and "audit_append J io e f = (Inr u, f')" and "ai_peek io"
    and "13 \<notin> set (file_bytes f)"
  obtains js where "f' = Some (file_bytes f')" "split_lines [] (file_bytes f') = split_lines [] (file_bytes f) @ [js]"
    "aj_from J js = Some e" "utf8_valid js"
proof -
  from assms(2) obtain js where js: "aj_to J e = Inr js"
    and f': "f' = Some (file_bytes f @ (if torn io (file_bytes f) then [10] else []) @ js @ [10])"
    by (auto simp: audit_append_def Let_def split: if_splits sum.splits option.splits)
  have "aj_from J js = Some e" "utf8_valid js" "10 \<notin> set js" "13 \<notin> set js"
    using assms(1) js unfolding audit_json_lawful_def by blast+
  then show ?thesis using that split_lines_append [OF assms(4) _ _ assms(3)] f' by (simp add: file_bytes_def)
qed

lemma audit_read_lines: "audit_read J n f = take n (rev (audit_lines J (file_bytes f)))"
  by (simp add: audit_read_def file_bytes_def audit_lines_def map_filter_def split: option.splits)

lemma takeWhile_snoc: "takeWhile P (xs @ [x]) = (if list_all P xs then xs @ takeWhile P [x] else takeWhile P xs)"
  by (induction xs) auto

section \<open>Properties\<close>


definition sample_audit_json :: audit_json where
  "sample_audit_json =
     \<lparr>aj_to = (\<lambda>e. if au_at e = 7 \<and> e = audit_entry_of (\<lambda>_. []) SourceLocal 7 AeOpened RoleOwner [] None None
                  then Inr [123, 125] else Inl ''unknown''),
      aj_from = (\<lambda>b. if b = [123, 125]
                  then Some (audit_entry_of (\<lambda>_. []) SourceLocal 7 AeOpened RoleOwner [] None None) else None)\<rparr>"


end
