(* ===== verification/Agent_Chain.thy ===== *)
theory Agent_Chain
  imports Ledger Chain_Calls Audit_Log
begin

text \<open>
  The agent's link to the chain (\<open>apps/agent/src-tauri/src/chain.rs\<close>): which link the environment asks
  for, writes with the deferred ones in front, the confirmation policy on user operations, and merging
  chain events into the record. The writer and the node are behind traits in the code; what they
  answer is an argument.
\<close>

subsection \<open>What the agent calls from elsewhere\<close>

record agent_lib = auth_lib +
  hexe :: "bytes \<Rightarrow> string"
  hexd :: "string \<Rightarrow> bytes option"
  cbor_assertion :: "assertion \<Rightarrow> string + bytes"

definition hex_lawful :: "'x agent_lib_scheme \<Rightarrow> bool" where
  "hex_lawful A \<longleftrightarrow> (\<forall>b. hexd A (hexe A b) = Some b)"

lemma hex_lawfulD: "hex_lawful A \<Longrightarrow> hexd A (hexe A b) = Some b"
  by (simp add: hex_lawful_def)

lemma hexe_inj: "hex_lawful A \<Longrightarrow> hexe A a = hexe A b \<longleftrightarrow> a = b"
  by (metis hex_lawfulD option.inject)

text \<open>\<open>hex::decode_to_slice\<close> into 32 bytes.\<close>

definition hex32 :: "'x agent_lib_scheme \<Rightarrow> string \<Rightarrow> bytes option" where
  "hex32 A s = (case hexd A s of Some b \<Rightarrow> if length b = 32 then Some b else None | None \<Rightarrow> None)"

lemma hex32_hexe: "hex_lawful A \<Longrightarrow> length b = 32 \<Longrightarrow> hex32 A (hexe A b) = Some b"
  by (simp add: hex32_def hex_lawfulD)

subsection \<open>Configuration\<close>

record embedded =
  em_rpc :: "string option"
  em_deployment_json :: "string option"
  em_bundler :: "string option"
  em_paymaster_policy :: "string option"

datatype deployment_source = DsPath string | DsJson string

datatype mode = Direct | SmartAccount | ModeReadOnly

fun mode_word :: "mode \<Rightarrow> string" where
  "mode_word Direct = ''direct''"
| "mode_word SmartAccount = ''smart_account''"
| "mode_word ModeReadOnly = ''read_only''"

record env_config =
  ec_rpc :: string
  ec_deployment :: deployment_source
  ec_key :: "string option"
  ec_bundler :: "string option"
  ec_paymaster_policy :: "string option"

definition env_get :: "(string \<Rightarrow> string option) \<Rightarrow> string \<Rightarrow> string option" where
  "env_get env name =
     (case env name of None \<Rightarrow> None | Some v \<Rightarrow> let t = trim v in if t = [] then None else Some t)"

definition or_else :: "'v option \<Rightarrow> 'v option \<Rightarrow> 'v option" where
  "or_else a b = (case a of Some x \<Rightarrow> Some x | None \<Rightarrow> b)"

definition resolve :: "string \<Rightarrow> (string \<Rightarrow> string option) \<Rightarrow> embedded \<Rightarrow> env_config option" where
  "resolve checkout env em =
     (case or_else (env_get env ''ZBACS_CHAIN_RPC'') (em_rpc em) of
        None \<Rightarrow> None
      | Some rpc \<Rightarrow>
          Some \<lparr>ec_rpc = rpc,
                ec_deployment =
                  (case env_get env ''ZBACS_CHAIN_DEPLOYMENT'' of
                     Some p \<Rightarrow> DsPath p
                   | None \<Rightarrow> (case em_deployment_json em of Some j \<Rightarrow> DsJson j | None \<Rightarrow> DsPath checkout)),
                ec_key = env_get env ''ZBACS_CHAIN_KEY'',
                ec_bundler = or_else (env_get env ''ZBACS_BUNDLER_URL'') (em_bundler em),
                ec_paymaster_policy = or_else (env_get env ''ZBACS_PAYMASTER_POLICY'') (em_paymaster_policy em)\<rparr>)"

subsection \<open>The link\<close>

record chain_writer =
  cw_owner :: address
  cw_submit :: "chain_call list \<Rightarrow> chain_write \<Rightarrow> chain_error + bytes"
  cw_bump :: "bytes \<Rightarrow> bytes \<Rightarrow> chain_error + bytes"

record chain_link =
  ln_writer :: "chain_writer option"
  ln_deployment :: deployment
  ln_chain_id :: u64
  ln_mode :: mode
  ln_defers :: bool

fun chain_display :: "chain_error \<Rightarrow> string" where
  "chain_display (ChUnreachable e) = ''chain unreachable: '' @ e"
| "chain_display (ChRejected e) = ''rejected on chain: '' @ e"
| "chain_display (ChMalformed e) = ''unexpected chain data: '' @ e"
| "chain_display (ChConfig e) = ''configuration: '' @ e"

text \<open>How the writer is built, and the link that comes of it. What the node and the writers' own
  constructors answer are arguments.\<close>

datatype writer_setup = WsNone | WsKey string | WsAccount string "string option" root_validator bool

definition root_validator_for :: "device_profile \<Rightarrow> address option \<Rightarrow> root_validator option" where
  "root_validator_for prof p256_validator =
     (case dp_public_key prof of
        None \<Rightarrow> None
      | Some key \<Rightarrow>
          (case dp_signer prof of
             DeviceKey \<Rightarrow> map_option (\<lambda>v. RvDeviceKey v (px key) (py key) (dp_require_os_confirm prof)) p256_validator
           | PlatformPasskey \<Rightarrow> Some (RvWebAuthn (px key) (py key) (dp_credential prof))
           | _ \<Rightarrow> None))"

definition writer_setup_for :: "env_config \<Rightarrow> deployment \<Rightarrow> device_profile option \<Rightarrow> writer_setup" where
  "writer_setup_for config dep held =
     (case ec_key config of
        Some key \<Rightarrow> WsKey key
      | None \<Rightarrow>
          (case (ec_bundler config, held) of
             (Some urls, Some prof) \<Rightarrow>
               (case root_validator_for prof (dep_p256_validator dep) of
                  Some root \<Rightarrow> WsAccount urls (ec_paymaster_policy config) root (dp_signer prof = PlatformPasskey)
                | None \<Rightarrow> WsNone)
           | _ \<Rightarrow> WsNone))"

definition link_connect ::
  "chain_error option \<Rightarrow> string + u64 \<Rightarrow> (string \<Rightarrow> chain_error + chain_writer) \<Rightarrow>
     (string \<Rightarrow> string option \<Rightarrow> root_validator \<Rightarrow> chain_error + chain_writer) \<Rightarrow> deployment \<Rightarrow> writer_setup \<Rightarrow>
     string + chain_link" where
  "link_connect reader_err chain_id direct account dep ws =
     (case reader_err of
        Some e \<Rightarrow> Inl (chain_display e)
      | None \<Rightarrow>
          rbind (map_err (\<lambda>e. ''chain id: '' @ e) chain_id) (\<lambda>cid.
            let link = (\<lambda>w m df. \<lparr>ln_writer = w, ln_deployment = dep, ln_chain_id = cid, ln_mode = m, ln_defers = df\<rparr>) in
            case ws of
              WsNone \<Rightarrow> Inr (link None ModeReadOnly False)
            | WsKey key \<Rightarrow> rbind (map_err chain_display (direct key)) (\<lambda>w. Inr (link (Some w) Direct False))
            | WsAccount urls pm root prompts \<Rightarrow>
                rbind (map_err chain_display (account urls pm root)) (\<lambda>w. Inr (link (Some w) SmartAccount prompts))))"

definition waiting_calls :: "'x agent_lib_scheme \<Rightarrow> (string \<times> string) list \<Rightarrow> chain_call list" where
  "waiting_calls A waiting =
     List.map_filter (\<lambda>(f, h).
       case (hex32 A f, hex32 A h) of (Some f', Some h') \<Rightarrow> Some (CBumpVersion f' h') | _ \<Rightarrow> None) waiting"

definition link_write ::
  "'x agent_lib_scheme \<Rightarrow> json \<Rightarrow> store_io \<Rightarrow> chain_link \<Rightarrow> chain_call \<Rightarrow> chain_write \<Rightarrow> ledger_disk \<Rightarrow>
     (chain_error + bytes) \<times> ledger_disk" where
  "link_write A J io link call about d =
     (case ln_writer link of
        None \<Rightarrow> (Inl (ChConfig ''no writer''), d)
      | Some w \<Rightarrow>
          let waiting = deferred_bumps J d; batch = waiting_calls A waiting @ [call] in
          (case cw_submit w batch about of
             Inl e \<Rightarrow> (Inl e, d)
           | Inr tx \<Rightarrow>
               if waiting = [] then (Inr tx, d) else (Inr tx, snd (clear_deferred_bumps J io waiting d))))"

definition link_bump_version ::
  "'x agent_lib_scheme \<Rightarrow> json \<Rightarrow> store_io \<Rightarrow> chain_link \<Rightarrow> bytes \<Rightarrow> bytes \<Rightarrow> ledger_disk \<Rightarrow>
     (chain_error + bytes option) \<times> ledger_disk" where
  "link_bump_version A J io link fid hh d =
     (case ln_writer link of
        None \<Rightarrow> (Inl (ChConfig ''no writer''), d)
      | Some w \<Rightarrow>
          if ln_defers link then
            (case defer_bump J io (hexe A fid) (hexe A hh) d of
               (Inl e, d') \<Rightarrow> (Inl (ChConfig e), d')
             | (Inr _, d') \<Rightarrow> (Inr None, d'))
          else (case cw_bump w fid hh of Inl e \<Rightarrow> (Inl e, d) | Inr tx \<Rightarrow> (Inr (Some tx), d)))"

definition link_owner :: "chain_link \<Rightarrow> address option" where
  "link_owner link = map_option cw_owner (ln_writer link)"

record approval_deployment =
  ad_chain_id :: u64
  ad_policy :: address

definition link_approval_deployment :: "chain_link \<Rightarrow> approval_deployment" where
  "link_approval_deployment link = \<lparr>ad_chain_id = ln_chain_id link, ad_policy = dep_policy (ln_deployment link)\<rparr>"

subsection \<open>Merging chain events into the record\<close>

fun decimal :: "nat \<Rightarrow> string" where
  "decimal n = (if n < 10 then [char_of (48 + n)] else decimal (n div 10) @ [char_of (48 + n mod 10)])"

declare decimal.simps [simp del]

fun merged_event :: "chain_event \<Rightarrow> bytes \<times> audit_event \<times> string option" where
  "merged_event (CeGranted _ f p _) = (f, AeGranted, Some (if p = 2 then ''edit'' else ''read_only''))"
| "merged_event (CeRevoked _ f) = (f, AeRevoked, None)"
| "merged_event (CeVersionBumped f v _) = (f, AeSealed, Some (''v'' @ decimal (unat v)))"

fun merge_each ::
  "'x agent_lib_scheme \<Rightarrow> json \<Rightarrow> audit_json \<Rightarrow> append_io \<Rightarrow> u64 \<Rightarrow> ledger_disk \<Rightarrow> chain_event list \<Rightarrow> nat \<Rightarrow>
     audit_file \<Rightarrow> nat \<times> audit_file" where
  "merge_each A J AJ aio now d [] added f = (added, f)"
| "merge_each A J AJ aio now d (ev # evs) added f =
     (let (fid, k, detail) = merged_event ev in
      case find_entry (hexe A) J fid d of
        None \<Rightarrow> merge_each A J AJ aio now d evs added f
      | Some e \<Rightarrow>
          merge_each A J AJ aio now d evs (added + 1)
            (audit_record_from_chain (hexe A) AJ aio now k RoleOwner fid (Some (en_name e)) detail f))"

definition merge_events ::
  "'x agent_lib_scheme \<Rightarrow> json \<Rightarrow> audit_json \<Rightarrow> store_io \<Rightarrow> append_io \<Rightarrow> 'l log_codec \<Rightarrow> string + u64 \<Rightarrow> 'l node_answer \<Rightarrow> u64 \<Rightarrow>
     ledger_disk \<Rightarrow> audit_file \<Rightarrow> (string + nat) \<times> ledger_disk \<times> audit_file" where
  "merge_events A J AJ io aio L block na now d f =
     (case (case chain_cursor J d of Some n \<Rightarrow> Inr n | None \<Rightarrow> block) of
        Inl e \<Rightarrow> (Inl e, d, f)
      | Inr from \<Rightarrow>
          (case poll L na from of
             (Inl e, _) \<Rightarrow> (Inl (chain_display e), d, f)
           | (Inr evs, next_block) \<Rightarrow>
               let (added, f') = merge_each A J AJ aio now d evs 0 f in
               (case set_chain_cursor J io next_block d of
                  (Inl e, d') \<Rightarrow> (Inl e, d', f')
                | (Inr _, d') \<Rightarrow> (Inr added, d', f'))))"

subsection \<open>Signing user operations with the approval key\<close>

fun encode_assertion :: "'x chain_lib_scheme \<Rightarrow> assertion \<Rightarrow> chain_error + bytes" where
  "encode_assertion C (AsP256Raw kid r s) = Inr (p256_raw_signature kid r s)"
| "encode_assertion C (AsWebAuthn ad cd r s) = Inr (webauthn_signature C ad cd r s True)"
| "encode_assertion C _ = Inl (ChConfig ''this assertion cannot authorise a user operation'')"

definition op_confirmation ::
  "confirmation_policy \<Rightarrow> confirmation \<Rightarrow> u64 list \<Rightarrow> u64 \<Rightarrow> chain_write \<Rightarrow> permission \<times> confirmation" where
  "op_confirmation p setting recent now about =
     (case about of
        WGrant f perm \<Rightarrow>
          let permission = (if perm = 2 then Edit else ReadOnly) in
          (permission, required p \<lparr>ac_permission = permission, ac_file_id = f\<rparr> setting recent now)
      | WRegister _ \<Rightarrow> (ReadOnly, setting)
      | WRevoke _ \<Rightarrow> (ReadOnly, setting)
      | WBumpVersion _ \<Rightarrow> (ReadOnly, NotRequired))"

text \<open>The texts of the errors, as their \<open>Display\<close> prints them; callers look into them.\<close>

fun kind_debug :: "signer_kind \<Rightarrow> string" where
  "kind_debug PlatformPasskey = ''PlatformPasskey''"
| "kind_debug DeviceKey = ''DeviceKey''"
| "kind_debug Bsa = ''Bsa''"
| "kind_debug Otak = ''Otak''"

fun confirmation_debug :: "confirmation \<Rightarrow> string" where
  "confirmation_debug NotRequired = ''NotRequired''"
| "confirmation_debug OsUserVerification = ''OsUserVerification''"

fun auth_display :: "auth_error \<Rightarrow> string" where
  "auth_display AuCancelled = ''approval cancelled by user''"
| "auth_display (ConfirmationUnavailable k c) = ''signer '' @ kind_debug k @ '' cannot provide '' @ confirmation_debug c"
| "auth_display (AuHardware e) = ''authenticator error: '' @ e"
| "auth_display (AuUnsupported k) = ''signer kind '' @ kind_debug k @ '' is not available on this device''"
| "auth_display (AuMalformed e) = ''assertion is malformed: '' @ e"
| "auth_display AuInvalidSignature = ''assertion does not verify against the registered key''"
| "auth_display AuHighS = ''signature is not low-s normalised''"
| "auth_display AuChallengeMismatch = ''client data challenge mismatch''"
| "auth_display AuUserVerificationMissing = ''authenticator did not report user presence/verification''"
| "auth_display (AuEncode e) = ''encoding: '' @ e"

definition sign_user_op ::
  "'x chain_lib_scheme \<Rightarrow> (approval_challenge \<Rightarrow> confirmation \<Rightarrow> auth_error + assertion) \<Rightarrow> confirmation_policy \<Rightarrow>
     confirmation \<Rightarrow> u64 \<Rightarrow> bytes \<Rightarrow> chain_write \<Rightarrow> u64 list \<Rightarrow> (chain_error + bytes) \<times> u64 list" where
  "sign_user_op C sign p setting now h about recent =
     (let (permission, conf) = op_confirmation p setting recent now about;
          challenge = \<lparr>ch_digest = h, ch_context = \<lparr>ac_permission = permission, ac_file_id = write_file_id about\<rparr>\<rparr>
      in case sign challenge conf of
           Inl e \<Rightarrow> (Inl (ChConfig (''approval signature: '' @ auth_display e)), recent)
         | Inr a \<Rightarrow> (encode_assertion C a, (case about of WGrant _ _ \<Rightarrow> recent @ [now] | _ \<Rightarrow> recent)))"

subsection \<open>Deferred version anchors\<close>

text \<open>
  The queue of versions waiting for a tap, as other tasks see it: a write reads the queue, submits,
  and clears what landed, and between these any other task may queue or change the record. The state
  is the disk, the calls that landed, the batches not yet cleared, and what was queued and not yet
  replaced by a newer version of the same file.
\<close>

record queue_state =
  qs_disk :: ledger_disk
  qs_landed :: "chain_call set"
  qs_clearing :: "(string \<times> string) list set"
  qs_owed :: "(bytes \<times> bytes) set"

inductive queue_step :: "'x agent_lib_scheme \<Rightarrow> json \<Rightarrow> chain_link \<Rightarrow> queue_state \<Rightarrow> queue_state \<Rightarrow> bool"
  for A J link where
  q_bump: "link_bump_version A J io link fid hh d = (r, d') \<Longrightarrow> length fid = 32 \<Longrightarrow> length hh = 32 \<Longrightarrow>
     queue_step A J link \<lparr>qs_disk = d, qs_landed = L, qs_clearing = C, qs_owed = W\<rparr>
       \<lparr>qs_disk = d', qs_landed = L, qs_clearing = C,
        qs_owed = (if r = Inr None then insert (fid, hh) {p \<in> W. fst p \<noteq> fid} else W)\<rparr>"
| q_submit: "ln_writer link = Some w \<Longrightarrow> waiting = deferred_bumps J d \<Longrightarrow>
     cw_submit w (waiting_calls A waiting @ [call]) about = Inr tx \<Longrightarrow>
     queue_step A J link \<lparr>qs_disk = d, qs_landed = L, qs_clearing = C, qs_owed = W\<rparr>
       \<lparr>qs_disk = d, qs_landed = L \<union> set (waiting_calls A waiting @ [call]), qs_clearing = insert waiting C, qs_owed = W\<rparr>"
| q_clear: "waiting \<in> C \<Longrightarrow> clear_deferred_bumps J io waiting d = (r2, d') \<Longrightarrow>
     queue_step A J link \<lparr>qs_disk = d, qs_landed = L, qs_clearing = C, qs_owed = W\<rparr>
       \<lparr>qs_disk = d', qs_landed = L, qs_clearing = C - {waiting}, qs_owed = W\<rparr>"
| q_record: "record_entry J io e d = (r3, d') \<Longrightarrow> queue_step A J link (s\<lparr>qs_disk := d\<rparr>) (s\<lparr>qs_disk := d'\<rparr>)"
| q_advance: "advance_version (hexe A) J io fid prev nxt ver env d = (r4, d') \<Longrightarrow>
     queue_step A J link (s\<lparr>qs_disk := d\<rparr>) (s\<lparr>qs_disk := d'\<rparr>)"
| q_grant: "record_grant J io g d = (r3, d') \<Longrightarrow> queue_step A J link (s\<lparr>qs_disk := d\<rparr>) (s\<lparr>qs_disk := d'\<rparr>)"
| q_revoke: "mark_revoked J io gid now tx' d = (r5, d') \<Longrightarrow> queue_step A J link (s\<lparr>qs_disk := d\<rparr>) (s\<lparr>qs_disk := d'\<rparr>)"
| q_cursor: "set_chain_cursor J io b d = (r3, d') \<Longrightarrow> queue_step A J link (s\<lparr>qs_disk := d\<rparr>) (s\<lparr>qs_disk := d'\<rparr>)"
| q_nonce: "next_grant_nonce J io d = (r6, d') \<Longrightarrow> queue_step A J link (s\<lparr>qs_disk := d\<rparr>) (s\<lparr>qs_disk := d'\<rparr>)"

inductive queue_run :: "'x agent_lib_scheme \<Rightarrow> json \<Rightarrow> chain_link \<Rightarrow> queue_state \<Rightarrow> queue_state \<Rightarrow> bool" for A J link where
  qr_nil: "queue_run A J link s s"
| qr_step: "queue_step A J link s s1 \<Longrightarrow> queue_run A J link s1 s' \<Longrightarrow> queue_run A J link s s'"

definition queue_inv :: "'x agent_lib_scheme \<Rightarrow> json \<Rightarrow> queue_state \<Rightarrow> bool" where
  "queue_inv A J s \<longleftrightarrow> is_ok (load J (qs_disk s)) \<and>
     (\<forall>(f, h) \<in> qs_owed s. length f = 32 \<and> length h = 32 \<and>
        ((hexe A f, hexe A h) \<in> set (deferred_bumps J (qs_disk s)) \<or> CBumpVersion f h \<in> qs_landed s)) \<and>
     (\<forall>w \<in> qs_clearing s. set (waiting_calls A w) \<subseteq> qs_landed s)"

lemma waiting_calls_mem:
  assumes "hex_lawful A" and "(hexe A f, hexe A h) \<in> set w" and "length f = 32" and "length h = 32"
  shows "CBumpVersion f h \<in> set (waiting_calls A w)"
  using assms(2) hex32_hexe [OF assms(1,3)] hex32_hexe [OF assms(1,4)]
  by (force simp: waiting_calls_def List.map_filter_def image_iff)

definition keeps_queue :: "json \<Rightarrow> ledger_disk \<Rightarrow> ledger_disk \<Rightarrow> bool" where
  "keeps_queue J d d' \<longleftrightarrow> deferred_bumps J d' = deferred_bumps J d \<and> is_ok (load J d') = is_ok (load J d)"

lemma quiet_queue:
  assumes "json_lawful J" and "ledger_update J io f d = (r, d')"
    and "\<And>l out l'. f l = Inr (out, l') \<Longrightarrow> lf_deferred_bumps l' = lf_deferred_bumps l"
  shows "keeps_queue J d d'"
  by (rule ledger_update_cases [OF assms(1,2)]) (auto simp: keeps_queue_def deferred_bumps_def is_ok_def assms(3))

lemma quiet_ops:
  assumes "json_lawful J"
  shows "record_entry J io e d = (r1, d') \<Longrightarrow> keeps_queue J d d'"
    and "advance_version hx J io fid prev nxt ver env d = (r2, d') \<Longrightarrow> keeps_queue J d d'"
    and "record_grant J io g d = (r1, d') \<Longrightarrow> keeps_queue J d d'"
    and "mark_revoked J io gid now tx d = (r3, d') \<Longrightarrow> keeps_queue J d d'"
    and "set_chain_cursor J io b d = (r1, d') \<Longrightarrow> keeps_queue J d d'"
    and "next_grant_nonce J io d = (r4, d') \<Longrightarrow> keeps_queue J d d'"
  unfolding ledger_ops
  by (erule quiet_queue [OF assms],
      (auto simp: rbind_eq_Inr ok_or_eq_Inr Let_def split: if_splits)[1])+

lemma queue_inv_disk:
  assumes "queue_inv A J (s\<lparr>qs_disk := d\<rparr>)" and "keeps_queue J d d'"
  shows "queue_inv A J (s\<lparr>qs_disk := d'\<rparr>)"
  using assms by (simp add: queue_inv_def keeps_queue_def)

lemma bump_queues:
  assumes "json_lawful J" and "link_bump_version A J io link fid hh d = (r, d')" and "is_ok (load J d)"
  shows "is_ok (load J d') \<and>
    (deferred_bumps J d' = deferred_bumps J d \<and> r \<noteq> Inr None \<or>
     deferred_bumps J d' = filter (\<lambda>b. fst b \<noteq> hexe A fid) (deferred_bumps J d) @ [(hexe A fid, hexe A hh)] \<and> r = Inr None)"
proof (cases "ln_writer link")
  case (Some w)
  show ?thesis
  proof (cases "ln_defers link")
    case True
    obtain q where q: "defer_bump J io (hexe A fid) (hexe A hh) d = (q, d')"
      using assms(2) Some True by (auto simp: link_bump_version_def split: prod.splits sum.splits)
    then have r: "r = (case q of Inl e \<Rightarrow> Inl (ChConfig e) | Inr _ \<Rightarrow> Inr None)"
      using assms(2) Some True by (auto simp: link_bump_version_def split: prod.splits sum.splits)
    show ?thesis
      by (rule ledger_update_cases [OF assms(1) q [unfolded defer_bump_def]])
        (use r assms(3) in \<open>auto simp: deferred_bumps_def is_ok_def\<close>)
  qed (use assms Some in \<open>auto simp: link_bump_version_def split: sum.splits\<close>)
qed (use assms in \<open>auto simp: link_bump_version_def\<close>)

lemma clear_queues:
  assumes "json_lawful J" and "clear_deferred_bumps J io w d = (r, d')"
  shows "is_ok (load J d') = is_ok (load J d)"
    and "b \<in> set (deferred_bumps J d) \<Longrightarrow> b \<notin> set w \<Longrightarrow> b \<in> set (deferred_bumps J d')"
  by (rule ledger_update_cases [OF assms(1) assms(2) [unfolded clear_deferred_bumps_def]];
      auto simp: deferred_bumps_def is_ok_def)+

lemma queue_step_inv:
  assumes "queue_step A J link s s'" and "json_lawful J" and "hex_lawful A" and "queue_inv A J s"
  shows "queue_inv A J s'"
  using assms(1)
proof cases
  case (q_bump io fid hh d r d' L C W)
  have ok: "is_ok (load J d)" using assms(4) q_bump by (simp add: queue_inv_def)
  show ?thesis
    using bump_queues [OF assms(2) q_bump(3) ok] assms(4) q_bump hexe_inj [OF assms(3)]
    by (auto simp: queue_inv_def)
next
  case (q_submit w waiting d call about tx L C W)
  then show ?thesis using assms(4) by (fastforce simp: queue_inv_def)
next
  case (q_clear waiting C io d r2 d' L W)
  have "CBumpVersion f h \<in> L"
    if "(f, h) \<in> W" "(hexe A f, hexe A h) \<in> set (deferred_bumps J d)" "(hexe A f, hexe A h) \<notin> set (deferred_bumps J d')" for f h
  proof -
    have "(hexe A f, hexe A h) \<in> set waiting" using clear_queues(2) [OF assms(2) q_clear(4)] that by blast
    then have "CBumpVersion f h \<in> set (waiting_calls A waiting)"
      using waiting_calls_mem [OF assms(3)] that(1) assms(4) q_clear by (auto simp: queue_inv_def)
    then show ?thesis using assms(4) q_clear by (auto simp: queue_inv_def)
  qed
  then show ?thesis using clear_queues(1) [OF assms(2) q_clear(4)] assms(4) q_clear by (fastforce simp: queue_inv_def)
next
  case q_record
  then show ?thesis using queue_inv_disk quiet_ops(1) [OF assms(2)] assms(4) by blast
next
  case q_advance
  then show ?thesis using queue_inv_disk quiet_ops(2) [OF assms(2)] assms(4) by blast
next
  case q_grant
  then show ?thesis using queue_inv_disk quiet_ops(3) [OF assms(2)] assms(4) by blast
next
  case q_revoke
  then show ?thesis using queue_inv_disk quiet_ops(4) [OF assms(2)] assms(4) by blast
next
  case q_cursor
  then show ?thesis using queue_inv_disk quiet_ops(5) [OF assms(2)] assms(4) by blast
next
  case q_nonce
  then show ?thesis using queue_inv_disk quiet_ops(6) [OF assms(2)] assms(4) by blast
qed

lemma queue_run_inv:
  assumes "queue_run A J link s s'" and "json_lawful J" and "hex_lawful A" and "queue_inv A J s"
  shows "queue_inv A J s'"
  using assms(1,4) by induction (use queue_step_inv assms(2,3) in blast)+

text \<open>The agent's own \<open>write\<close> is a submission followed by the clearing of the same batch.\<close>

lemma link_write_run:
  assumes "link_write A J io link call about d = (Inr tx, d')"
  shows "\<exists>L C. queue_run A J link \<lparr>qs_disk = d, qs_landed = {}, qs_clearing = {}, qs_owed = W\<rparr>
    \<lparr>qs_disk = d', qs_landed = L, qs_clearing = C, qs_owed = W\<rparr> \<and> call \<in> L"
proof -
  obtain w where w: "ln_writer link = Some w"
    "cw_submit w (waiting_calls A (deferred_bumps J d) @ [call]) about = Inr tx"
    "d' = (if deferred_bumps J d = [] then d else snd (clear_deferred_bumps J io (deferred_bumps J d) d))"
    using assms by (auto simp: link_write_def Let_def split: option.splits sum.splits if_splits)
  let ?L = "{} \<union> set (waiting_calls A (deferred_bumps J d) @ [call])"
  have sub: "queue_step A J link \<lparr>qs_disk = d, qs_landed = {}, qs_clearing = {}, qs_owed = W\<rparr>
      \<lparr>qs_disk = d, qs_landed = ?L, qs_clearing = {deferred_bumps J d}, qs_owed = W\<rparr>"
    by (rule q_submit [OF w(1) refl w(2)])
  have clr: "queue_step A J link \<lparr>qs_disk = d, qs_landed = ?L, qs_clearing = {deferred_bumps J d}, qs_owed = W\<rparr>
      \<lparr>qs_disk = snd (clear_deferred_bumps J io (deferred_bumps J d) d), qs_landed = ?L,
       qs_clearing = {deferred_bumps J d} - {deferred_bumps J d}, qs_owed = W\<rparr>"
    by (rule q_clear [OF _ prod.collapse [symmetric]]) simp
  show ?thesis
  proof (cases "deferred_bumps J d = []")
    case True
    then show ?thesis using qr_step [OF sub qr_nil] w(3) by force
  next
    case False
    then show ?thesis using qr_step [OF sub qr_step [OF clr qr_nil]] w(3) by force
  qed
qed

subsection \<open>A sample library and link\<close>

definition sample_agent :: agent_lib where
  "sample_agent = auth_lib.extend sample_auth
     (agent_lib.fields (map (\<lambda>b. char_of (unat b))) (\<lambda>s. Some (map (\<lambda>c. word_of_nat (of_char c)) s)) (\<lambda>_. Inr [4]))"

lemma sample_agent_sel [simp]:
  "hexe sample_agent = map (\<lambda>b. char_of (unat b))"
  "hexd sample_agent = (\<lambda>s. Some (map (\<lambda>c. word_of_nat (of_char c)) s))"
  "cbor_assertion sample_agent = (\<lambda>_. Inr [4])"
  by (simp_all add: sample_agent_def auth_lib.defs agent_lib.defs)

lemma sample_agent_hex: "hex_lawful sample_agent"
proof -
  have "word_of_nat (of_char (char_of (unat b))) = b" for b :: byte
    using unsigned_less [where ?'a = nat, of b] by simp
  then have "map ((\<lambda>c. word_of_nat (of_char c)) \<circ> (\<lambda>b. char_of (unat b))) d = d" for d :: bytes
    by (intro map_idI) simp
  then show ?thesis by (simp add: hex_lawful_def)
qed

lemma sample_agent_lib:
  "codec_envelope sample_agent = (\<lambda>_. Inr [8], \<lambda>_. Some (sv_envelope sample_values))"
  "codec_terms sample_agent = (\<lambda>_. Inr [7], \<lambda>_. Some sample_terms)"
  "codec_request sample_agent = (\<lambda>_. Inr [2], \<lambda>_. Some sample_request)"
  "codec_version sample_agent = (\<lambda>_. Inr [5], \<lambda>_. Some (sv_version sample_values))"
  "codec_grant_msg sample_agent = (\<lambda>_. Inr [3], \<lambda>_. Some (sv_grant_msg sample_values))"
  "codec_revoke sample_agent = (\<lambda>_. Inr [4], \<lambda>_. Some sample_revoke)"
  "codec_signed sample_agent = (\<lambda>_. Inr [6], sample_signed)"
  "sha256 sample_agent = (\<lambda>_. replicate 32 7)" "keccak256 sample_agent = (\<lambda>_. replicate 32 3)"
  "hpke_seal sample_agent = (\<lambda>pk info aad pt eph. Some (take 32 eph, pt))"
  "hpke_open sample_agent = (\<lambda>e sk info aad ct. Some ct)" "x25519_base sample_agent = (\<lambda>sk. sk)"
  "ed25519_key_ok sample_agent = (\<lambda>_. True)" "ed25519_verify sample_agent = (\<lambda>pk m s. True)"
  "ed25519_public sample_agent = (\<lambda>sk. replicate 32 1)" "ed25519_sign sample_agent = (\<lambda>sk m. replicate 64 2)"
  by (simp_all add: sample_agent_def sample_auth_def auth_lib.defs agent_lib.defs proto_lib.defs sample_proto_core
      sample_values_def)

lemma sample_agent_core: "sample_core sample_uncbor sample_agent"
  by (simp add: sample_core_def sample_agent_def sample_auth_def sample_proto_def auth_lib.defs agent_lib.defs
      proto_lib.defs core_lib.defs sample_lib_def)

lemma sample_agent_ok: "hpke_opens sample_agent" "ed25519_signs sample_agent"
  by (simp_all add: hpke_opens_def ed25519_signs_def sample_agent_lib)

definition sample_writer :: chain_writer where
  "sample_writer = \<lparr>cw_owner = replicate 20 1, cw_submit = (\<lambda>_ _. Inr (replicate 32 8)), cw_bump = (\<lambda>_ _. Inr (replicate 32 8))\<rparr>"

definition sample_link :: chain_link where
  "sample_link =
     \<lparr>ln_writer = Some sample_writer,
      ln_deployment = \<lparr>dep_registry = [], dep_policy = replicate 20 2, dep_audit = [], dep_p256_validator = None\<rparr>,
      ln_chain_id = 31337, ln_mode = SmartAccount, ln_defers = True\<rparr>"

section \<open>Properties\<close>



end
