(* ===== verification/Approve.thy ===== *)
theory Approve
  imports Agent_Chain
begin

text \<open>
  The owner's side (\<open>apps/agent/src-tauri/src/approve.rs\<close>): taking requests and version notices from
  the inbox, what the screen is told, the terms of an approval, re-wrapping the file's key, answering
  with signature, chain record and message, and pulling an approval back. The clock, the signer, the
  relay's and the node's answers, and the randomness of the key wrap are arguments; what is handed to
  the relay is part of the result, so that what leaves the machine can be spoken of on every path.
\<close>

definition MAX_REQUEST_AGE_SECS :: u64 where "MAX_REQUEST_AGE_SECS = 24 * 3600"
definition NOT_BEFORE_SLACK_SECS :: u64 where "NOT_BEFORE_SLACK_SECS = 120"

definition DEV :: approval_deployment where
  "DEV = \<lparr>ad_chain_id = 31337,
     ad_policy = [0xdc, 0x64, 0xa1, 0x40, 0xaa, 0x3e, 0x98, 0x11, 0x00, 0xa9, 0xbe, 0xca, 0x4e, 0x68, 0x5f, 0x96,
                  0x2f, 0x0c, 0xf6, 0xc9]\<rparr>"

subsection \<open>What the screen sees\<close>

record incoming_card =
  ic_id :: string
  ic_file_name :: "string option"
  ic_known :: bool
  ic_same_version :: bool
  ic_requested :: string
  ic_default_permission :: "string option"
  ic_asked_at :: u64
  ic_can_allow :: bool
  ic_can_allow_edit :: bool

record pending_request =
  pq_request :: access_request
  pq_entry :: "entry option"

definition incoming :: "'x agent_lib_scheme \<Rightarrow> pending_request \<Rightarrow> incoming_card" where
  "incoming A p =
     (let q = pq_request p;
          same = (case pq_entry p of Some e \<Rightarrow> en_header_hash e = hexe A (ar_header_hash q) | None \<Rightarrow> False)
      in \<lparr>ic_id = hexe A (ar_nonce q), ic_file_name = map_option en_name (pq_entry p),
          ic_known = (pq_entry p \<noteq> None), ic_same_version = same,
          ic_requested = (if ar_requested q = 2 then ''edit'' else ''read_only''),
          ic_default_permission = map_option en_permission (pq_entry p), ic_asked_at = ar_ts q,
          ic_can_allow = (pq_entry p \<noteq> None \<and> same), ic_can_allow_edit = True\<rparr>)"

definition incoming_on :: "'x agent_lib_scheme \<Rightarrow> pending_request \<Rightarrow> bool \<Rightarrow> incoming_card" where
  "incoming_on A p edit_ok = (let i = incoming A p in i\<lparr>ic_can_allow_edit := ic_can_allow i \<and> edit_ok\<rparr>)"

definition edit_supported :: "bool \<Rightarrow> confirmation_policy \<Rightarrow> bool" where
  "edit_supported supports_os_confirmation p \<longleftrightarrow> \<not> edit_requires_confirmation p \<or> supports_os_confirmation"

datatype decision_arg = DaDeny | DaReadOnly | DaEdit

fun decision_permission :: "decision_arg \<Rightarrow> permission" where
  "decision_permission DaDeny = Deny"
| "decision_permission DaReadOnly = ReadOnly"
| "decision_permission DaEdit = Edit"

fun decision_arg_word :: "decision_arg \<Rightarrow> string" where
  "decision_arg_word DaDeny = ''deny''"
| "decision_arg_word DaReadOnly = ''read_only''"
| "decision_arg_word DaEdit = ''edit''"

record answered =
  an_id :: string
  an_decision :: string
  an_grant_id :: "string option"
  an_expiry :: "u64 option"
  an_confirmed_by_os :: bool
  an_tx_hash :: "string option"
  an_pending :: "string list"

subsection \<open>The inbox\<close>

definition accept_request :: "'x proto_lib_scheme \<Rightarrow> relay_envelope \<Rightarrow> bytes \<Rightarrow> u64 \<Rightarrow> access_request option" where
  "accept_request X e owner now =
     (if re_kind e \<noteq> KReq then None
      else Option.bind (res_ok (signed_from_bytes X (re_body e))) (\<lambda>s.
        Option.bind (msg_dec (AccessRequest X) (sg_payload s)) (\<lambda>claimed.
          if kid_of X (ar_ed25519_pub claimed) \<noteq> ar_device_kid claimed \<or> ar_device_kid claimed \<noteq> sg_kid s then None
          else Option.bind (res_ok (signed_verify_queued X (AccessRequest X) s (ar_ed25519_pub claimed))) (\<lambda>(q, ts).
            if ar_owner q \<noteq> owner then None
            else if ts > now + MAX_SKEW_SECS \<or> saturating_sub now ts > MAX_REQUEST_AGE_SECS then None
            else if ar_requested q \<noteq> 1 \<and> ar_requested q \<noteq> 2 then None
            else Some q))))"

definition accept_version :: "'x proto_lib_scheme \<Rightarrow> relay_envelope \<Rightarrow> bytes \<Rightarrow> u64 \<Rightarrow> version_msg option" where
  "accept_version X e owner now =
     (if re_kind e \<noteq> KVersion then None
      else Option.bind (res_ok (signed_from_bytes X (re_body e))) (\<lambda>s.
        Option.bind (msg_dec (VersionMsg X) (sg_payload s)) (\<lambda>claimed.
          if kid_of X (vm_ed25519_pub claimed) \<noteq> sg_kid s then None
          else Option.bind (res_ok (signed_verify_queued X (VersionMsg X) s (vm_ed25519_pub claimed))) (\<lambda>(n, ts).
            if vm_owner n \<noteq> owner \<or> ts > now + MAX_SKEW_SECS \<or> saturating_sub now ts > MAX_REQUEST_AGE_SECS then None
            else Some n))))"

subsection \<open>Terms and the re-wrapped key\<close>

definition terms_for :: "'x proto_lib_scheme \<Rightarrow> access_request \<Rightarrow> entry \<Rightarrow> permission \<Rightarrow> u64 \<Rightarrow> u64 \<Rightarrow> access_grant_terms" where
  "terms_for X q e perm gnonce now =
     \<lparr>gt_file_id = ar_fid q, gt_header_hash = ar_header_hash q,
      gt_device_key_hash = device_key_hash X (ar_x25519_pub q) (ar_ed25519_pub q),
      gt_permission = permission_u8 perm, gt_not_before = saturating_sub now NOT_BEFORE_SLACK_SECS,
      gt_expiry = now + max (en_ttl e) 60, gt_max_opens = en_max_opens e, gt_request_nonce = ar_nonce q,
      gt_grant_nonce = gnonce\<rparr>"

lemma terms_for_fields [simp]:
  "gt_file_id (terms_for X q e perm n now) = ar_fid q" "gt_header_hash (terms_for X q e perm n now) = ar_header_hash q"
  "gt_permission (terms_for X q e perm n now) = permission_u8 perm"
  "gt_request_nonce (terms_for X q e perm n now) = ar_nonce q"
  "gt_device_key_hash (terms_for X q e perm n now) = device_key_hash X (ar_x25519_pub q) (ar_ed25519_pub q)"
  by (simp_all add: terms_for_def)

definition rewrap :: "'x agent_lib_scheme \<Rightarrow> bytes \<Rightarrow> access_request \<Rightarrow> bytes \<Rightarrow> bytes \<Rightarrow> string + bytes" where
  "rewrap A eph q dek grant_id =
     rbind (map_err (\<lambda>_. ''failed'') (envelope_seal A eph (ar_x25519_pub q) dek grant_id)) (\<lambda>wrapped.
       map_err (\<lambda>_. ''failed'') (fst (codec_envelope A) wrapped))"

text \<open>The content of the locked file is \<open>None\<close> when it cannot be opened.\<close>

definition envelope_for ::
  "'x agent_lib_scheme \<Rightarrow> bytes \<Rightarrow> bytes option \<Rightarrow> entry \<Rightarrow> access_request \<Rightarrow> owner_keys \<Rightarrow> bytes \<Rightarrow> string + bytes" where
  "envelope_for A eph file_at e q owner grant_id =
     (case en_owner_envelope e of
        Some stored \<Rightarrow>
          if en_header_hash e \<noteq> hexe A (ar_header_hash q) then Inl ''version''
          else rbind (ok_or (snd (codec_envelope A) stored) ''not_mine'') (\<lambda>mine.
            rbind (ok_or (hex32 A (en_fid e)) ''not_mine'') (\<lambda>fid.
              rbind (map_err (\<lambda>_. ''not_mine'') (envelope_open A mine (sealing owner) fid)) (\<lambda>dek.
                rewrap A eph q dek grant_id)))
      | None \<Rightarrow>
          rbind (ok_or file_at ''file_moved'') (\<lambda>bs.
            rbind (map_err (\<lambda>_. ''file_moved'') (inspect A bs)) (\<lambda>(h, hh).
              if hh \<noteq> ar_header_hash q then Inl ''version''
              else rbind (ok_or (find (\<lambda>v. env_kid v = device_key_id A (sealing owner)) (hb_env (hdr_body h))) ''not_mine'')
                (\<lambda>mine. rbind (map_err (\<lambda>_. ''not_mine'') (envelope_open A mine (sealing owner) (hb_fid (hdr_body h))))
                  (\<lambda>dek. rewrap A eph q dek grant_id)))))"

subsection \<open>Answering\<close>

record answering =
  aw_sign :: "approval_challenge \<Rightarrow> confirmation \<Rightarrow> auth_error + assertion"
  aw_setting :: confirmation
  aw_owner :: owner_keys
  aw_deployment :: approval_deployment
  aw_policy :: confirmation_policy
  aw_recent :: "u64 list"
  aw_chain :: "chain_link option"

text \<open>What the world answers during one call: the clock, the node's grant nonce, the disk at each of
  the three changes to the record, the locked file, the randomness of the wrap, the relay.\<close>

record answer_world =
  av_now :: u64
  av_node_nonce :: "string + nat"
  av_io_nonce :: store_io
  av_io_write :: store_io
  av_io_grant :: store_io
  av_file :: "bytes option"
  av_eph :: bytes
  av_relay :: bool

definition on_chain :: "answering \<Rightarrow> chain_link option" where
  "on_chain w = (case aw_chain w of Some link \<Rightarrow> if ln_writer link \<noteq> None then Some link else None | None \<Rightarrow> None)"

definition smart :: "answering \<Rightarrow> bool" where
  "smart w \<longleftrightarrow> (case aw_chain w of Some link \<Rightarrow> ln_mode link = SmartAccount | None \<Rightarrow> False)"

definition answer_nonce :: "json \<Rightarrow> answer_world \<Rightarrow> answering \<Rightarrow> ledger_disk \<Rightarrow> (string + u64) \<times> ledger_disk" where
  "answer_nonce J v w d =
     (let own = (case next_grant_nonce J (av_io_nonce v) d of (r, d') \<Rightarrow> (map_err (\<lambda>_. ''failed'') r, d')) in
      case on_chain w of
        Some _ \<Rightarrow> (case client_grant_nonce (av_node_nonce v) of Inr n \<Rightarrow> (Inr n, d) | Inl _ \<Rightarrow> own)
      | None \<Rightarrow> own)"

fun signing_problem :: "auth_error \<Rightarrow> string" where
  "signing_problem AuCancelled = ''cancelled''"
| "signing_problem (ConfirmationUnavailable _ _) = ''needs_os_confirm''"
| "signing_problem _ = ''failed''"

definition answer_confirmation :: "answer_world \<Rightarrow> answering \<Rightarrow> permission \<Rightarrow> access_grant_terms \<Rightarrow> confirmation" where
  "answer_confirmation v w perm t =
     required (aw_policy w) \<lparr>ac_permission = perm, ac_file_id = gt_file_id t\<rparr> (aw_setting w) (aw_recent w) (av_now v)"

definition answer_challenge :: "'x agent_lib_scheme \<Rightarrow> answering \<Rightarrow> permission \<Rightarrow> access_grant_terms \<Rightarrow> approval_challenge" where
  "answer_challenge A w perm t =
     \<lparr>ch_digest = grant_digest A t (ad_chain_id (aw_deployment w)) (ad_policy (aw_deployment w)),
      ch_context = \<lparr>ac_permission = perm, ac_file_id = gt_file_id t\<rparr>\<rparr>"

definition answer_sign ::
  "'x agent_lib_scheme \<Rightarrow> answer_world \<Rightarrow> answering \<Rightarrow> permission \<Rightarrow> access_grant_terms \<Rightarrow> string + bytes option" where
  "answer_sign A v w perm t =
     (if smart w then Inr None
      else rbind (map_err signing_problem (aw_sign w (answer_challenge A w perm t) (answer_confirmation v w perm t)))
        (\<lambda>a. rbind (map_err (\<lambda>_. ''failed'') (cbor_assertion A a)) (\<lambda>bs. Inr (Some bs))))"

text \<open>\<open>str::contains\<close>.\<close>

fun str_contains :: "string \<Rightarrow> string \<Rightarrow> bool" where
  "str_contains [] pat = (pat = [])"
| "str_contains (c # cs) pat = (take (length pat) (c # cs) = pat \<or> str_contains cs pat)"

definition chain_refusal :: "chain_error \<Rightarrow> string" where
  "chain_refusal e =
     (case e of
        ChConfig why \<Rightarrow>
          if str_contains why ''ancel'' then ''cancelled''
          else if str_contains why ''onfirm'' then ''needs_os_confirm'' else ''failed''
      | _ \<Rightarrow> ''failed'')"

definition answer_chain ::
  "'x agent_lib_scheme \<Rightarrow> json \<Rightarrow> answer_world \<Rightarrow> answering \<Rightarrow> access_grant_terms \<Rightarrow> ledger_disk \<Rightarrow>
     (string + bytes option \<times> string list) \<times> ledger_disk" where
  "answer_chain A J v w t d =
     (case on_chain w of
        None \<Rightarrow> (Inr (None, [''chain_grant'']), d)
      | Some link \<Rightarrow>
          (case link_write A J (av_io_write v) link (CGrant (grant_args_of t)) (WGrant (gt_file_id t) (gt_permission t)) d of
             (Inr tx, d') \<Rightarrow> (Inr (Some tx, []), d')
           | (Inl e, d') \<Rightarrow> if smart w then (Inl (chain_refusal e), d') else (Inr (None, [''chain_grant'']), d')))"

definition answer_message ::
  "'x agent_lib_scheme \<Rightarrow> answer_world \<Rightarrow> pending_request \<Rightarrow> permission \<Rightarrow> access_grant_terms \<Rightarrow> bytes option \<Rightarrow> bytes \<Rightarrow>
     bytes option \<Rightarrow> string + grant_msg" where
  "answer_message A v p perm t owner_sig env tx =
     rbind (map_err (\<lambda>_. ''failed'') (terms_to_cbor A t)) (\<lambda>cbor.
       Inr \<lparr>gm_request_nonce = ar_nonce (pq_request p), gm_grant = Some cbor, gm_owner_sig = owner_sig,
            gm_envelope = Some env, gm_tx_hash = tx, gm_decision = permission_u8 perm, gm_ts = av_now v\<rparr>)"

definition answer_record :: "'x agent_lib_scheme \<Rightarrow> answer_world \<Rightarrow> entry \<Rightarrow> decision_arg \<Rightarrow> access_grant_terms \<Rightarrow> bytes option \<Rightarrow> grant" where
  "answer_record A v e decision t tx =
     \<lparr>gr_grant_id = hexe A (struct_hash A t), gr_fid = en_fid e, gr_file_name = en_name e,
      gr_permission = decision_arg_word decision, gr_expiry = gt_expiry t, gr_granted_at = av_now v, gr_revoked_at = None,
      gr_tx_hash = map_option (hexe A) tx, gr_revoke_tx = None\<rparr>"

definition refusal_msg :: "pending_request \<Rightarrow> u64 \<Rightarrow> grant_msg" where
  "refusal_msg p now =
     \<lparr>gm_request_nonce = ar_nonce (pq_request p), gm_grant = None, gm_owner_sig = None, gm_envelope = None,
      gm_tx_hash = None, gm_decision = 0, gm_ts = now\<rparr>"

text \<open>The result, the record, and the message handed to the relay, if any.\<close>

definition answer_allow ::
  "'x agent_lib_scheme \<Rightarrow> json \<Rightarrow> answer_world \<Rightarrow> pending_request \<Rightarrow> decision_arg \<Rightarrow> answering \<Rightarrow> entry \<Rightarrow> ledger_disk \<Rightarrow>
     (string + answered) \<times> ledger_disk \<times> grant_msg option" where
  "answer_allow A J v p decision w e d =
     (let perm = decision_permission decision in
      case answer_nonce J v w d of
        (Inl x, d1) \<Rightarrow> (Inl x, d1, None)
      | (Inr n, d1) \<Rightarrow>
          let t = terms_for A (pq_request p) e perm n (av_now v); gid = struct_hash A t in
          (case answer_sign A v w perm t of
             Inl x \<Rightarrow> (Inl x, d1, None)
           | Inr sig \<Rightarrow>
               (case envelope_for A (av_eph v) (av_file v) e (pq_request p) (aw_owner w) gid of
                  Inl x \<Rightarrow> (Inl x, d1, None)
                | Inr env \<Rightarrow>
                    (case answer_chain A J v w t d1 of
                       (Inl x, d2) \<Rightarrow> (Inl x, d2, None)
                     | (Inr (tx, outstanding), d2) \<Rightarrow>
                         (case answer_message A v p perm t sig env tx of
                            Inl x \<Rightarrow> (Inl x, d2, None)
                          | Inr m \<Rightarrow>
                              if \<not> av_relay v then (Inl ''relay_unreachable'', d2, Some m)
                              else (Inr \<lparr>an_id = hexe A (ar_nonce (pq_request p)), an_decision = decision_arg_word decision,
                                         an_grant_id = Some (hexe A gid), an_expiry = Some (gt_expiry t),
                                         an_confirmed_by_os = (answer_confirmation v w perm t = OsUserVerification),
                                         an_tx_hash = map_option (hexe A) tx, an_pending = outstanding\<rparr>,
                                    snd (record_grant J (av_io_grant v) (answer_record A v e decision t tx) d2), Some m))))))"

definition answer ::
  "'x agent_lib_scheme \<Rightarrow> json \<Rightarrow> answer_world \<Rightarrow> pending_request \<Rightarrow> decision_arg \<Rightarrow> answering \<Rightarrow> ledger_disk \<Rightarrow>
     (string + answered) \<times> ledger_disk \<times> grant_msg option" where
  "answer A J v p decision w d =
     (if decision = DaDeny then
        (if av_relay v then Inr \<lparr>an_id = hexe A (ar_nonce (pq_request p)), an_decision = ''deny'', an_grant_id = None,
            an_expiry = None, an_confirmed_by_os = False, an_tx_hash = None, an_pending = []\<rparr>
         else Inl ''relay_unreachable'', d, Some (refusal_msg p (av_now v)))
      else case pq_entry p of
        None \<Rightarrow> (Inl ''unknown_file'', d, None)
      | Some e \<Rightarrow>
          if en_header_hash e \<noteq> hexe A (ar_header_hash (pq_request p)) then (Inl ''version'', d, None)
          else answer_allow A J v p decision w e d)"

subsection \<open>Given approvals and pulling back\<close>

record given =
  gv_grant_id :: string
  gv_file_name :: string
  gv_permission :: string
  gv_expiry :: u64
  gv_granted_at :: u64
  gv_active :: bool
  gv_revoked :: bool

definition given_from :: "u64 \<Rightarrow> grant \<Rightarrow> given" where
  "given_from now g =
     \<lparr>gv_grant_id = gr_grant_id g, gv_file_name = gr_file_name g, gv_permission = gr_permission g,
      gv_expiry = gr_expiry g, gv_granted_at = gr_granted_at g, gv_active = is_active g now,
      gv_revoked = (gr_revoked_at g \<noteq> None)\<rparr>"

definition given_grants :: "json \<Rightarrow> u64 \<Rightarrow> ledger_disk \<Rightarrow> given list" where
  "given_grants J now d = map (given_from now) (ledger_grants J False now d)"

text \<open>The chain's copy, only of an approval that is there.\<close>

definition revoke_chain ::
  "'x agent_lib_scheme \<Rightarrow> json \<Rightarrow> store_io \<Rightarrow> chain_link option \<Rightarrow> grant \<Rightarrow> bytes \<Rightarrow> bytes \<Rightarrow> ledger_disk \<Rightarrow>
     string option \<times> ledger_disk" where
  "revoke_chain A J io chain g fid gidb d =
     (case chain of
        Some link \<Rightarrow>
          if ln_writer link \<noteq> None \<and> gr_tx_hash g \<noteq> None then
            (case link_write A J io link (CRevoke fid gidb) (WRevoke fid) d of
               (Inr h, d') \<Rightarrow> (Some (hexe A h), d')
             | (Inl _, d') \<Rightarrow> (None, d'))
          else (None, d)
      | None \<Rightarrow> (None, d))"

text \<open>The result, the record and the message handed to the relay. The two stores are the clearing of
  deferred versions and the mark itself.\<close>

definition revoke_now ::
  "'x agent_lib_scheme \<Rightarrow> json \<Rightarrow> store_io \<Rightarrow> store_io \<Rightarrow> bool \<Rightarrow> u64 \<Rightarrow> chain_link option \<Rightarrow> string \<Rightarrow> ledger_disk \<Rightarrow>
     (string + given) \<times> ledger_disk \<times> revoke option" where
  "revoke_now A J io1 io2 relay_ok now chain gid d =
     (case ledger_grant J gid d of
        None \<Rightarrow> (Inl ''unknown_grant'', d, None)
      | Some g \<Rightarrow>
          (case (hex32 A (gr_grant_id g), hex32 A (gr_fid g)) of
             (Some gidb, Some fid) \<Rightarrow>
               let m = \<lparr>rv_grant_id = gidb, rv_fid = fid, rv_ts = now\<rparr> in
               if \<not> relay_ok then (Inl ''relay_unreachable'', d, Some m)
               else
                 let (tx, d1) = revoke_chain A J io1 chain g fid gidb d
                 in (case mark_revoked J io2 gid now tx d1 of
                       (Inl _, d2) \<Rightarrow> (Inl ''unknown_grant'', d2, Some m)
                     | (Inr marked, d2) \<Rightarrow> (Inr (given_from now marked), d2, Some m))
           | _ \<Rightarrow> (Inl ''unknown_grant'', d, None)))"

subsection \<open>The inbox as a whole\<close>

definition apply_version ::
  "'x agent_lib_scheme \<Rightarrow> json \<Rightarrow> store_io \<Rightarrow> version_msg \<Rightarrow> ledger_disk \<Rightarrow> (string + entry) \<times> ledger_disk" where
  "apply_version A J io n d =
     (case ledger_grant J (hexe A (vm_grant_id n)) d of
        None \<Rightarrow> (Inl ''unknown_grant'', d)
      | Some g \<Rightarrow>
          if gr_fid g \<noteq> hexe A (vm_fid n) then (Inl ''unknown_grant'', d)
          else case advance_version (hexe A) J io (vm_fid n) (hexe A (vm_prev_header_hash n)) (hexe A (vm_header_hash n))
                 (vm_ver n) (vm_owner_envelope n) d of
            (Inl _, d') \<Rightarrow> (Inl ''version'', d')
          | (Inr e, d') \<Rightarrow> (Inr e, d'))"

text \<open>One store for the record and one for the queue per notice.\<close>

fun take_notices ::
  "'x agent_lib_scheme \<Rightarrow> json \<Rightarrow> (nat \<Rightarrow> store_io \<times> store_io) \<Rightarrow> chain_link option \<Rightarrow> version_msg list \<Rightarrow> ledger_disk \<Rightarrow> ledger_disk" where
  "take_notices A J ios chain [] d = d"
| "take_notices A J ios chain (n # ns) d =
     take_notices A J (\<lambda>i. ios (Suc i)) chain ns
       (case apply_version A J (fst (ios 0)) n d of
          (Inl _, d') \<Rightarrow> d'
        | (Inr _, d') \<Rightarrow>
            (case chain of
               Some link \<Rightarrow>
                 if ln_writer link \<noteq> None
                 then snd (link_bump_version A J (snd (ios 0)) link (vm_fid n) (vm_header_hash n) d') else d'
             | None \<Rightarrow> d'))"

definition next_requests_on ::
  "'x agent_lib_scheme \<Rightarrow> json \<Rightarrow> (nat \<Rightarrow> store_io \<times> store_io) \<Rightarrow> relay_envelope list option \<Rightarrow> bytes \<Rightarrow> u64 \<Rightarrow> chain_link option \<Rightarrow>
     ledger_disk \<Rightarrow> pending_request list \<times> ledger_disk" where
  "next_requests_on A J ios inbox owner now chain d =
     (case inbox of
        None \<Rightarrow> ([], d)
      | Some envs \<Rightarrow>
          let d' = take_notices A J ios chain (List.map_filter (\<lambda>e. accept_version A e owner now) envs) d in
          (map (\<lambda>q. \<lparr>pq_request = q, pq_entry = find_entry (hexe A) J (ar_fid q) d'\<rparr>)
             (List.map_filter (\<lambda>e. accept_request A e owner now) envs), d'))"

subsection \<open>The agent's state\<close>

record approvals =
  ap_pending :: "string \<rightharpoonup> pending_request"
  ap_recent :: "u64 list"
  ap_edit_supported :: bool

text \<open>One round of the inbox watcher: what arrived anew goes to the screen.\<close>

fun take_fresh :: "'x agent_lib_scheme \<Rightarrow> pending_request list \<Rightarrow> approvals \<Rightarrow> incoming_card list \<times> approvals" where
  "take_fresh A [] a = ([], a)"
| "take_fresh A (p # ps) a =
     (let i = incoming_on A p (ap_edit_supported a);
          (rest, a') = take_fresh A ps (a\<lparr>ap_pending := (ap_pending a)(ic_id i \<mapsto> p)\<rparr>)
      in (if ap_pending a (ic_id i) = None then i # rest else rest, a'))"

text \<open>\<open>decide\<close>: the device setting, the owner's keys and the client come from setup; the clock is read
  again for the burst rule and for the local record.\<close>

definition decide ::
  "'x agent_lib_scheme \<Rightarrow> json \<Rightarrow> audit_json \<Rightarrow> append_io \<Rightarrow> answer_world \<Rightarrow> u64 \<Rightarrow> u64 \<Rightarrow> bool \<Rightarrow> string + owner_keys \<Rightarrow>
     device_profile option \<Rightarrow> (approval_challenge \<Rightarrow> confirmation \<Rightarrow> auth_error + assertion) \<Rightarrow> chain_link option \<Rightarrow>
     string \<Rightarrow> decision_arg \<Rightarrow> approvals \<times> ledger_disk \<times> audit_file \<Rightarrow>
     (string + answered) \<times> (approvals \<times> ledger_disk \<times> audit_file) \<times> grant_msg option" where
  "decide A J AJ aio v now2 now3 client_ok owner held sign chain rid decision = (\<lambda>(a, d, f).
     case ap_pending a rid of
       None \<Rightarrow> (Inl ''unknown_request'', (a, d, f), None)
     | Some p \<Rightarrow>
         (case held of
            None \<Rightarrow> (Inl ''not_set_up'', (a, d, f), None)
          | Some prof \<Rightarrow>
              if \<not> client_ok then (Inl ''relay_unreachable'', (a, d, f), None)
              else (case owner of
                Inl _ \<Rightarrow> (Inl ''not_set_up'', (a, d, f), None)
              | Inr ow \<Rightarrow>
                  let w = \<lparr>aw_sign = sign,
                           aw_setting = (if dp_require_os_confirm prof then OsUserVerification else NotRequired),
                           aw_owner = ow,
                           aw_deployment = (case chain of Some link \<Rightarrow> link_approval_deployment link | None \<Rightarrow> DEV),
                           aw_policy = default_confirmation, aw_recent = ap_recent a, aw_chain = chain\<rparr> in
                  (case answer A J v p decision w d of
                     (Inl e, d', m) \<Rightarrow> (Inl e, (a, d', f), m)
                   | (Inr r, d', m) \<Rightarrow>
                       (Inr r,
                        (a\<lparr>ap_pending := (ap_pending a)(rid := None),
                           ap_recent := (if decision \<noteq> DaDeny then ap_recent a @ [now2] else ap_recent a)\<rparr>,
                         d',
                         audit_record (hexe A) AJ aio now3 (if decision = DaDeny then AeDenied else AeGranted) RoleOwner
                           (ar_fid (pq_request p)) (map_option en_name (pq_entry p)) (Some (decision_arg_word decision)) f),
                        m)))))"

definition revoke_grant ::
  "'x agent_lib_scheme \<Rightarrow> json \<Rightarrow> audit_json \<Rightarrow> append_io \<Rightarrow> store_io \<Rightarrow> store_io \<Rightarrow> string option \<Rightarrow> bool \<Rightarrow> u64 \<Rightarrow> u64 \<Rightarrow>
     chain_link option \<Rightarrow> string \<Rightarrow> ledger_disk \<times> audit_file \<Rightarrow>
     (string + given) \<times> (ledger_disk \<times> audit_file) \<times> revoke option" where
  "revoke_grant A J AJ aio io1 io2 client_err relay_ok now now2 chain gid = (\<lambda>(d, f).
     case client_err of
       Some e \<Rightarrow> (Inl e, (d, f), None)
     | None \<Rightarrow>
         (case revoke_now A J io1 io2 relay_ok now chain gid d of
            (Inl e, d', m) \<Rightarrow> (Inl e, (d', f), m)
          | (Inr gv, d', m) \<Rightarrow>
              (Inr gv,
               (d', (case ledger_grant J gid d' of
                       Some g \<Rightarrow>
                         (case hex32 A (gr_fid g) of
                            Some fid \<Rightarrow> audit_record (hexe A) AJ aio now2 AeRevoked RoleOwner fid (Some (gr_file_name g)) None f
                          | None \<Rightarrow> f)
                     | None \<Rightarrow> f)),
               m)))"

subsection \<open>Lemmas\<close>

lemma accept_request_Some:
  "accept_request X e owner now = Some q \<longleftrightarrow>
     (\<exists>s ts. re_kind e = KReq \<and> signed_from_bytes X (re_body e) = Inr s \<and>
        kid_of X (ar_ed25519_pub q) = ar_device_kid q \<and> ar_device_kid q = sg_kid s \<and>
        signed_verify_queued X (AccessRequest X) s (ar_ed25519_pub q) = Inr (q, ts) \<and> ar_owner q = owner \<and>
        ts \<le> now + MAX_SKEW_SECS \<and> saturating_sub now ts \<le> MAX_REQUEST_AGE_SECS \<and> ar_requested q \<in> {1, 2})"
proof -
  have "msg_dec (AccessRequest X) (sg_payload s) = Some q'"
    if "signed_verify_queued X (AccessRequest X) s pk = Inr (q', ts)" for s pk q' ts
    using that by (simp add: signed_verify_queued_Inr)
  note same = this
  show ?thesis (is "?l \<longleftrightarrow> ?r")
  proof
    show "?l \<Longrightarrow> ?r"
      unfolding accept_request_def
      by (auto simp: Option.bind_eq_Some_conv not_less split: if_splits; frule same; auto)
    assume ?r
    then obtain s ts where "re_kind e = KReq" "signed_from_bytes X (re_body e) = Inr s"
      "kid_of X (ar_ed25519_pub q) = ar_device_kid q" "ar_device_kid q = sg_kid s" "ar_owner q = owner"
      "ts \<le> now + MAX_SKEW_SECS" "saturating_sub now ts \<le> MAX_REQUEST_AGE_SECS" "ar_requested q \<in> {1, 2}"
      and v: "signed_verify_queued X (AccessRequest X) s (ar_ed25519_pub q) = Inr (q, ts)" by blast
    then show ?l using same [OF v] by (auto simp: accept_request_def not_less)
  qed
qed

lemma hex32_length: "hex32 A s = Some b \<Longrightarrow> length b = 32"
  by (auto simp: hex32_def split: option.splits if_splits)

lemma rewrap_opens:
  assumes "hpke_opens A" and "keys_wf A k" and "x25519_pk k = ar_x25519_pub q" and "length dek = 32"
    and "rewrap A eph q dek gid = Inr bs"
    and "\<And>env. fst (codec_envelope A) env = Inr bs \<Longrightarrow> snd (codec_envelope A) bs = Some env"
  shows "\<exists>env. snd (codec_envelope A) bs = Some env \<and> envelope_open A env k gid = Inr dek"
proof -
  from assms(5) obtain env where env: "envelope_seal A eph (x25519_pk k) dek gid = Inr env"
    "fst (codec_envelope A) env = Inr bs"
    using assms(3) by (auto simp: rewrap_def rbind_eq_Inr map_err_eq_Inr)
  then show ?thesis using envelope_open_seal [OF assms(1,2,4) env(1)] assms(6) by blast
qed

text \<open>The key of the file a request names, as the owner's machine gets at it.\<close>

definition file_dek :: "'x agent_lib_scheme \<Rightarrow> bytes option \<Rightarrow> entry \<Rightarrow> owner_keys \<Rightarrow> bytes \<Rightarrow> bool" where
  "file_dek A file_at e owner dek \<longleftrightarrow>
     (case en_owner_envelope e of
        Some stored \<Rightarrow> \<exists>mine fid. snd (codec_envelope A) stored = Some mine \<and> hex32 A (en_fid e) = Some fid \<and>
          envelope_open A mine (sealing owner) fid = Inr dek
      | None \<Rightarrow> \<exists>bs h hh mine. file_at = Some bs \<and> inspect A bs = Inr (h, hh) \<and> mine \<in> set (hb_env (hdr_body h)) \<and>
          envelope_open A mine (sealing owner) (hb_fid (hdr_body h)) = Inr dek)"

lemma envelope_for_Inr:
  assumes "envelope_for A eph file_at e q owner gid = Inr bs"
  obtains dek where "file_dek A file_at e owner dek" "length dek = 32" "rewrap A eph q dek gid = Inr bs"
    "en_owner_envelope e = None \<Longrightarrow> \<exists>c h. file_at = Some c \<and> inspect A c = Inr (h, ar_header_hash q)"
proof (cases "en_owner_envelope e")
  case None
  then show ?thesis
    using assms that
    by (fastforce simp: envelope_for_def file_dek_def rbind_eq_Inr ok_or_eq_Inr map_err_eq_Inr find_Some_iff in_set_conv_nth
        split: prod.splits if_splits dest: envelope_open_length)
next
  case (Some stored)
  then show ?thesis
    using assms that
    by (fastforce simp: envelope_for_def file_dek_def rbind_eq_Inr ok_or_eq_Inr map_err_eq_Inr
        split: if_splits dest: envelope_open_length)
qed

lemma revoke_now_Inr:
  assumes "revoke_now A J io1 io2 relay_ok now chain gid d = (Inr gv, d', m)"
  obtains g gidb fid tx d1 marked where "ledger_grant J gid d = Some g" "hex32 A (gr_grant_id g) = Some gidb"
    "hex32 A (gr_fid g) = Some fid" "relay_ok" "m = Some \<lparr>rv_grant_id = gidb, rv_fid = fid, rv_ts = now\<rparr>"
    "revoke_chain A J io1 chain g fid gidb d = (tx, d1)" "mark_revoked J io2 gid now tx d1 = (Inr marked, d')"
    "gv = given_from now marked"
  using assms by (auto simp: revoke_now_def Let_def split: option.splits if_splits prod.splits sum.splits)

lemma revoke_entry_tx: "tx \<noteq> None \<Longrightarrow> gr_revoke_tx (revoke_entry now tx g) = tx"
  by (simp add: revoke_entry_def Let_def)

lemma mark_revoked_marks:
  assumes "json_lawful J" and "mark_revoked J io gid now tx d = (Inr g, d')"
  shows "ledger_grant J gid d' = Some g \<and> gr_revoked_at g \<noteq> None \<and> (tx \<noteq> None \<longrightarrow> gr_revoke_tx g = tx)"
  by (rule ledger_update_cases [OF assms(1) assms(2) [unfolded mark_revoked_def]])
    (auto simp: rbind_eq_Inr ok_or_eq_Inr Let_def revoke_entry_revoked revoke_entry_tx ledger_grant_def split: option.splits)

text \<open>A link as \<open>connect\<close> makes them: a smart account has a writer.\<close>

definition link_wf :: "chain_link option \<Rightarrow> bool" where
  "link_wf l \<longleftrightarrow> (case l of Some link \<Rightarrow> ln_mode link = SmartAccount \<longrightarrow> ln_writer link \<noteq> None | None \<Rightarrow> True)"

lemma link_connect_wf: "link_connect re ci dr ac dep ws = Inr link \<Longrightarrow> link_wf (Some link)"
  by (cases ws) (auto simp: link_connect_def link_wf_def rbind_eq_Inr Let_def split: option.splits)

lemma answer_allow_sent:
  assumes "answer_allow A J v p decision w e d = (r, d', Some m)"
  obtains n d1 sig env tx out d2 where
    "answer_nonce J v w d = (Inr n, d1)"
    "answer_sign A v w (decision_permission decision) (terms_for A (pq_request p) e (decision_permission decision) n (av_now v)) = Inr sig"
    "envelope_for A (av_eph v) (av_file v) e (pq_request p) (aw_owner w)
       (struct_hash A (terms_for A (pq_request p) e (decision_permission decision) n (av_now v))) = Inr env"
    "answer_chain A J v w (terms_for A (pq_request p) e (decision_permission decision) n (av_now v)) d1 = (Inr (tx, out), d2)"
    "answer_message A v p (decision_permission decision)
       (terms_for A (pq_request p) e (decision_permission decision) n (av_now v)) sig env tx = Inr m"
  using assms
  by (auto simp: answer_allow_def Let_def split: prod.splits sum.splits if_splits)

lemma answer_message_Inr:
  "answer_message A v p perm t sig env tx = Inr m \<longleftrightarrow>
     (\<exists>cbor. terms_to_cbor A t = Inr cbor \<and>
        m = \<lparr>gm_request_nonce = ar_nonce (pq_request p), gm_grant = Some cbor, gm_owner_sig = sig,
             gm_envelope = Some env, gm_tx_hash = tx, gm_decision = permission_u8 perm, gm_ts = av_now v\<rparr>)"
  by (auto simp: answer_message_def rbind_eq_Inr map_err_eq_Inr)

lemma answer_sent:
  assumes "answer A J v p decision w d = (r, d', Some m)"
  obtains "decision = DaDeny" "m = refusal_msg p (av_now v)" "d' = d"
  | e where "decision \<noteq> DaDeny" "pq_entry p = Some e" "ic_can_allow (incoming A p)"
      "answer_allow A J v p decision w e d = (r, d', Some m)"
  using assms by (auto simp: answer_def incoming_def Let_def split: if_splits option.splits)

lemma answer_chain_smart:
  assumes "smart w" and "link_wf (aw_chain w)" and "answer_chain A J v w t d = (Inr (tx, out), d')"
  shows "\<exists>link h. aw_chain w = Some link \<and> tx = Some h \<and>
    link_write A J (av_io_write v) link (CGrant (grant_args_of t)) (WGrant (gt_file_id t) (gt_permission t)) d = (Inr h, d')"
  using assms
  by (auto simp: smart_def link_wf_def on_chain_def answer_chain_def split: option.splits if_splits prod.splits sum.splits)

definition approval_made ::
  "'x agent_lib_scheme \<Rightarrow> json \<Rightarrow> answer_world \<Rightarrow> answering \<Rightarrow> permission \<Rightarrow> access_grant_terms \<Rightarrow> grant_msg \<Rightarrow> bool" where
  "approval_made A J v w perm t m \<longleftrightarrow>
     (if smart w
      then gm_owner_sig m = None \<and>
        (\<exists>link h d1 d2. aw_chain w = Some link \<and> gm_tx_hash m = Some h \<and>
          link_write A J (av_io_write v) link (CGrant (grant_args_of t)) (WGrant (gt_file_id t) (gt_permission t)) d1 = (Inr h, d2))
      else (\<exists>a bs. aw_sign w (answer_challenge A w perm t) (answer_confirmation v w perm t) = Inr a \<and>
              cbor_assertion A a = Inr bs \<and> gm_owner_sig m = Some bs))"

lemma approval_madeI:
  assumes "link_wf (aw_chain w)" and "answer_sign A v w perm t = Inr sig"
    and "answer_chain A J v w t d1 = (Inr (tx, out), d2)" and "answer_message A v p perm t sig env tx = Inr m"
  shows "approval_made A J v w perm t m"
proof (cases "smart w")
  case True
  then show ?thesis
    using answer_chain_smart [OF True assms(1,3)] assms(2,4)
    by (auto simp: approval_made_def answer_sign_def answer_message_Inr; blast)
next
  case False
  then show ?thesis
    using assms(2,4) by (auto simp: approval_made_def answer_sign_def answer_message_Inr rbind_eq_Inr map_err_eq_Inr)
qed

subsection \<open>A sample answer\<close>

text \<open>A file whose second version a recipient wrote: its key is in the stored envelope.\<close>

definition sample_resealed :: entry where
  "sample_resealed = sample_entry\<lparr>en_fid := hexe sample_agent (replicate 32 1),
     en_header_hash := hexe sample_agent (replicate 32 7), en_owner_envelope := Some [8]\<rparr>"

definition sample_pending :: pending_request where
  "sample_pending = \<lparr>pq_request = sample_request, pq_entry = Some sample_resealed\<rparr>"

definition sample_answering :: answering where
  "sample_answering =
     \<lparr>aw_sign = (\<lambda>c f. Inr (AsP256Raw [] [] [])), aw_setting = NotRequired,
      aw_owner = \<lparr>sealing = sample_keys, signing = replicate 32 2\<rparr>, aw_deployment = DEV,
      aw_policy = default_confirmation, aw_recent = [], aw_chain = None\<rparr>"

definition sample_world :: answer_world where
  "sample_world =
     \<lparr>av_now = 100, av_node_nonce = Inl ''down'', av_io_nonce = good_io, av_io_write = good_io, av_io_grant = good_io,
      av_file = None, av_eph = replicate 32 0, av_relay = True\<rparr>"

definition sample_ledger_json :: json where
  "sample_ledger_json = two_json ledger_default (ledger_default\<lparr>lf_grant_nonce := 1\<rparr>)"

lemma sample_accepted_request:
  "accept_request sample_agent \<lparr>re_id = [], re_kind = KReq, re_body = [6], re_queued_at = 90\<rparr> [1] 100 = Some sample_request"
  by (simp add: accept_request_def signed_from_bytes_def sample_agent_lib sample_signed_def MAX_BODY_LEN_def
      AccessRequest_def sample_request_def kid_of_def signed_verify_queued_def verify_raw_def MAX_SKEW_SECS_def
      MAX_REQUEST_AGE_SECS_def saturating_sub_def Let_def)

lemma sample_nonce: "next_grant_nonce sample_ledger_json good_io (disk_of [0]) = (Inr 0, disk_of [1])"
  unfolding next_grant_nonce_def sample_ledger_json_def by (rule two_json_update) (simp_all add: ledger_default_def)

lemma sample_answer_sent:
  "\<exists>r d' m. answer sample_agent sample_ledger_json sample_world sample_pending DaReadOnly sample_answering (disk_of [0]) =
     (r, d', Some m) \<and> gm_decision m = 1"
  by (simp add: answer_def sample_pending_def sample_resealed_def sample_request_def answer_allow_def answer_nonce_def
      on_chain_def sample_answering_def sample_world_def sample_nonce answer_sign_def smart_def envelope_for_def
      sample_agent_lib hex32_def envelope_open_def sample_values_def
      dek_from_bytes_def rewrap_def envelope_seal_def answer_chain_def answer_message_def terms_to_cbor_def Let_def)

lemma sample_notice_applied:
  "\<exists>J d d' e' g. json_lawful J \<and> ledger_grant J (hexe sample_agent (replicate 32 3)) d = Some g \<and>
     gr_permission g = ''read_only'' \<and> gr_revoked_at g = Some 5 \<and>
     apply_version sample_agent J good_io (sv_version sample_values) d = (Inr e', d') \<and> en_ver e' = 2"
proof -
  let ?A = sample_agent and ?n = "sv_version sample_values"
  let ?f = "hexe ?A (replicate 32 1)" and ?gid = "hexe ?A (replicate 32 3)"
  let ?g = "sample_grant\<lparr>gr_fid := ?f, gr_permission := ''read_only'', gr_revoked_at := Some 5\<rparr>"
  let ?e = "sample_entry\<lparr>en_header_hash := hexe ?A (replicate 32 7)\<rparr>"
  let ?e' = "?e\<lparr>en_header_hash := hexe ?A (replicate 32 8), en_ver := 2, en_owner_envelope := Some [8]\<rparr>"
  let ?l = "ledger_default\<lparr>lf_grants := [(?gid, ?g)]\<rparr>"
  let ?J = "two_json (?l\<lparr>lf_files := [(?f, ?e)]\<rparr>) (?l\<lparr>lf_files := [(?f, ?e')]\<rparr>)"
  have adv: "advance_version (hexe ?A) ?J good_io (replicate 32 1) (hexe ?A (replicate 32 7)) (hexe ?A (replicate 32 8)) 2 [8]
      (disk_of [0]) = (Inr ?e', disk_of [1])"
    unfolding advance_version_def
    by (rule two_json_update) (simp_all add: ledger_default_def sample_entry_def bt_get_def Let_def)
  have g: "ledger_grant ?J ?gid (disk_of [0]) = Some ?g" by (simp add: ledger_grant_def bt_get_def)
  then have "apply_version ?A ?J good_io ?n (disk_of [0]) = (Inr ?e', disk_of [1])"
    using adv by (simp add: apply_version_def sample_values_def)
  then show ?thesis using g two_json_lawful by (intro exI [of _ ?J] exI [of _ "disk_of [0]"] exI [of _ "disk_of [1]"]) simp
qed

section \<open>Properties\<close>

text \<open>C3. Nothing of an approval leaves the owner's machine without the approval: a message handed to the
  relay is the bare refusal the person chose, or the file is one this machine locked, at the version it
  knows; the terms are those of the request with the owner's own window and budget; the key in it is
  the file's key wrapped to the asking device and bound to these terms; and the approval exists -
  either the signer signed the digest of these terms under the confirmation the policy asks for, or
  the owner's account wrote exactly these terms to the chain. This holds whichever later step fails.\<close>

theorem answer_authorised:
  assumes "answer A J v p decision w d = (r, d', Some m)" and "link_wf (aw_chain w)"
  shows "(decision = DaDeny \<and> m = refusal_msg p (av_now v) \<and> gm_envelope m = None \<and> gm_grant m = None \<and> d' = d) \<or>
    (decision \<noteq> DaDeny \<and> ic_can_allow (incoming A p) \<and>
     (\<exists>e n t cbor dek env.
        pq_entry p = Some e \<and> t = terms_for A (pq_request p) e (decision_permission decision) n (av_now v) \<and>
        terms_to_cbor A t = Inr cbor \<and> gm_grant m = Some cbor \<and> gm_request_nonce m = ar_nonce (pq_request p) \<and>
        gm_decision m = gt_permission t \<and> gm_envelope m = Some env \<and>
        file_dek A (av_file v) e (aw_owner w) dek \<and> rewrap A (av_eph v) (pq_request p) dek (struct_hash A t) = Inr env \<and>
        approval_made A J v w (decision_permission decision) t m))"
  using assms(1)
proof (rule answer_sent)
  fix e
  assume e: "decision \<noteq> DaDeny" "pq_entry p = Some e" "ic_can_allow (incoming A p)"
    and "answer_allow A J v p decision w e d = (r, d', Some m)"
  let ?perm = "decision_permission decision" let ?t = "\<lambda>n. terms_for A (pq_request p) e ?perm n (av_now v)"
  from \<open>answer_allow A J v p decision w e d = (r, d', Some m)\<close>
  obtain n d1 sig env tx out d2 where nonce: "answer_nonce J v w d = (Inr n, d1)"
    and sig: "answer_sign A v w ?perm (?t n) = Inr sig"
    and env: "envelope_for A (av_eph v) (av_file v) e (pq_request p) (aw_owner w) (struct_hash A (?t n)) = Inr env"
    and ch: "answer_chain A J v w (?t n) d1 = (Inr (tx, out), d2)"
    and msg: "answer_message A v p ?perm (?t n) sig env tx = Inr m"
    by (rule answer_allow_sent)
  from env obtain dek where "file_dek A (av_file v) e (aw_owner w) dek"
    "rewrap A (av_eph v) (pq_request p) dek (struct_hash A (?t n)) = Inr env" by (rule envelope_for_Inr)
  then show ?thesis
    using e msg approval_madeI [OF assms(2) sig ch msg]
    by (auto simp: answer_message_Inr terms_for_fields simp del: ex_simps; blast)
qed (simp add: refusal_msg_def)

theorem answer_authorised_witness:
  "\<exists>r d' m t. answer sample_agent sample_ledger_json sample_world sample_pending DaReadOnly sample_answering (disk_of [0]) =
     (r, d', Some m) \<and> ic_can_allow (incoming sample_agent sample_pending) \<and>
     approval_made sample_agent sample_ledger_json sample_world sample_answering ReadOnly t m"
proof -
  obtain r d' m where sent: "answer sample_agent sample_ledger_json sample_world sample_pending DaReadOnly sample_answering
      (disk_of [0]) = (r, d', Some m)" using sample_answer_sent by blast
  have "link_wf (aw_chain sample_answering)" by (simp add: link_wf_def sample_answering_def)
  then show ?thesis using answer_authorised [OF sent] sent by auto
qed

text \<open>C28. A request reaches the person only if it is genuine: what is taken from the inbox was signed, by
  the key it names as the asking device's own, over these very bytes, is for this owner, asks for
  reading or editing, and is at most a day old and at most two minutes ahead of the clock.\<close>

theorem accepted_request_genuine:
  assumes "accept_request X e owner now = Some q" and "unat now + 120 < 2 ^ 64"
  shows "\<exists>s. signed_from_bytes X (re_body e) = Inr s \<and> sg_kind s = KReq \<and>
    ed25519_verify X (ar_ed25519_pub q) (signing_bytes X KReq (sg_ts s) (sg_nonce s) (sg_payload s)) (sg_sig s) \<and>
    msg_dec (AccessRequest X) (sg_payload s) = Some q \<and> ar_device_kid q = kid_of X (ar_ed25519_pub q) \<and>
    ar_owner q = owner \<and> ar_requested q \<in> {1, 2} \<and>
    unat (sg_ts s) \<le> unat now + 120 \<and> unat now \<le> unat (sg_ts s) + 24 * 3600"
proof -
  from assms(1) obtain s ts where s: "signed_from_bytes X (re_body e) = Inr s"
    "kid_of X (ar_ed25519_pub q) = ar_device_kid q" "ar_owner q = owner"
    and w: "ts \<le> now + MAX_SKEW_SECS" "saturating_sub now ts \<le> MAX_REQUEST_AGE_SECS" and rq: "ar_requested q \<in> {1, 2}"
    and v: "signed_verify_queued X (AccessRequest X) s (ar_ed25519_pub q) = Inr (q, ts)"
    by (auto simp: accept_request_Some)
  have "unat (now + MAX_SKEW_SECS) = unat now + 120"
    using assms(2) by (simp add: MAX_SKEW_SECS_def unat_word_ariths)
  then have "unat ts \<le> unat now + 120" "unat now \<le> unat ts + 24 * 3600"
    using w by (simp_all add: word_le_nat_alt unat_saturating_sub MAX_REQUEST_AGE_SECS_def)
  moreover have "ts = sg_ts s" "sg_kind s = KReq"
    using v by (simp_all add: signed_verify_queued_Inr AccessRequest_def)
  ultimately show ?thesis using s rq v by (auto simp: signed_verify_queued_Inr AccessRequest_def)
qed

theorem accepted_request_genuine_witness:
  "accept_request sample_agent \<lparr>re_id = [], re_kind = KReq, re_body = [6], re_queued_at = 90\<rparr> [1] 100 = Some sample_request \<and>
   ed25519_verify sample_agent (ar_ed25519_pub sample_request) (signing_bytes sample_agent KReq 90 (replicate 16 4) [2]) (replicate 64 2)"
proof -
  let ?e = "\<lparr>re_id = [], re_kind = KReq, re_body = [6], re_queued_at = 90\<rparr>"
  note acc = sample_accepted_request
  have "signed_from_bytes sample_agent [6] = Inr \<lparr>sg_payload = [2], sg_kid = replicate 16 7, sg_kind = KReq, sg_ts = 90,
      sg_nonce = replicate 16 4, sg_sig = replicate 64 2\<rparr>"
    by (simp add: signed_from_bytes_def sample_agent_lib sample_signed_def MAX_BODY_LEN_def Let_def)
  then show ?thesis using accepted_request_genuine [OF acc] acc by auto
qed



text \<open>C16. A version notice moves the record only along an approval this machine gave for that very file and
  only to the next version of what it knows; then the record holds the new hash and the key envelope
  the notice brought, so the version can be granted again; otherwise the record is as before.\<close>

theorem version_notice_checked:
  assumes "json_lawful J" and "apply_version A J io n d = (r, d')"
  shows "case r of
    Inl _ \<Rightarrow> load J d' = load J d
  | Inr e' \<Rightarrow> \<exists>g e. ledger_grant J (hexe A (vm_grant_id n)) d = Some g \<and> gr_fid g = hexe A (vm_fid n) \<and>
      find_entry (hexe A) J (vm_fid n) d = Some e \<and> en_header_hash e = hexe A (vm_prev_header_hash n) \<and>
      vm_ver n = en_ver e + 1 \<and> find_entry (hexe A) J (vm_fid n) d' = Some e' \<and>
      e' = e\<lparr>en_header_hash := hexe A (vm_header_hash n), en_ver := vm_ver n, en_owner_envelope := Some (vm_owner_envelope n)\<rparr>"
proof (cases "\<exists>g. ledger_grant J (hexe A (vm_grant_id n)) d = Some g \<and> gr_fid g = hexe A (vm_fid n)")
  case False
  then show ?thesis using assms(2) by (auto simp: apply_version_def split: option.splits if_splits)
next
  case True
  then obtain g q where g: "ledger_grant J (hexe A (vm_grant_id n)) d = Some g" "gr_fid g = hexe A (vm_fid n)"
    and q: "advance_version (hexe A) J io (vm_fid n) (hexe A (vm_prev_header_hash n)) (hexe A (vm_header_hash n))
      (vm_ver n) (vm_owner_envelope n) d = (q, d')" and r: "r = map_err (\<lambda>_. ''version'') q"
    using assms(2) by (auto simp: apply_version_def split: prod.splits sum.splits)
  show ?thesis
    by (rule ledger_update_cases [OF assms(1) q [unfolded advance_version_def]])
      (use r g in \<open>auto simp: rbind_eq_Inr ok_or_eq_Inr find_entry_def Let_def split: if_splits\<close>)
qed

theorem version_notice_checked_witness:
  "\<exists>J d d' e'. apply_version sample_agent J good_io (sv_version sample_values) d = (Inr e', d') \<and>
     find_entry (hexe sample_agent) J (replicate 32 1) d' = Some e' \<and> en_ver e' = 2 \<and>
     en_header_hash e' = hexe sample_agent (replicate 32 8)"
proof -
  obtain J d d' e' where r: "json_lawful J" "apply_version sample_agent J good_io (sv_version sample_values) d = (Inr e', d')"
      "en_ver e' = 2" using sample_notice_applied by blast
  have "vm_fid (sv_version sample_values) = replicate 32 1" "vm_header_hash (sv_version sample_values) = replicate 32 8"
    by (simp_all add: sample_values_def)
  then show ?thesis
    using version_notice_checked [OF r(1,2)] r(2,3) by (intro exI [of _ J] exI [of _ d] exI [of _ d'] exI [of _ e']) auto
qed

text \<open>An approval that only allows reading, and that was even pulled back, still lets a notice through.\<close>

theorem read_only_notice_accepted:
  "\<exists>J d d' e' g. ledger_grant J (hexe sample_agent (replicate 32 3)) d = Some g \<and> gr_permission g = ''read_only'' \<and>
     gr_revoked_at g = Some 5 \<and>
     apply_version sample_agent J good_io (sv_version sample_values) d = (Inr e', d') \<and> en_ver e' = 2"
  using sample_notice_applied by blast

text \<open>A device whose signer cannot show a prompt is told so when it signs the terms itself, but not when its
  smart account carries the approval: there the text of the error is searched for a word it does not
  contain.\<close>

theorem smart_account_hides_missing_prompt:
  "signing_problem (ConfirmationUnavailable k OsUserVerification) = ''needs_os_confirm'' \<and>
   chain_refusal (ChConfig (''approval signature: '' @ auth_display (ConfirmationUnavailable k OsUserVerification))) = ''failed''"
  by (cases k) (simp_all add: chain_refusal_def)

text \<open>A relay that cannot be reached keeps an approval from being pulled back at all: neither the chain nor
  the record is told.\<close>

theorem revoke_stops_without_relay:
  "\<exists>e m. revoke_now A J io1 io2 False now chain gid d = (Inl e, d, m)"
  by (auto simp: revoke_now_def Let_def split: option.splits)

end
