(* ===== verification/Notify.thy ===== *)
theory Notify
  imports Approve
begin

text \<open>
  The approval notification (\<open>apps/agent/src-tauri/src/notify.rs\<close>), answerable from its buttons, and
  the commands of \<open>approve.rs\<close> around the inbox watcher: starting it, one round of it, and the list of
  waiting requests. Showing a notification or the window is an output of the model; the words on the
  screen are constructors, since the theorems speak of what a button does and not of its label.
\<close>

subsection \<open>Plans\<close>

datatype wording =
    TitleSomeoneAsks | TitleRefused | TitleAllowed | TitleNotSent
  | LabelReadOnly | LabelEdit | LabelDeny | LabelOpen
  | BodyWants string bool
  | BodyChanged string
  | BodyNotLockedHere
  | BodyRefused "string option" | BodyMayRead "string option" | BodyMayEdit "string option"
  | BodyTryAgain
  | AnswerInApp wording

record button =
  bu_label :: wording
  bu_action :: string

record plan =
  pl_title :: wording
  pl_body :: wording
  pl_buttons :: "button list"

datatype action = Decide string decision_arg | OpenWindow string

definition plan_for :: "incoming_card \<Rightarrow> plan" where
  "plan_for i =
     \<lparr>pl_title = TitleSomeoneAsks,
      pl_body = (case ic_file_name i of
                   Some name \<Rightarrow> if ic_can_allow i then BodyWants name (ic_requested i = ''edit'') else BodyChanged name
                 | None \<Rightarrow> BodyNotLockedHere),
      pl_buttons =
        (if ic_can_allow i
         then \<lparr>bu_label = LabelReadOnly, bu_action = ''read_only:'' @ ic_id i\<rparr> #
              (if ic_can_allow_edit i then [\<lparr>bu_label = LabelEdit, bu_action = ''edit:'' @ ic_id i\<rparr>] else [])
         else []) @
        [\<lparr>bu_label = LabelDeny, bu_action = ''deny:'' @ ic_id i\<rparr>, \<lparr>bu_label = LabelOpen, bu_action = ''open:'' @ ic_id i\<rparr>]\<rparr>"

definition plan_after :: "decision_arg \<Rightarrow> string option \<Rightarrow> plan" where
  "plan_after d name =
     (case d of
        DaDeny \<Rightarrow> \<lparr>pl_title = TitleRefused, pl_body = BodyRefused name, pl_buttons = []\<rparr>
      | DaReadOnly \<Rightarrow> \<lparr>pl_title = TitleAllowed, pl_body = BodyMayRead name, pl_buttons = []\<rparr>
      | DaEdit \<Rightarrow> \<lparr>pl_title = TitleAllowed, pl_body = BodyMayEdit name, pl_buttons = []\<rparr>)"

definition plan_problem :: plan where
  "plan_problem = \<lparr>pl_title = TitleNotSent, pl_body = BodyTryAgain, pl_buttons = []\<rparr>"

subsection \<open>Buttons that were pressed\<close>

text \<open>\<open>str::split_once\<close> and \<open>char::is_ascii_hexdigit\<close>.\<close>

fun split_once :: "char \<Rightarrow> string \<Rightarrow> (string \<times> string) option" where
  "split_once c [] = None"
| "split_once c (x # xs) =
     (if x = c then Some ([], xs) else map_option (\<lambda>(a, b). (x # a, b)) (split_once c xs))"

definition is_ascii_hexdigit :: "char \<Rightarrow> bool" where
  "is_ascii_hexdigit c \<longleftrightarrow>
     (let n = of_char c :: nat in 48 \<le> n \<and> n \<le> 57 \<or> 65 \<le> n \<and> n \<le> 70 \<or> 97 \<le> n \<and> n \<le> 102)"

definition parse_action :: "string \<Rightarrow> action option" where
  "parse_action a =
     (case split_once (CHR '':'') a of
        None \<Rightarrow> None
      | Some (verb, rid) \<Rightarrow>
          if rid = [] \<or> \<not> list_all is_ascii_hexdigit rid then None
          else if verb = ''read_only'' then Some (Decide rid DaReadOnly)
          else if verb = ''edit'' then Some (Decide rid DaEdit)
          else if verb = ''deny'' then Some (Decide rid DaDeny)
          else if verb = ''open'' then Some (OpenWindow rid)
          else None)"

text \<open>What the notifier of the platform makes of a plan: Windows toasts carry the buttons, other desktops
  have none and say where to answer.\<close>

definition has_buttons :: "bool \<Rightarrow> bool" where
  "has_buttons windows = windows"

definition shown_plan :: "bool \<Rightarrow> plan \<Rightarrow> plan" where
  "shown_plan windows p =
     (if has_buttons windows then p
      else p\<lparr>pl_body := (if pl_buttons p = [] then pl_body p else AnswerInApp (pl_body p)), pl_buttons := []\<rparr>)"

datatype shell_output = ShowPlan plan | ShowWindow

text \<open>\<open>announce\<close> wires the buttons to the command \<open>decide\<close>, here \<open>dec\<close> on the agent's state.\<close>

definition on_action ::
  "(string \<Rightarrow> decision_arg \<Rightarrow> 's \<Rightarrow> (string + answered) \<times> 's) \<Rightarrow> bool \<Rightarrow> string option \<Rightarrow> string \<Rightarrow> 's \<Rightarrow> 's \<times> shell_output list" where
  "on_action dec windows name a s =
     (case parse_action a of
        Some (Decide rid d) \<Rightarrow>
          (case dec rid d s of
             (Inr _, s') \<Rightarrow> (s', [ShowPlan (shown_plan windows (plan_after d name))])
           | (Inl _, s') \<Rightarrow> (s', [ShowWindow, ShowPlan (shown_plan windows plan_problem)]))
      | _ \<Rightarrow> (s, [ShowWindow]))"

definition announce_card :: "bool \<Rightarrow> incoming_card \<Rightarrow> shell_output list" where
  "announce_card windows i = [ShowPlan (shown_plan windows (plan_for i))]"

subsection \<open>The inbox watcher of the owner\<close>

record watching =
  wt_watching :: bool
  wt_approvals :: approvals

text \<open>\<open>client_for\<close>: the profile in memory, the device's keys, a relay client on the endpoints.\<close>

definition client_for ::
  "device_profile option \<Rightarrow> auth_error + device_identity \<Rightarrow> bool \<Rightarrow> string + (device_identity \<times> bytes)" where
  "client_for held keys client_ok =
     rbind (ok_or held ''not_set_up'') (\<lambda>prof.
     rbind (map_err (\<lambda>_. ''not_set_up'') keys) (\<lambda>dev.
       if client_ok then Inr (dev, owner_account prof) else Inl ''relay_unreachable''))"

text \<open>\<open>ensure_watching\<close> reports whether the watcher thread is to be started, with its client.\<close>

definition ensure_watching ::
  "string + (device_identity \<times> bytes) \<Rightarrow> bool option \<Rightarrow> watching \<Rightarrow> (string + (device_identity \<times> bytes) option) \<times> watching" where
  "ensure_watching client signer_confirms w =
     (if wt_watching w then (Inr None, w)
      else case client of
        Inl e \<Rightarrow> (Inl e, w\<lparr>wt_watching := False\<rparr>)
      | Inr c \<Rightarrow>
          let supported = (case signer_confirms of Some sc \<Rightarrow> edit_supported sc default_confirmation | None \<Rightarrow> False)
          in (Inr (Some c), w\<lparr>wt_watching := True,
                wt_approvals := (wt_approvals w)\<lparr>ap_edit_supported := supported\<rparr>\<rparr>))"

text \<open>One round of the watcher: what the inbox brought is kept, and what was not there before is shown.\<close>

definition watch_round ::
  "'x agent_lib_scheme \<Rightarrow> json \<Rightarrow> bool \<Rightarrow> (nat \<Rightarrow> store_io \<times> store_io) \<Rightarrow> relay_envelope list option \<Rightarrow> bytes \<Rightarrow> u64 \<Rightarrow>
     chain_link option \<Rightarrow> approvals \<times> ledger_disk \<Rightarrow> (approvals \<times> ledger_disk) \<times> shell_output list" where
  "watch_round A J windows ios inbox owner now chain = (\<lambda>(a, d).
     let (fresh, d') = next_requests_on A J ios inbox owner now chain d in
     if fresh = [] then ((a, d'), [])
     else let (arrived, a') = take_fresh A fresh a
          in ((a', d'), concat (map (announce_card windows) arrived) @ [ShowWindow]))"

text \<open>The order in which a hash map yields its values is an argument.\<close>

definition pending_approvals :: "'x agent_lib_scheme \<Rightarrow> string list \<Rightarrow> approvals \<Rightarrow> incoming_card list" where
  "pending_approvals A ids a =
     sort_key ic_asked_at
       (map (\<lambda>p. incoming_on A p (ap_edit_supported a)) (List.map_filter (ap_pending a) ids))"

subsection \<open>Lemmas\<close>

lemma split_once_append [simp]:
  "c \<notin> set a \<Longrightarrow> split_once c (a @ c # b) = Some (a, b)"
  by (induction a) auto

lemma split_once_Some: "split_once c s = Some (a, b) \<Longrightarrow> s = a @ c # b \<and> c \<notin> set a"
  by (induction s arbitrary: a) (auto split: if_splits)

fun action_verb :: "action \<Rightarrow> string" where
  "action_verb (Decide _ d) = decision_arg_word d"
| "action_verb (OpenWindow _) = ''open''"

fun action_id :: "action \<Rightarrow> string" where
  "action_id (Decide rid _) = rid"
| "action_id (OpenWindow rid) = rid"

lemma action_cases [case_names read_only edit deny window]:
  assumes "\<And>rid. a = Decide rid DaReadOnly \<Longrightarrow> P" and "\<And>rid. a = Decide rid DaEdit \<Longrightarrow> P"
    and "\<And>rid. a = Decide rid DaDeny \<Longrightarrow> P" and "\<And>rid. a = OpenWindow rid \<Longrightarrow> P"
  shows P
  using assms by (metis action.exhaust decision_arg.exhaust)

lemma verb_no_colon: "CHR '':'' \<notin> set (action_verb a)"
  by (cases a rule: action_cases) simp_all

text \<open>The strings that parse are exactly the printed actions.\<close>

lemma parse_action_iff:
  "parse_action s = Some a \<longleftrightarrow>
     s = action_verb a @ CHR '':'' # action_id a \<and> action_id a \<noteq> [] \<and> list_all is_ascii_hexdigit (action_id a)"
proof
  assume p: "parse_action s = Some a"
  then obtain verb rid where s: "split_once (CHR '':'') s = Some (verb, rid)" and h: "rid \<noteq> []" "list_all is_ascii_hexdigit rid"
    by (auto simp: parse_action_def split: option.splits if_splits)
  have "action_verb a = verb" "action_id a = rid"
    using p s h by (auto simp: parse_action_def split: if_splits)
  then show "s = action_verb a @ CHR '':'' # action_id a \<and> action_id a \<noteq> [] \<and> list_all is_ascii_hexdigit (action_id a)"
    using split_once_Some [OF s] h by simp
next
  assume r: "s = action_verb a @ CHR '':'' # action_id a \<and> action_id a \<noteq> [] \<and> list_all is_ascii_hexdigit (action_id a)"
  then have "split_once (CHR '':'') s = Some (action_verb a, action_id a)" using verb_no_colon by simp
  then show "parse_action s = Some a"
    using r by (cases a rule: action_cases) (simp_all add: parse_action_def)
qed

lemma on_action_decides:
  "fst (on_action dec windows name s st) = st \<or>
   (\<exists>rid d. s = decision_arg_word d @ CHR '':'' # rid \<and> fst (on_action dec windows name s st) = snd (dec rid d st))"
proof (cases "\<exists>rid d. parse_action s = Some (Decide rid d)")
  case True
  then obtain rid d where a: "parse_action s = Some (Decide rid d)" by blast
  then have "s = decision_arg_word d @ CHR '':'' # rid" by (simp add: parse_action_iff)
  moreover have "fst (on_action dec windows name s st) = snd (dec rid d st)"
    using a by (simp add: on_action_def split: prod.split sum.split)
  ultimately show ?thesis by blast
next
  case False
  then show ?thesis by (auto simp: on_action_def split: option.split action.split)
qed

definition offered :: "incoming_card \<Rightarrow> action set" where
  "offered i =
     {a. action_id a = ic_id i \<and>
         (case a of Decide _ DaReadOnly \<Rightarrow> ic_can_allow i | Decide _ DaEdit \<Rightarrow> ic_can_allow i \<and> ic_can_allow_edit i | _ \<Rightarrow> True)}"


lemma offered_iff:
  "a \<in> offered i \<longleftrightarrow> a \<in> {Decide (ic_id i) DaDeny, OpenWindow (ic_id i)} \<or> ic_can_allow i \<and> a = Decide (ic_id i) DaReadOnly \<or>
     ic_can_allow i \<and> ic_can_allow_edit i \<and> a = Decide (ic_id i) DaEdit"
  by (cases a rule: action_cases) (auto simp: offered_def)

lemma plan_actions:
  "bu_action ` set (pl_buttons (plan_for i)) = (\<lambda>a. action_verb a @ CHR '':'' # action_id a) ` offered i"
proof -
  have "offered i = {Decide (ic_id i) DaDeny, OpenWindow (ic_id i)} \<union> (if ic_can_allow i then {Decide (ic_id i) DaReadOnly} else {}) \<union>
     (if ic_can_allow i \<and> ic_can_allow_edit i then {Decide (ic_id i) DaEdit} else {})"
    by (rule set_eqI) (auto simp: offered_iff)
  then show ?thesis
    by (cases "ic_can_allow i"; cases "ic_can_allow_edit i") (simp_all add: plan_for_def insert_commute)
qed

definition card_id :: "'x agent_lib_scheme \<Rightarrow> pending_request \<Rightarrow> string" where
  "card_id A p = hexe A (ar_nonce (pq_request p))"

lemma incoming_on_fields [simp]:
  "ic_id (incoming_on A p ok) = card_id A p"
  "ic_can_allow (incoming_on A p ok) \<longleftrightarrow> (\<exists>e. pq_entry p = Some e \<and> en_header_hash e = hexe A (ar_header_hash (pq_request p)))"
  "ic_can_allow_edit (incoming_on A p ok) \<longleftrightarrow> ic_can_allow (incoming_on A p ok) \<and> ok"
  by (auto simp: incoming_on_def incoming_def card_id_def Let_def split: option.splits)

lemma take_fresh_arrived:
  assumes "take_fresh A ps a = (arrived, a')"
  shows "distinct (map ic_id arrived) \<and> set (map ic_id arrived) = card_id A ` set ps - dom (ap_pending a) \<and>
    dom (ap_pending a') = dom (ap_pending a) \<union> card_id A ` set ps"
  using assms
proof (induction ps arbitrary: a arrived a')
  case (Cons p ps)
  let ?i = "incoming_on A p (ap_edit_supported a)"
  obtain rest where r: "take_fresh A ps (a\<lparr>ap_pending := (ap_pending a)(ic_id ?i \<mapsto> p)\<rparr>) = (rest, a')"
    and arr: "arrived = (if ap_pending a (ic_id ?i) = None then ?i # rest else rest)"
    using Cons.prems by (auto simp: Let_def split: prod.splits)
  have dm: "dom (ap_pending (a\<lparr>ap_pending := (ap_pending a)(ic_id ?i \<mapsto> p)\<rparr>)) = insert (card_id A p) (dom (ap_pending a))"
    by auto
  have "ap_pending a (card_id A p) = None \<longleftrightarrow> card_id A p \<notin> dom (ap_pending a)" by auto
  with Cons.IH [OF r, unfolded dm] show ?case unfolding arr by (cases "card_id A p \<in> dom (ap_pending a)") auto
qed simp

lemma pending_approvals_set:
  assumes "set ids = dom (ap_pending a)"
  shows "set (pending_approvals A ids a) = (\<lambda>p. incoming_on A p (ap_edit_supported a)) ` ran (ap_pending a)"
proof -
  have "set (List.map_filter (ap_pending a) ids) = ran (ap_pending a)"
    using assms by (auto simp: map_filter_def ran_def domIff image_iff) (metis domI option.sel)
  then show ?thesis by (simp add: pending_approvals_def)
qed

subsection \<open>Properties\<close>



text \<open>Every request is shown once: a round of the watcher shows exactly the requests that were not
  waiting before it, each of them once, and all of them wait after it, together with those before.\<close>

theorem requests_shown_once:
  assumes "watch_round A J windows ios inbox owner now chain (a, d) = ((a', d'), outs)"
  shows "\<exists>arrived fresh. fresh = fst (next_requests_on A J ios inbox owner now chain d) \<and>
    List.map_filter (\<lambda>x. case x of ShowPlan p \<Rightarrow> Some p | _ \<Rightarrow> None) outs = map (\<lambda>i. shown_plan windows (plan_for i)) arrived \<and>
    distinct (map ic_id arrived) \<and> set (map ic_id arrived) = card_id A ` set fresh - dom (ap_pending a) \<and>
    dom (ap_pending a') = dom (ap_pending a) \<union> card_id A ` set fresh"
proof -
  obtain fresh d2 where n: "next_requests_on A J ios inbox owner now chain d = (fresh, d2)" by fastforce
  obtain arrived a2 where t: "take_fresh A fresh a = (arrived, a2)" by fastforce
  have m: "List.map_filter (\<lambda>x. case x of ShowPlan p \<Rightarrow> Some p | _ \<Rightarrow> None) (concat (map (announce_card windows) l) @ [ShowWindow]) =
    map (\<lambda>i. shown_plan windows (plan_for i)) l" for l
    by (induction l) (simp_all add: map_filter_simps announce_card_def)
  show ?thesis
  proof (cases "fresh = []")
    case True
    then show ?thesis using assms n by (intro exI [of _ "[]"] exI [of _ fresh]) (auto simp: watch_round_def map_filter_simps)
  next
    case False
    then have "a' = a2" "outs = concat (map (announce_card windows) arrived) @ [ShowWindow]"
      using assms n t by (auto simp: watch_round_def Let_def split: prod.splits)
    then show ?thesis using take_fresh_arrived [OF t] n m by (intro exI [of _ arrived] exI [of _ fresh]) simp
  qed
qed

theorem requests_shown_once_witness:
  "\<exists>a' d' outs. watch_round sample_agent sample_ledger_json True (\<lambda>_. (good_io, good_io))
      (Some [\<lparr>re_id = [], re_kind = KReq, re_body = [6], re_queued_at = 90\<rparr>]) [1] 100 None
      (\<lparr>ap_pending = Map.empty, ap_recent = [], ap_edit_supported = False\<rparr>, disk_of [0]) = ((a', d'), outs) \<and>
     dom (ap_pending a') = {hexe sample_agent (ar_nonce sample_request)}"
proof -
  let ?in = "Some [\<lparr>re_id = [], re_kind = KReq, re_body = [6], re_queued_at = 90\<rparr>]"
  obtain a' d' outs where w: "watch_round sample_agent sample_ledger_json True (\<lambda>_. (good_io, good_io)) ?in [1] 100 None
      (\<lparr>ap_pending = Map.empty, ap_recent = [], ap_edit_supported = False\<rparr>, disk_of [0]) = ((a', d'), outs)"
    by (metis surj_pair)
  have "map pq_request (fst (next_requests_on sample_agent sample_ledger_json (\<lambda>_. (good_io, good_io)) ?in [1] 100 None (disk_of [0])))
      = [sample_request]"
    by (simp add: next_requests_on_def sample_accepted_request map_filter_simps Let_def)
  then have "card_id sample_agent ` set (fst (next_requests_on sample_agent sample_ledger_json (\<lambda>_. (good_io, good_io)) ?in
      [1] 100 None (disk_of [0]))) = {hexe sample_agent (ar_nonce sample_request)}"
    by (cases "fst (next_requests_on sample_agent sample_ledger_json (\<lambda>_. (good_io, good_io)) ?in [1] 100 None (disk_of [0]))")
      (auto simp: card_id_def)
  with requests_shown_once [OF w] w show ?thesis by auto
qed

end
