(* ===== verification/Session_State.thy ===== *)
theory Session_State
  imports Core_Types
begin

text \<open>
  The session state machine (\<open>crates/zbacs-session/src/state.rs\<close>): the life of one
  approval, from the request to the wiped workspace. \<open>apply_event\<close> is the source's
  \<open>Session::apply\<close>, with the session returned beside the result; a rejected event leaves the
  session as it was. \<open>session_run\<close> is the step relation over sequences of events, with the
  effects the agent was told to perform.
\<close>

datatype sess_state =
    StRequested | StDenied | StGranted | StOpen | StResealing | StClosed | StRevoked | StFailed

fun plaintext_allowed :: "sess_state \<Rightarrow> bool" where
  "plaintext_allowed StOpen = True"
| "plaintext_allowed StResealing = True"
| "plaintext_allowed _ = False"

fun is_terminal :: "sess_state \<Rightarrow> bool" where
  "is_terminal StDenied = True"
| "is_terminal StClosed = True"
| "is_terminal StRevoked = True"
| "is_terminal StFailed = True"
| "is_terminal _ = False"

datatype sess_event =
    EvGranted permission u64 u64 u16
  | EvDenied
  | EvOpened
  | EvSaved
  | EvResealed u32
  | EvViewerExited
  | EvRevoked
  | EvExpired
  | EvFailed string

datatype audit_kind = AkRequested | AkDenied | AkOpened | AkSealed | AkFailed

datatype notice =
    NRefused | NChangesDiscarded | NRevokedByOwner | NExpired | NOpensExhausted | NResealed | NProblem

datatype sess_effect =
    EfMaterialisePlaintext
  | EfMarkReadOnly
  | EfLaunchViewer
  | EfRequestViewerClose
  | EfReseal
  | EfDiscardChanges
  | EfWipeWorkspace
  | EfAudit audit_kind
  | EfNotify notice

datatype transition_error =
    TeTerminal sess_state
  | TeUnexpected sess_state string
  | TeNotYetValid
  | TeAlreadyExpired
  | TeDenyIsNotAGrant

fun event_name :: "sess_event \<Rightarrow> string" where
  "event_name (EvGranted _ _ _ _) = ''Granted''"
| "event_name EvDenied = ''Denied''"
| "event_name EvOpened = ''Opened''"
| "event_name EvSaved = ''Saved''"
| "event_name (EvResealed _) = ''Resealed''"
| "event_name EvViewerExited = ''ViewerExited''"
| "event_name EvRevoked = ''Revoked''"
| "event_name EvExpired = ''Expired''"
| "event_name (EvFailed _) = ''Failed''"

record session =
  se_state :: sess_state
  se_permission :: "permission option"
  se_not_before :: u64
  se_expiry :: u64
  se_max_opens :: u16
  se_opens :: u16
  se_version :: "u32 option"
  se_dirty :: bool

definition session_new :: session where
  "session_new =
     \<lparr>se_state = StRequested, se_permission = None, se_not_before = 0, se_expiry = 0, se_max_opens = 0,
      se_opens = 0, se_version = None, se_dirty = False\<rparr>"

definition session_resume :: "permission \<Rightarrow> u64 \<Rightarrow> u64 \<Rightarrow> u16 \<Rightarrow> u16 \<Rightarrow> session" where
  "session_resume perm nb ex mo opens =
     \<lparr>se_state = StGranted, se_permission = Some perm, se_not_before = nb, se_expiry = ex, se_max_opens = mo,
      se_opens = opens, se_version = None, se_dirty = False\<rparr>"

definition is_expired :: "session \<Rightarrow> u64 \<Rightarrow> bool" where
  "is_expired s now \<longleftrightarrow> se_permission s \<noteq> None \<and> se_expiry s \<le> now"

text \<open>The match of \<open>Session::apply\<close>, in the order of its arms.\<close>

definition apply_granted ::
  "session \<Rightarrow> permission \<Rightarrow> u64 \<Rightarrow> u64 \<Rightarrow> u16 \<Rightarrow> u64 \<Rightarrow> (transition_error + sess_effect list) \<times> session" where
  "apply_granted s perm nb ex mo now =
     (if perm = Deny then (Inl TeDenyIsNotAGrant, s)
      else if now < nb then (Inl TeNotYetValid, s)
      else if ex \<le> now then (Inl TeAlreadyExpired, s)
      else (Inr [EfMaterialisePlaintext],
            s\<lparr>se_permission := Some perm, se_not_before := nb, se_expiry := ex, se_max_opens := mo,
              se_state := StGranted\<rparr>))"

definition apply_opened :: "session \<Rightarrow> (transition_error + sess_effect list) \<times> session" where
  "apply_opened s =
     (if se_max_opens s \<noteq> 0 \<and> se_max_opens s \<le> se_opens s
      then (Inr [EfWipeWorkspace, EfNotify NOpensExhausted], s\<lparr>se_state := StClosed\<rparr>)
      else (Inr ((if se_permission s = Some ReadOnly then [EfMarkReadOnly] else [])
                 @ [EfLaunchViewer, EfAudit AkOpened]),
            s\<lparr>se_opens := se_opens s + 1, se_state := StOpen\<rparr>))"

definition apply_saved :: "session \<Rightarrow> (transition_error + sess_effect list) \<times> session" where
  "apply_saved s =
     (if se_permission s = Some Edit
      then (Inr [EfReseal], s\<lparr>se_dirty := True, se_state := StResealing\<rparr>)
      else (Inr [EfDiscardChanges, EfNotify NChangesDiscarded], s))"

definition apply_revoked :: "session \<Rightarrow> (transition_error + sess_effect list) \<times> session" where
  "apply_revoked s =
     (Inr ((if plaintext_allowed (se_state s) then [EfRequestViewerClose, EfWipeWorkspace] else [])
           @ [EfNotify NRevokedByOwner]),
      s\<lparr>se_dirty := False, se_state := StRevoked\<rparr>)"

definition apply_expired :: "session \<Rightarrow> (transition_error + sess_effect list) \<times> session" where
  "apply_expired s =
     (Inr ((if plaintext_allowed (se_state s) then [EfRequestViewerClose, EfWipeWorkspace] else [])
           @ [EfNotify NExpired]),
      s\<lparr>se_dirty := False, se_state := StClosed\<rparr>)"

definition apply_failed :: "session \<Rightarrow> (transition_error + sess_effect list) \<times> session" where
  "apply_failed s =
     (Inr ((if plaintext_allowed (se_state s) then [EfWipeWorkspace] else [])
           @ [EfAudit AkFailed, EfNotify NProblem]),
      s\<lparr>se_state := StFailed\<rparr>)"

definition apply_event ::
  "session \<Rightarrow> sess_event \<Rightarrow> u64 \<Rightarrow> (transition_error + sess_effect list) \<times> session" where
  "apply_event s ev now =
     (if is_terminal (se_state s) then (Inl (TeTerminal (se_state s)), s)
      else case (se_state s, ev) of
        (StRequested, EvGranted perm nb ex mo) \<Rightarrow> apply_granted s perm nb ex mo now
      | (StRequested, EvDenied) \<Rightarrow>
          (Inr [EfAudit AkDenied, EfNotify NRefused], s\<lparr>se_state := StDenied\<rparr>)
      | (StGranted, EvOpened) \<Rightarrow> apply_opened s
      | (StOpen, EvSaved) \<Rightarrow> apply_saved s
      | (StResealing, EvResealed v) \<Rightarrow>
          (Inr [EfAudit AkSealed, EfNotify NResealed],
           s\<lparr>se_version := Some v, se_dirty := False, se_state := StOpen\<rparr>)
      | (StOpen, EvViewerExited) \<Rightarrow> (Inr [EfWipeWorkspace], s\<lparr>se_state := StClosed\<rparr>)
      | (_, EvRevoked) \<Rightarrow> apply_revoked s
      | (_, EvExpired) \<Rightarrow> apply_expired s
      | (_, EvFailed _) \<Rightarrow> apply_failed s
      | (st, e) \<Rightarrow> (Inl (TeUnexpected st (event_name e)), s))"

lemmas apply_defs = apply_event_def apply_granted_def apply_opened_def apply_saved_def apply_revoked_def
  apply_expired_def apply_failed_def

subsection \<open>Runs\<close>

text \<open>
  A sequence of events with the times they arrived at, the effects asked for, and the session
  after it. Events the machine rejects are part of a run: they change nothing.
\<close>

inductive session_run :: "session \<Rightarrow> (sess_event \<times> u64) list \<Rightarrow> sess_effect list \<Rightarrow> session \<Rightarrow> bool" where
  run_nil: "session_run s [] [] s"
| run_ok: "session_run s evs effs s1 \<Longrightarrow> apply_event s1 ev now = (Inr es, s2) \<Longrightarrow>
           session_run s (evs @ [(ev, now)]) (effs @ es) s2"
| run_err: "session_run s evs effs s1 \<Longrightarrow> apply_event s1 ev now = (Inl er, s2) \<Longrightarrow>
           session_run s (evs @ [(ev, now)]) effs s2"

lemma apply_error_unchanged: "apply_event s ev now = (Inl er, s') \<Longrightarrow> s' = s"
  by (cases "se_state s"; cases ev) (auto simp: apply_defs split: if_splits)

lemma apply_terminal: "is_terminal (se_state s) \<Longrightarrow> apply_event s ev now = (Inl (TeTerminal (se_state s)), s)"
  by (simp add: apply_event_def)

text \<open>Every accepted event, by the arm that took it.\<close>

lemma apply_okE:
  assumes "apply_event s ev now = (Inr es, s')"
  obtains
    (granted) perm nb ex mo where "ev = EvGranted perm nb ex mo" "se_state s = StRequested" "perm \<noteq> Deny"
      "nb \<le> now" "now < ex" "es = [EfMaterialisePlaintext]"
      "s' = s\<lparr>se_permission := Some perm, se_not_before := nb, se_expiry := ex, se_max_opens := mo,
              se_state := StGranted\<rparr>"
  | (denied) "ev = EvDenied" "se_state s = StRequested" "es = [EfAudit AkDenied, EfNotify NRefused]"
      "s' = s\<lparr>se_state := StDenied\<rparr>"
  | (exhausted) "ev = EvOpened" "se_state s = StGranted" "se_max_opens s \<noteq> 0" "se_max_opens s \<le> se_opens s"
      "es = [EfWipeWorkspace, EfNotify NOpensExhausted]" "s' = s\<lparr>se_state := StClosed\<rparr>"
  | (opened) "ev = EvOpened" "se_state s = StGranted" "se_max_opens s = 0 \<or> se_opens s < se_max_opens s"
      "es = (if se_permission s = Some ReadOnly then [EfMarkReadOnly] else []) @ [EfLaunchViewer, EfAudit AkOpened]"
      "s' = s\<lparr>se_opens := se_opens s + 1, se_state := StOpen\<rparr>"
  | (save) "ev = EvSaved" "se_state s = StOpen" "se_permission s = Some Edit" "es = [EfReseal]"
      "s' = s\<lparr>se_dirty := True, se_state := StResealing\<rparr>"
  | (discard) "ev = EvSaved" "se_state s = StOpen" "se_permission s \<noteq> Some Edit"
      "es = [EfDiscardChanges, EfNotify NChangesDiscarded]" "s' = s"
  | (resealed) v where "ev = EvResealed v" "se_state s = StResealing" "es = [EfAudit AkSealed, EfNotify NResealed]"
      "s' = s\<lparr>se_version := Some v, se_dirty := False, se_state := StOpen\<rparr>"
  | (exited) "ev = EvViewerExited" "se_state s = StOpen" "es = [EfWipeWorkspace]" "s' = s\<lparr>se_state := StClosed\<rparr>"
  | (revoked) "ev = EvRevoked" "\<not> is_terminal (se_state s)" "s' = s\<lparr>se_dirty := False, se_state := StRevoked\<rparr>"
      "es = (if plaintext_allowed (se_state s) then [EfRequestViewerClose, EfWipeWorkspace] else [])
              @ [EfNotify NRevokedByOwner]"
  | (expired) "ev = EvExpired" "\<not> is_terminal (se_state s)" "s' = s\<lparr>se_dirty := False, se_state := StClosed\<rparr>"
      "es = (if plaintext_allowed (se_state s) then [EfRequestViewerClose, EfWipeWorkspace] else [])
              @ [EfNotify NExpired]"
  | (failed) why where "ev = EvFailed why" "\<not> is_terminal (se_state s)" "s' = s\<lparr>se_state := StFailed\<rparr>"
      "es = (if plaintext_allowed (se_state s) then [EfWipeWorkspace] else []) @ [EfAudit AkFailed, EfNotify NProblem]"
proof -
  have nt: "\<not> is_terminal (se_state s)" using assms by (auto simp: apply_event_def)
  show ?thesis
  proof (cases ev)
    case EvGranted
    then show ?thesis using assms granted
      by (cases "se_state s") (auto simp: apply_event_def apply_granted_def not_less not_le split: if_splits)
  next
    case EvDenied
    then show ?thesis using assms denied by (cases "se_state s") (auto simp: apply_event_def)
  next
    case EvOpened
    then show ?thesis using assms exhausted opened
      by (cases "se_state s") (auto simp: apply_event_def apply_opened_def not_le split: if_splits)
  next
    case EvSaved
    then show ?thesis using assms save discard
      by (cases "se_state s") (auto simp: apply_event_def apply_saved_def split: if_splits)
  next
    case EvResealed
    then show ?thesis using assms resealed by (cases "se_state s") (auto simp: apply_event_def)
  next
    case EvViewerExited
    then show ?thesis using assms exited by (cases "se_state s") (auto simp: apply_event_def)
  next
    case EvRevoked
    then have "apply_event s ev now = apply_revoked s"
      using nt by (cases "se_state s") (auto simp: apply_event_def)
    then show ?thesis using assms revoked [OF EvRevoked nt] by (simp add: apply_revoked_def)
  next
    case EvExpired
    then have "apply_event s ev now = apply_expired s"
      using nt by (cases "se_state s") (auto simp: apply_event_def)
    then show ?thesis using assms expired [OF EvExpired nt] by (simp add: apply_expired_def)
  next
    case (EvFailed why)
    then have "apply_event s ev now = apply_failed s"
      using nt by (cases "se_state s") (auto simp: apply_event_def)
    then show ?thesis using assms failed [OF EvFailed nt] by (simp add: apply_failed_def)
  qed
qed

subsection \<open>Invariants of runs\<close>

text \<open>
  The interface of a safety property of sessions: it holds of the empty history of a new
  session and every accepted or rejected event keeps it. It then holds of every run.
\<close>

locale session_invariant =
  fixes inv :: "(sess_event \<times> u64) list \<Rightarrow> sess_effect list \<Rightarrow> session \<Rightarrow> bool"
  assumes init: "inv [] [] session_new"
    and accepted: "inv evs effs s \<Longrightarrow> apply_event s ev now = (Inr es, s') \<Longrightarrow> inv (evs @ [(ev, now)]) (effs @ es) s'"
    and rejected: "inv evs effs s \<Longrightarrow> inv (evs @ [(ev, now)]) effs s"
begin

lemma run: "session_run session_new evs effs s \<Longrightarrow> inv evs effs s"
proof (induction session_new evs effs s rule: session_run.induct)
  case run_nil
  then show ?case by (rule init)
next
  case (run_ok evs effs s1 ev now es s2)
  then show ?case by (blast intro: accepted)
next
  case (run_err evs effs s1 ev now er s2)
  then show ?case using rejected apply_error_unchanged by blast
qed

end

text \<open>Which fields a state can have.\<close>

definition session_wf :: "session \<Rightarrow> bool" where
  "session_wf s \<longleftrightarrow>
     (case se_state s of
        StRequested \<Rightarrow> se_permission s = None \<and> se_opens s = 0
      | StGranted \<Rightarrow> se_permission s \<in> {Some ReadOnly, Some Edit} \<and> se_opens s = 0
      | StOpen \<Rightarrow> se_permission s \<in> {Some ReadOnly, Some Edit} \<and> se_opens s = 1 \<and> \<not> se_dirty s
      | StResealing \<Rightarrow> se_permission s = Some Edit \<and> se_opens s = 1 \<and> se_dirty s
      | _ \<Rightarrow> se_opens s \<in> {0, 1}) \<and>
     (se_dirty s \<longrightarrow> se_state s = StResealing \<or> se_state s = StFailed) \<and>
     (se_version s \<noteq> None \<longrightarrow> se_permission s = Some Edit \<and> se_opens s = 1)"

lemma session_wf_step:
  assumes "session_wf s" and "apply_event s ev now = (Inr es, s')"
  shows "session_wf s'"
  using assms(2)
proof (cases rule: apply_okE)
  case (granted perm nb ex mo)
  then show ?thesis using assms(1) by (cases perm) (auto simp: session_wf_def)
qed (use assms(1) in \<open>cases "se_state s"; auto simp: session_wf_def\<close>)+

interpretation wf: session_invariant "\<lambda>_ _. session_wf"
  by unfold_locales (auto simp: session_wf_step, simp add: session_wf_def session_new_def)

text \<open>What the effects have left on disk, when the agent performs them in order.\<close>

fun on_disk :: "bool \<Rightarrow> sess_effect list \<Rightarrow> bool" where
  "on_disk d [] = d"
| "on_disk d (EfMaterialisePlaintext # es) = on_disk True es"
| "on_disk d (EfWipeWorkspace # es) = on_disk False es"
| "on_disk d (_ # es) = on_disk d es"

lemma on_disk_append [simp]: "on_disk d (xs @ ys) = on_disk (on_disk d xs) ys"
  by (induction d xs rule: on_disk.induct) auto

definition launches :: "sess_effect list \<Rightarrow> nat" where
  "launches effs = count_list effs EfLaunchViewer"

definition disk_inv :: "sess_effect list \<Rightarrow> session \<Rightarrow> bool" where
  "disk_inv effs s \<longleftrightarrow>
     session_wf s \<and> launches effs = unat (se_opens s) \<and>
     count_list effs EfMaterialisePlaintext \<le> 1 \<and>
     (se_state s = StRequested \<longrightarrow> count_list effs EfMaterialisePlaintext = 0) \<and>
     (plaintext_allowed (se_state s) \<or> se_state s = StGranted \<longrightarrow> on_disk False effs) \<and>
     (se_state s = StRequested \<or> is_terminal (se_state s) \<and> 0 < launches effs \<longrightarrow> \<not> on_disk False effs)"

lemma disk_inv_step:
  assumes "disk_inv effs s" and "apply_event s ev now = (Inr es, s')"
  shows "disk_inv (effs @ es) s'"
proof -
  have wf: "session_wf s" "session_wf s'"
    using assms session_wf_step by (auto simp: disk_inv_def)
  show ?thesis
    using assms(2)
    by (cases rule: apply_okE; cases "se_state s")
       (use assms(1) wf in \<open>auto simp: disk_inv_def launches_def session_wf_def\<close>)
qed

interpretation disk: session_invariant "\<lambda>_. disk_inv"
  by unfold_locales
     (auto simp: disk_inv_step, simp add: disk_inv_def session_wf_def session_new_def launches_def)

text \<open>Where the right to show and to reseal came from.\<close>

definition granted_in :: "(sess_event \<times> u64) list \<Rightarrow> permission \<Rightarrow> bool" where
  "granted_in evs perm \<longleftrightarrow> (\<exists>nb ex mo t. (EvGranted perm nb ex mo, t) \<in> set evs \<and> nb \<le> t \<and> t < ex)"

definition right_inv :: "(sess_event \<times> u64) list \<Rightarrow> sess_effect list \<Rightarrow> session \<Rightarrow> bool" where
  "right_inv evs effs s \<longleftrightarrow>
     (\<forall>perm. se_permission s = Some perm \<longrightarrow> granted_in evs perm \<and> perm \<noteq> Deny) \<and>
     (EfMaterialisePlaintext \<in> set effs \<or> EfLaunchViewer \<in> set effs \<longrightarrow> se_permission s \<noteq> None) \<and>
     (EfReseal \<in> set effs \<longrightarrow> se_permission s = Some Edit) \<and>
     (EfMarkReadOnly \<in> set effs \<longrightarrow> se_permission s = Some ReadOnly) \<and>
     (se_state s = StRequested \<longrightarrow> effs = [])"

lemma granted_in_mono: "granted_in evs perm \<Longrightarrow> granted_in (evs @ evs') perm"
  by (auto simp: granted_in_def)

lemma right_inv_step:
  assumes "right_inv evs effs s" and "session_wf s" and "apply_event s ev now = (Inr es, s')"
  shows "right_inv (evs @ [(ev, now)]) (effs @ es) s'"
  using assms(3)
proof (cases rule: apply_okE)
  case (granted perm nb ex mo)
  then have "granted_in (evs @ [(ev, now)]) perm" unfolding granted_in_def by force
  then show ?thesis using granted assms(1) by (auto simp: right_inv_def)
qed (use assms(1,2) in \<open>auto simp: right_inv_def session_wf_def granted_in_mono\<close>)+

interpretation right: session_invariant "\<lambda>evs effs s. session_wf s \<and> right_inv evs effs s"
proof unfold_locales
  show "session_wf session_new \<and> right_inv [] [] session_new"
    by (simp add: session_wf_def right_inv_def session_new_def)
qed (auto simp: session_wf_step right_inv_step, auto simp: right_inv_def granted_in_mono)

lemma run_from_terminal:
  assumes "session_run s evs effs s'" and "is_terminal (se_state s)"
  shows "effs = [] \<and> s' = s"
  using assms by (induction rule: session_run.induct) (auto simp: apply_terminal)

text \<open>Runs can be computed.\<close>

definition run_step :: "sess_effect list \<times> session \<Rightarrow> sess_event \<times> u64 \<Rightarrow> sess_effect list \<times> session" where
  "run_step st e =
     (case apply_event (snd st) (fst e) (snd e) of
        (Inl _, s) \<Rightarrow> (fst st, s)
      | (Inr es, s) \<Rightarrow> (fst st @ es, s))"

lemma run_steps: "session_run s evs (fst (foldl run_step ([], s) evs)) (snd (foldl run_step ([], s) evs))"
proof (induction evs rule: rev_induct)
  case Nil
  then show ?case by (simp add: run_nil)
next
  case (snoc e evs)
  obtain ev now where e: "e = (ev, now)" by (cases e)
  show ?case
    using snoc.IH by (auto simp: e run_step_def split: prod.split sum.split intro: run_ok run_err)
qed

section \<open>Properties\<close>

text \<open>C4. In every run of a new session the effects keep plaintext under control: it is
  materialised at most once and the viewer launched at most once, plaintext is on disk while the
  session is granted, open or resealing, and once the viewer has been launched no terminal state
  leaves it there.\<close>

theorem session_plaintext_bounded:
  assumes "session_run session_new evs effs s"
  shows "count_list effs EfMaterialisePlaintext \<le> 1 \<and> count_list effs EfLaunchViewer \<le> 1 \<and>
    (plaintext_allowed (se_state s) \<longrightarrow> on_disk False effs) \<and>
    (is_terminal (se_state s) \<and> EfLaunchViewer \<in> set effs \<longrightarrow> \<not> on_disk False effs)"
proof -
  note d = disk.run [OF assms]
  have "unat (se_opens s) \<le> 1" using d by (auto simp: disk_inv_def session_wf_def split: sess_state.splits)
  moreover have "EfLaunchViewer \<in> set effs \<longleftrightarrow> 0 < launches effs"
    by (metis launches_def count_notin count_list_0_iff gr0I less_numeral_extra(3))
  ultimately show ?thesis using d by (auto simp: disk_inv_def launches_def)
qed

theorem session_plaintext_bounded_witness:
  "\<not> on_disk False (fst (foldl run_step ([], session_new)
      [(EvGranted Edit 0 10 1, 5), (EvOpened, 5), (EvSaved, 6), (EvResealed 2, 7), (EvViewerExited, 8)]))"
  using session_plaintext_bounded [OF run_steps,
      of "[(EvGranted Edit 0 10 1, 5), (EvOpened, 5), (EvSaved, 6), (EvResealed 2, 7), (EvViewerExited, 8)]"]
  by (simp add: run_step_def apply_defs session_new_def)



text \<open>A revoke, an expiry or a failure ends any live session for good: the event is accepted, the
  session becomes terminal, plaintext that may exist is wiped by the same step, no reseal is asked
  for, unsealed changes are forgotten on revoke and expiry, and no later event produces an effect or
  a change.\<close>

theorem session_end_is_final:
  assumes "\<not> is_terminal (se_state s)" and "ev \<in> {EvRevoked, EvExpired, EvFailed why}"
  shows "\<exists>es s1. apply_event s ev now = (Inr es, s1) \<and> is_terminal (se_state s1) \<and>
    (plaintext_allowed (se_state s) \<longrightarrow> EfWipeWorkspace \<in> set es) \<and> EfReseal \<notin> set es \<and>
    (ev \<noteq> EvFailed why \<longrightarrow> \<not> se_dirty s1) \<and>
    (\<forall>evs effs s2. session_run s1 evs effs s2 \<longrightarrow> effs = [] \<and> s2 = s1)"
proof -
  have "\<exists>es s1. apply_event s ev now = (Inr es, s1) \<and> is_terminal (se_state s1) \<and>
    (plaintext_allowed (se_state s) \<longrightarrow> EfWipeWorkspace \<in> set es) \<and> EfReseal \<notin> set es \<and>
    (ev \<noteq> EvFailed why \<longrightarrow> \<not> se_dirty s1)"
    using assms by (cases "se_state s") (auto simp: apply_defs)
  then show ?thesis using run_from_terminal by blast
qed

theorem session_end_is_final_witness:
  "\<exists>es s1. apply_event (session_new\<lparr>se_state := StOpen\<rparr>) EvRevoked 3 = (Inr es, s1) \<and>
     is_terminal (se_state s1) \<and> EfWipeWorkspace \<in> set es"
  using session_end_is_final [of "session_new\<lparr>se_state := StOpen\<rparr>" EvRevoked "[]" 3]
  by auto

text \<open>The plaintext a granted session has been told to materialise is not wiped when the session
  ends before the viewer is launched: in \<open>Granted\<close> the machine does not count plaintext as
  possible, so a revoke, an expiry or a failure there asks for no wipe.\<close>

theorem revoke_before_open_keeps_plaintext:
  "\<exists>evs effs s. session_run session_new evs effs s \<and> se_state s = StRevoked \<and> on_disk False effs"
proof -
  let ?r = "foldl run_step ([], session_new) [(EvGranted Edit 0 10 1, 5), (EvRevoked, 6)]"
  have "se_state (snd ?r) = StRevoked \<and> on_disk False (fst ?r)"
    by (simp add: run_step_def apply_defs session_new_def)
  then show ?thesis using run_steps by blast
qed

end
