(* ===== verification/Relay_State.thy ===== *)
theory Relay_State
  imports Proto
begin

text \<open>
  The relay's state (\<open>apps/relay/src/state.rs\<close>). Every operation of the source takes the
  mutex once, so each definition below is one atomic step; a handler that calls several of them
  may be interleaved with others between them. An \<open>Instant\<close> is a natural number of
  milliseconds and \<open>duration_since\<close>, which is zero for a later instant, is truncated
  subtraction.
\<close>

definition QUEUE_TTL :: nat where "QUEUE_TTL = 24 * 60 * 60 * 1000"
definition RATE_PER_MINUTE :: nat where "RATE_PER_MINUTE = 30"
definition RATE_PER_HOUR :: nat where "RATE_PER_HOUR = 300"

datatype inbox = IOwner bytes | IDevice bytes

record queued =
  qd_envelope :: relay_envelope
  qd_at :: nat

record device =
  dv_ed25519_pub :: bytes
  dv_x25519_pub :: bytes
  dv_label :: "bytes option"

record relay =
  rl_devices :: "bytes \<rightharpoonup> device"
  rl_queues :: "inbox \<rightharpoonup> queued list"
  rl_nonces :: "bytes \<rightharpoonup> nat"
  rl_routes :: "bytes \<rightharpoonup> bytes \<times> nat"
  rl_interests :: "bytes \<rightharpoonup> (bytes \<times> nat) list"
  rl_calls :: "bytes \<rightharpoonup> nat list"

datatype refusal = RfUnknownDevice | RfReplayed | RfRateLimited | RfUnknownRequest

definition relay_new :: relay where
  "relay_new = \<lparr>rl_devices = Map.empty, rl_queues = Map.empty, rl_nonces = Map.empty, rl_routes = Map.empty,
     rl_interests = Map.empty, rl_calls = Map.empty\<rparr>"

definition announce :: "bytes \<Rightarrow> device \<Rightarrow> relay \<Rightarrow> relay" where
  "announce kid d r = r\<lparr>rl_devices := (rl_devices r)(kid \<mapsto> d)\<rparr>"

definition relay_device :: "relay \<Rightarrow> bytes \<Rightarrow> device option" where
  "relay_device r kid = rl_devices r kid"

definition get_or_empty :: "'a list option \<Rightarrow> 'a list" where
  "get_or_empty e = (case e of None \<Rightarrow> [] | Some l \<Rightarrow> l)"

text \<open>The quota, on the list of one device's calls and on the whole state.\<close>

definition prune_calls :: "nat \<Rightarrow> nat list \<Rightarrow> nat list" where
  "prune_calls now calls = dropWhile (\<lambda>t. now - t > 3600 * 1000) calls"

definition quota_ok :: "nat \<Rightarrow> nat list \<Rightarrow> bool" where
  "quota_ok now calls \<longleftrightarrow>
     length (filter (\<lambda>t. now - t \<le> 60 * 1000) calls) < RATE_PER_MINUTE \<and> length calls < RATE_PER_HOUR"

definition take_quota :: "bytes \<Rightarrow> nat \<Rightarrow> relay \<Rightarrow> (refusal + unit) \<times> relay" where
  "take_quota kid now r =
     (let calls = prune_calls now (get_or_empty (rl_calls r kid)) in
      if \<not> quota_ok now calls then (Inl RfRateLimited, r\<lparr>rl_calls := (rl_calls r)(kid \<mapsto> calls)\<rparr>)
      else (Inr (), r\<lparr>rl_calls := (rl_calls r)(kid \<mapsto> calls @ [now])\<rparr>))"

definition map_retain :: "('v \<Rightarrow> bool) \<Rightarrow> ('k \<rightharpoonup> 'v) \<Rightarrow> ('k \<rightharpoonup> 'v)" where
  "map_retain P m = (\<lambda>k. case m k of None \<Rightarrow> None | Some v \<Rightarrow> if P v then Some v else None)"

definition take_nonce :: "bytes \<Rightarrow> nat \<Rightarrow> relay \<Rightarrow> (refusal + unit) \<times> relay" where
  "take_nonce nonce now r =
     (let nonces = map_retain (\<lambda>seen. now - seen < unat NONCE_MEMORY_SECS * 1000) (rl_nonces r) in
      if nonces nonce \<noteq> None then (Inl RfReplayed, r\<lparr>rl_nonces := nonces\<rparr>)
      else (Inr (), r\<lparr>rl_nonces := nonces(nonce \<mapsto> now)\<rparr>))"

definition remember_request :: "bytes \<Rightarrow> bytes \<Rightarrow> nat \<Rightarrow> relay \<Rightarrow> relay" where
  "remember_request request_nonce from now r = r\<lparr>rl_routes := (rl_routes r)(request_nonce \<mapsto> (from, now))\<rparr>"

definition remember_interest :: "bytes \<Rightarrow> bytes \<Rightarrow> nat \<Rightarrow> relay \<Rightarrow> relay" where
  "remember_interest fid from now r =
     (let list = filter (\<lambda>(kid, _). kid \<noteq> from) (get_or_empty (rl_interests r fid)) in
      r\<lparr>rl_interests := (rl_interests r)(fid \<mapsto> list @ [(from, now)])\<rparr>)"

definition prune_interests :: "nat \<Rightarrow> (bytes \<rightharpoonup> (bytes \<times> nat) list) \<Rightarrow> (bytes \<rightharpoonup> (bytes \<times> nat) list)" where
  "prune_interests now m =
     (\<lambda>k. case m k of None \<Rightarrow> None
        | Some l \<Rightarrow> let l' = filter (\<lambda>(_, at). now - at < QUEUE_TTL) l in if l' = [] then None else Some l')"

definition interested :: "bytes \<Rightarrow> nat \<Rightarrow> relay \<Rightarrow> bytes list \<times> relay" where
  "interested fid now r =
     (let m = prune_interests now (rl_interests r) in
      (map fst (get_or_empty (m fid)), r\<lparr>rl_interests := m\<rparr>))"

definition route_for :: "bytes \<Rightarrow> nat \<Rightarrow> relay \<Rightarrow> (refusal + bytes) \<times> relay" where
  "route_for request_nonce now r =
     (let m = map_retain (\<lambda>(_, at). now - at < QUEUE_TTL) (rl_routes r) in
      (ok_or (map_option fst (m request_nonce)) RfUnknownRequest, r\<lparr>rl_routes := m\<rparr>))"

definition enqueue :: "bytes \<Rightarrow> inbox \<Rightarrow> kind \<Rightarrow> bytes \<Rightarrow> u64 \<Rightarrow> nat \<Rightarrow> relay \<Rightarrow> bytes \<times> relay" where
  "enqueue qid ib k body queued_at_unix now r =
     (let env = \<lparr>re_id = qid, re_kind = k, re_body = body, re_queued_at = queued_at_unix\<rparr>;
          queue = dropWhile (\<lambda>q. now - qd_at q > QUEUE_TTL) (get_or_empty (rl_queues r ib))
      in (qid, r\<lparr>rl_queues := (rl_queues r)(ib \<mapsto> queue @ [\<lparr>qd_envelope = env, qd_at = now\<rparr>])\<rparr>))"

definition drain :: "inbox \<Rightarrow> nat \<Rightarrow> relay \<Rightarrow> relay_envelope list \<times> relay" where
  "drain ib now r =
     (case rl_queues r ib of
        Some queue \<Rightarrow> (map qd_envelope (filter (\<lambda>q. now - qd_at q \<le> QUEUE_TTL) queue),
                       r\<lparr>rl_queues := (rl_queues r)(ib \<mapsto> [])\<rparr>)
      | None \<Rightarrow> ([], r))"

definition queued_count :: "inbox \<Rightarrow> relay \<Rightarrow> nat" where
  "queued_count ib r = length (get_or_empty (rl_queues r ib))"

subsection \<open>Devices\<close>

interpretation devices: keyed_store announce relay_device
  by unfold_locales (simp_all add: announce_def relay_device_def)

subsection \<open>The mailbox interface\<close>

text \<open>
  What a sender and a reader may rely on. \<open>alive t s i\<close> is what would be delivered from inbox
  \<open>i\<close> at time \<open>t\<close>; \<open>ttl\<close> is how long a message waits.
\<close>

locale mailbox =
  fixes alive :: "nat \<Rightarrow> 's \<Rightarrow> 'i \<Rightarrow> 'm list"
    and post :: "nat \<Rightarrow> 'i \<Rightarrow> 'm \<Rightarrow> 's \<Rightarrow> 's"
    and take_all :: "nat \<Rightarrow> 'i \<Rightarrow> 's \<Rightarrow> 'm list \<times> 's"
    and ttl :: nat
  assumes alive_post: "t \<le> t' \<Longrightarrow> t' \<le> t + ttl \<Longrightarrow> alive t' (post t i m s) i = alive t' s i @ [m]"
    and alive_post_other: "j \<noteq> i \<Longrightarrow> alive t' (post t i m s) j = alive t' s j"
    and take_all_alive: "fst (take_all t i s) = alive t s i"
    and alive_taken: "alive t' (snd (take_all t i s)) i = []"
    and alive_taken_other: "j \<noteq> i \<Longrightarrow> alive t' (snd (take_all t i s)) j = alive t' s j"
begin

text \<open>Messages posted in any order into any inboxes, then one inbox read.\<close>

fun post_all :: "(nat \<times> 'i \<times> 'm) list \<Rightarrow> 's \<Rightarrow> 's" where
  "post_all [] s = s"
| "post_all ((t, i, m) # ps) s = post_all ps (post t i m s)"

lemma alive_post_all:
  assumes "\<forall>(t, i, m) \<in> set ps. t \<le> t' \<and> t' \<le> t + ttl"
  shows "alive t' (post_all ps s) j = alive t' s j @ map (\<lambda>(t, i, m). m) (filter (\<lambda>(t, i, m). i = j) ps)"
  using assms
proof (induction ps arbitrary: s)
  case Nil
  then show ?case by simp
next
  case (Cons p ps)
  obtain t i m where p: "p = (t, i, m)" by (cases p)
  have "alive t' (post t i m s) j = alive t' s j @ (if i = j then [m] else [])"
    using Cons.prems p by (auto simp: alive_post alive_post_other)
  then show ?case using Cons p by auto
qed

text \<open>Each message reaches its own inbox once, in order, and a second read finds nothing.\<close>

lemma delivered_once:
  assumes "\<forall>(t, i, m) \<in> set ps. t \<le> now \<and> now \<le> t + ttl" and "alive now s j = []"
  shows "fst (take_all now j (post_all ps s)) = map (\<lambda>(t, i, m). m) (filter (\<lambda>(t, i, m). i = j) ps)"
    and "fst (take_all later j (snd (take_all now j (post_all ps s)))) = []"
  using alive_post_all [OF assms(1)] assms(2) by (simp_all add: take_all_alive alive_taken)

end

definition alive :: "nat \<Rightarrow> relay \<Rightarrow> inbox \<Rightarrow> relay_envelope list" where
  "alive now r ib = map qd_envelope (filter (\<lambda>q. now - qd_at q \<le> QUEUE_TTL) (get_or_empty (rl_queues r ib)))"

definition post :: "nat \<Rightarrow> inbox \<Rightarrow> bytes \<times> kind \<times> bytes \<times> u64 \<Rightarrow> relay \<Rightarrow> relay" where
  "post now ib m r = (case m of (qid, k, body, unix) \<Rightarrow> snd (enqueue qid ib k body unix now r))"

definition msg_of :: "relay_envelope \<Rightarrow> bytes \<times> kind \<times> bytes \<times> u64" where
  "msg_of e = (re_id e, re_kind e, re_body e, re_queued_at e)"

lemma filter_dropWhile_expired:
  assumes "t \<le> t'"
  shows "filter (\<lambda>q. t' - qd_at q \<le> QUEUE_TTL) (dropWhile (\<lambda>q. t - qd_at q > QUEUE_TTL) qs) =
         filter (\<lambda>q. t' - qd_at q \<le> QUEUE_TTL) qs"
  using assms by (induction qs) auto

interpretation relay_box: mailbox "\<lambda>t s i. map msg_of (alive t s i)" post
  "\<lambda>t i s. (map msg_of (fst (drain i t s)), snd (drain i t s))" QUEUE_TTL
proof unfold_locales
  fix t t' :: nat and i j :: inbox and m :: "bytes \<times> kind \<times> bytes \<times> u64" and s :: relay
  obtain qid k body unix where m: "m = (qid, k, body, unix)" by (cases m)
  show "map msg_of (alive t' (post t i m s) i) = map msg_of (alive t' s i) @ [m]"
    if "t \<le> t'" "t' \<le> t + QUEUE_TTL"
  proof -
    have "t' - t \<le> QUEUE_TTL" using that by simp
    then show ?thesis
      by (simp add: alive_def post_def m enqueue_def Let_def msg_of_def filter_dropWhile_expired [OF that(1)]
          get_or_empty_def [of "Some _"])
  qed
  show "map msg_of (alive t' (post t i m s) j) = map msg_of (alive t' s j)" if "j \<noteq> i"
    using that by (simp add: alive_def post_def m enqueue_def Let_def)
  show "fst (map msg_of (fst (drain i t s)), snd (drain i t s)) = map msg_of (alive t s i)"
    by (simp add: alive_def drain_def get_or_empty_def split: option.split)
  show "map msg_of (alive t' (snd (map msg_of (fst (drain i t s)), snd (drain i t s))) i) = []"
    by (simp add: alive_def drain_def get_or_empty_def split: option.split)
  show "map msg_of (alive t' (snd (map msg_of (fst (drain i t s)), snd (drain i t s))) j) = map msg_of (alive t' s j)"
    if "j \<noteq> i" using that by (simp add: alive_def drain_def split: option.split)
qed

subsection \<open>Replay protection\<close>

lemma map_retain_Some [simp]: "map_retain P m k = Some v \<longleftrightarrow> m k = Some v \<and> P v"
  by (auto simp: map_retain_def split: option.splits)

lemma map_retain_None: "map_retain P m k = None \<longleftrightarrow> (\<forall>v. m k = Some v \<longrightarrow> \<not> P v)"
  by (auto simp: map_retain_def split: option.splits)

lemma take_nonce_accept:
  assumes "take_nonce n now r = (Inr u, r')"
  shows "rl_nonces r' = (map_retain (\<lambda>seen. now - seen < 300000) (rl_nonces r))(n \<mapsto> now)"
    and "rl_nonces r n = Some seen \<Longrightarrow> 300000 \<le> now - seen"
  using assms by (auto simp: take_nonce_def Let_def NONCE_MEMORY_SECS_def map_retain_None split: if_splits)

lemma take_nonce_refuse:
  assumes "take_nonce n now r = (Inl e, r')"
  shows "rl_nonces r' = map_retain (\<lambda>seen. now - seen < 300000) (rl_nonces r)" and "e = RfReplayed"
  using assms by (auto simp: take_nonce_def Let_def NONCE_MEMORY_SECS_def split: if_splits)

text \<open>
  The nonce table under any interleaving: \<open>take_nonce\<close> calls with non-decreasing instants,
  everything else the relay does in between leaving the table alone. The list is the accepted
  calls, the number the latest instant.
\<close>

inductive nonce_run :: "relay \<Rightarrow> (bytes \<times> nat) list \<Rightarrow> nat \<Rightarrow> relay \<Rightarrow> bool" where
  nr_start: "nonce_run r [] 0 r"
| nr_accept: "nonce_run r acc hi r1 \<Longrightarrow> hi \<le> now \<Longrightarrow> take_nonce n now r1 = (Inr u, r2) \<Longrightarrow>
              nonce_run r (acc @ [(n, now)]) now r2"
| nr_refuse: "nonce_run r acc hi r1 \<Longrightarrow> hi \<le> now \<Longrightarrow> take_nonce n now r1 = (Inl e, r2) \<Longrightarrow> nonce_run r acc now r2"
| nr_other: "nonce_run r acc hi r1 \<Longrightarrow> rl_nonces r2 = rl_nonces r1 \<Longrightarrow> nonce_run r acc hi r2"

text \<open>What the table knows: every acceptance that cannot have expired yet is still in it.\<close>

definition remembered :: "(bytes \<times> nat) list \<Rightarrow> nat \<Rightarrow> relay \<Rightarrow> bool" where
  "remembered acc hi r \<longleftrightarrow>
     (\<forall>(n, t) \<in> set acc. t \<le> hi \<and> (hi - t < 300000 \<longrightarrow> (\<exists>t'. rl_nonces r n = Some t' \<and> t \<le> t')))"

lemma rememberedD:
  "remembered acc hi r \<Longrightarrow> (n, t) \<in> set acc \<Longrightarrow> hi - t < 300000 \<Longrightarrow> \<exists>t'. rl_nonces r n = Some t' \<and> t \<le> t'"
  "remembered acc hi r \<Longrightarrow> (n, t) \<in> set acc \<Longrightarrow> t \<le> hi"
  unfolding remembered_def by blast+

lemma nonce_run_remembered: "nonce_run r acc hi r' \<Longrightarrow> remembered acc hi r'"
proof (induction rule: nonce_run.induct)
  case (nr_start r)
  then show ?case by (simp add: remembered_def)
next
  case (nr_accept r acc hi r1 now n u r2)
  have "t \<le> now \<and> (now - t < 300000 \<longrightarrow> (\<exists>t'. rl_nonces r2 m = Some t' \<and> t \<le> t'))"
    if mem: "(m, t) \<in> set (acc @ [(n, now)])" for m t
  proof (cases "(m, t) \<in> set acc")
    case True
    note le = rememberedD(2) [OF nr_accept.IH True]
    show ?thesis
    proof (intro conjI impI)
      show "t \<le> now" using le nr_accept.hyps by simp
      assume lt: "now - t < 300000"
      obtain t' where t': "rl_nonces r1 m = Some t'" "t \<le> t'"
        using rememberedD(1) [OF nr_accept.IH True] lt nr_accept.hyps by force
      show "\<exists>t'. rl_nonces r2 m = Some t' \<and> t \<le> t'"
        using t' lt le nr_accept.hyps by (auto simp: take_nonce_accept(1) [OF nr_accept.hyps(3)])
    qed
  next
    case False
    then show ?thesis using mem by (auto simp: take_nonce_accept(1) [OF nr_accept.hyps(3)])
  qed
  then show ?case unfolding remembered_def by blast
next
  case (nr_refuse r acc hi r1 now n e r2)
  have "t \<le> now \<and> (now - t < 300000 \<longrightarrow> (\<exists>t'. rl_nonces r2 m = Some t' \<and> t \<le> t'))"
    if mem: "(m, t) \<in> set acc" for m t
  proof (intro conjI impI)
    note le = rememberedD(2) [OF nr_refuse.IH mem]
    show "t \<le> now" using le nr_refuse.hyps by simp
    assume lt: "now - t < 300000"
    obtain t' where t': "rl_nonces r1 m = Some t'" "t \<le> t'"
      using rememberedD(1) [OF nr_refuse.IH mem] lt nr_refuse.hyps by force
    show "\<exists>t'. rl_nonces r2 m = Some t' \<and> t \<le> t'"
      using t' lt by (auto simp: take_nonce_refuse(1) [OF nr_refuse.hyps(3)])
  qed
  then show ?case unfolding remembered_def by blast
next
  case (nr_other r acc hi r1 r2)
  then show ?case by (simp add: remembered_def)
qed

lemma nonce_run_spaced:
  "nonce_run r acc hi r' \<Longrightarrow> acc = xs @ [(n, t)] @ ys @ [(n, t')] @ zs \<Longrightarrow> t + 300000 \<le> t'"
proof (induction arbitrary: xs ys zs t t' rule: nonce_run.induct)
  case (nr_accept r acc hi r1 now m u r2)
  show ?case
  proof (cases zs rule: rev_cases)
    case Nil
    then have acc: "acc = xs @ [(n, t)] @ ys" "m = n" "t' = now" using nr_accept.prems by auto
    have mem: "(n, t) \<in> set acc" using acc by simp
    note rem = nonce_run_remembered [OF nr_accept.hyps(1)]
    show ?thesis
    proof (rule ccontr)
      assume "\<not> t + 300000 \<le> t'"
      then have "now - t < 300000" "hi - t < 300000" using acc nr_accept.hyps(2) by auto
      then obtain s where s: "rl_nonces r1 n = Some s" "t \<le> s" using rememberedD(1) [OF rem mem] by blast
      then have "300000 \<le> now - s" using take_nonce_accept(2) [OF nr_accept.hyps(3)] acc by simp
      then show False using s \<open>now - t < 300000\<close> by simp
    qed
  next
    case (snoc zs' z)
    then show ?thesis using nr_accept.prems nr_accept.IH [of xs t ys t' zs'] by simp
  qed
qed auto

subsection \<open>The quota\<close>

text \<open>One device's calls over time: the accepted ones, from what the relay remembers of the past.\<close>

fun quota_run :: "nat list \<Rightarrow> nat list \<Rightarrow> nat list" where
  "quota_run calls [] = []"
| "quota_run calls (now # ts) =
     (let calls' = prune_calls now calls in
      if quota_ok now calls' then now # quota_run (calls' @ [now]) ts else quota_run calls' ts)"

fun accepted_calls :: "bytes \<Rightarrow> relay \<Rightarrow> (bytes \<times> nat) list \<Rightarrow> nat list" where
  "accepted_calls kid r [] = []"
| "accepted_calls kid r ((k, now) # cs) =
     (let (res, r') = take_quota k now r in
      (if k = kid \<and> is_ok res then [now] else []) @ accepted_calls kid r' cs)"

lemma accepted_calls_eq:
  "accepted_calls kid r cs = quota_run (get_or_empty (rl_calls r kid)) (map snd (filter (\<lambda>c. fst c = kid) cs))"
proof (induction cs arbitrary: r)
  case Nil
  then show ?case by simp
next
  case (Cons c cs)
  obtain k now where c: "c = (k, now)" by (cases c)
  show ?case
    by (simp add: c take_quota_def Let_def Cons.IH get_or_empty_def [of "Some _"])
qed

fun windows_ok :: "nat list \<Rightarrow> nat list \<Rightarrow> bool" where
  "windows_ok hist [] = True"
| "windows_ok hist (a # as) =
     (length (filter (\<lambda>t. a - t \<le> 60000) hist) < 30 \<and> length (filter (\<lambda>t. a - t \<le> 3600000) hist) < 300 \<and>
      windows_ok (hist @ [a]) as)"

lemma quota_run_windows:
  assumes "sorted ts" and "\<forall>d \<in> set dropped. \<forall>t \<in> set ts. 3600000 < t - d"
  shows "windows_ok (dropped @ calls) (quota_run calls ts)"
  using assms
proof (induction ts arbitrary: dropped calls)
  case Nil
  then show ?case by simp
next
  case (Cons now ts)
  define stale where "stale = takeWhile (\<lambda>t. now - t > 3600 * 1000) calls"
  define kept where "kept = prune_calls now calls"
  have hist: "dropped @ calls = (dropped @ stale) @ kept" by (simp add: stale_def kept_def prune_calls_def)
  have old: "3600000 < now - d" if "d \<in> set (dropped @ stale)" for d
    using that Cons.prems(2) by (auto simp: stale_def dest: set_takeWhileD)
  have later: "\<forall>d \<in> set (dropped @ stale). \<forall>t \<in> set ts. 3600000 < t - d"
    using old Cons.prems(1) by (fastforce intro: less_le_trans diff_le_mono)
  have none: "filter (\<lambda>t. now - t \<le> 60000) (dropped @ stale) = []" "filter (\<lambda>t. now - t \<le> 3600000) (dropped @ stale) = []"
    using old by (force simp: filter_empty_conv)+
  show ?case
  proof (cases "quota_ok now kept")
    case True
    have "length (filter (\<lambda>t. now - t \<le> 60000) ((dropped @ stale) @ kept)) < 30"
      using True none(1) by (simp add: quota_ok_def RATE_PER_MINUTE_def)
    moreover have "length (filter (\<lambda>t. now - t \<le> 3600000) ((dropped @ stale) @ kept)) < 300"
      using True none(2) by (simp add: quota_ok_def RATE_PER_HOUR_def)
        (meson le_less_trans length_filter_le)
    moreover have "windows_ok ((dropped @ stale) @ kept @ [now]) (quota_run (kept @ [now]) ts)"
      using Cons.IH [OF _ later] Cons.prems(1) by simp
    ultimately show ?thesis unfolding quota_run.simps Let_def kept_def [symmetric] hist using True by simp
  next
    case False
    then show ?thesis unfolding quota_run.simps Let_def kept_def [symmetric] hist
      using Cons.IH [OF _ later, of kept] Cons.prems(1) by simp
  qed
qed

lemma windows_ok_nth:
  assumes "windows_ok hist as" and "k < length as"
  shows "length (filter (\<lambda>t. as ! k - t \<le> 60000) (hist @ take k as)) < 30 \<and>
         length (filter (\<lambda>t. as ! k - t \<le> 3600000) (hist @ take k as)) < 300"
  using assms
proof (induction as arbitrary: hist k)
  case Nil
  then show ?case by simp
next
  case (Cons a as)
  then show ?case using Cons.IH [of "hist @ [a]"] by (cases k) auto
qed

end
