(* ===== verification/Relay_Routes.thy ===== *)
theory Relay_Routes
  imports Relay_State
begin

text \<open>
  The relay's HTTP handlers (\<open>apps/relay/src/routes.rs\<close>). A handler takes the clocks it
  reads (wall clock in seconds, monotonic instant in milliseconds), the random queue ids it would
  draw, the request body and the state, and returns the response and the new state. The CBOR of a
  response is the third-party encoding of the value given here; the \<open>hex\<close> crate is a
  parameter.
\<close>

record relay_lib = proto_lib +
  hex_encode :: "bytes \<Rightarrow> string"
  hex_decode :: "string \<Rightarrow> bytes option"

record clock =
  ck_unix :: u64
  ck_inst :: nat

datatype response = RAck nat ack | REnvelopes nat "relay_envelope list"

definition refuse :: "error_code \<Rightarrow> response" where
  "refuse code = RAck (http_status code) \<lparr>ak_ok = False, ak_id = None, ak_error = Some code\<rparr>"

definition accept :: "bytes \<Rightarrow> response" where
  "accept qid = RAck 200 \<lparr>ak_ok = True, ak_id = Some qid, ak_error = None\<rparr>"

fun refusal_code :: "refusal \<Rightarrow> error_code" where
  "refusal_code RfUnknownDevice = UnknownDevice"
| "refusal_code RfReplayed = Replayed"
| "refusal_code RfRateLimited = RateLimited"
| "refusal_code RfUnknownRequest = NotFound"

definition authenticate ::
  "'x proto_lib_scheme \<Rightarrow> 't message \<Rightarrow> clock \<Rightarrow> bytes \<Rightarrow> relay \<Rightarrow> (error_code + (signed \<times> 't)) \<times> relay" where
  "authenticate X T c body r =
     (if length body > MAX_BODY_LEN then (Inl TooLargeCode, r)
      else case map_err proto_code (signed_from_bytes X body) of
        Inl e \<Rightarrow> (Inl e, r)
      | Inr sgd \<Rightarrow>
          (case relay_device r (sg_kid sgd) of
             None \<Rightarrow> (Inl UnknownDevice, r)
           | Some dev \<Rightarrow>
               (case map_err proto_code (signed_verify X T sgd (dv_ed25519_pub dev) (ck_unix c)) of
                  Inl e \<Rightarrow> (Inl e, r)
                | Inr (payload, nonce) \<Rightarrow>
                    (case take_quota (sg_kid sgd) (ck_inst c) r of
                       (Inl e, r1) \<Rightarrow> (Inl (refusal_code e), r1)
                     | (Inr _, r1) \<Rightarrow>
                         (case take_nonce nonce (ck_inst c) r1 of
                            (Inl e, r2) \<Rightarrow> (Inl (refusal_code e), r2)
                          | (Inr _, r2) \<Rightarrow> (Inr (sgd, payload), r2))))))"

definition health :: response where
  "health = RAck 200 \<lparr>ak_ok = True, ak_id = None, ak_error = None\<rparr>"

definition devices :: "'x proto_lib_scheme \<Rightarrow> clock \<Rightarrow> bytes \<Rightarrow> relay \<Rightarrow> response \<times> relay" where
  "devices X c body r =
     (if length body > MAX_BODY_LEN then (refuse TooLargeCode, r)
      else case signed_from_bytes X body of
        Inl _ \<Rightarrow> (refuse MalformedCode, r)
      | Inr sgd \<Rightarrow>
          (case msg_dec (DeviceAnnounce X) (sg_payload sgd) of
             None \<Rightarrow> (refuse MalformedCode, r)
           | Some peek \<Rightarrow>
               (case signed_verify X (DeviceAnnounce X) sgd (da_ed25519_pub peek) (ck_unix c) of
                  Inl _ \<Rightarrow> (refuse Unauthenticated, r)
                | Inr (ann, nonce) \<Rightarrow>
                    if kid_of X (da_ed25519_pub ann) \<noteq> sg_kid sgd then (refuse Unauthenticated, r)
                    else if (case da_label ann of Some l \<Rightarrow> length l > 32 | None \<Rightarrow> False) then (refuse MalformedCode, r)
                    else case take_quota (sg_kid sgd) (ck_inst c) r of
                      (Inl e, r1) \<Rightarrow> (refuse (refusal_code e), r1)
                    | (Inr _, r1) \<Rightarrow>
                        (case take_nonce nonce (ck_inst c) r1 of
                           (Inl e, r2) \<Rightarrow> (refuse (refusal_code e), r2)
                         | (Inr _, r2) \<Rightarrow>
                             (accept (sg_kid sgd),
                              announce (sg_kid sgd)
                                \<lparr>dv_ed25519_pub = da_ed25519_pub ann, dv_x25519_pub = da_x25519_pub ann,
                                 dv_label = da_label ann\<rparr> r2)))))"

definition requests :: "'x proto_lib_scheme \<Rightarrow> clock \<Rightarrow> bytes \<Rightarrow> bytes \<Rightarrow> relay \<Rightarrow> response \<times> relay" where
  "requests X c qid body r =
     (case authenticate X (AccessRequest X) c body r of
        (Inl code, r1) \<Rightarrow> (refuse code, r1)
      | (Inr (sgd, req), r1) \<Rightarrow>
          if ar_device_kid req \<noteq> sg_kid sgd \<or> kid_of X (ar_ed25519_pub req) \<noteq> sg_kid sgd
          then (refuse Unauthenticated, r1)
          else if ar_owner req = [] \<or> length (ar_owner req) > 64 then (refuse MalformedCode, r1)
          else
            let r2 = remember_request (ar_nonce req) (sg_kid sgd) (ck_inst c) r1;
                r3 = remember_interest (ar_fid req) (sg_kid sgd) (ck_inst c) r2;
                (i, r4) = enqueue qid (IOwner (ar_owner req)) KReq body (ck_unix c) (ck_inst c) r3
            in (accept i, r4))"

definition grants :: "'x proto_lib_scheme \<Rightarrow> clock \<Rightarrow> bytes \<Rightarrow> bytes \<Rightarrow> relay \<Rightarrow> response \<times> relay" where
  "grants X c qid body r =
     (case authenticate X (GrantMsg X) c body r of
        (Inl code, r1) \<Rightarrow> (refuse code, r1)
      | (Inr (sgd, grant), r1) \<Rightarrow>
          (case route_for (gm_request_nonce grant) (ck_inst c) r1 of
             (Inl e, r2) \<Rightarrow> (refuse (refusal_code e), r2)
           | (Inr kid, r2) \<Rightarrow>
               let (i, r3) = enqueue qid (IDevice kid) KGrant body (ck_unix c) (ck_inst c) r2
               in (accept i, r3)))"

definition versions :: "'x proto_lib_scheme \<Rightarrow> clock \<Rightarrow> bytes \<Rightarrow> bytes \<Rightarrow> relay \<Rightarrow> response \<times> relay" where
  "versions X c qid body r =
     (case authenticate X (VersionMsg X) c body r of
        (Inl code, r1) \<Rightarrow> (refuse code, r1)
      | (Inr (sgd, version), r1) \<Rightarrow>
          if kid_of X (vm_ed25519_pub version) \<noteq> sg_kid sgd then (refuse Unauthenticated, r1)
          else if vm_owner version = [] \<or> length (vm_owner version) > 64 then (refuse MalformedCode, r1)
          else let (i, r2) = enqueue qid (IOwner (vm_owner version)) KVersion body (ck_unix c) (ck_inst c) r1
               in (accept i, r2))"

fun enqueue_all ::
  "(nat \<Rightarrow> bytes) \<Rightarrow> nat \<Rightarrow> bytes list \<Rightarrow> bytes \<Rightarrow> clock \<Rightarrow> bytes \<Rightarrow> relay \<Rightarrow> bytes \<times> relay" where
  "enqueue_all qids n [] body c qid r = (qid, r)"
| "enqueue_all qids n (kid # kids) body c qid r =
     (let (i, r') = enqueue (qids n) (IDevice kid) KRevoke body (ck_unix c) (ck_inst c) r
      in enqueue_all qids (Suc n) kids body c i r')"

definition revocations ::
  "'x proto_lib_scheme \<Rightarrow> clock \<Rightarrow> (nat \<Rightarrow> bytes) \<Rightarrow> bytes \<Rightarrow> relay \<Rightarrow> response \<times> relay" where
  "revocations X c qids body r =
     (case authenticate X (RevokeMsg X) c body r of
        (Inl code, r1) \<Rightarrow> (refuse code, r1)
      | (Inr (sgd, rvk), r1) \<Rightarrow>
          let (kids, r2) = interested (rv_fid rvk) (ck_inst c) r1;
              (i, r3) = enqueue_all qids 0 kids body c (replicate 16 0) r2
          in (accept i, r3))"

record inbox_query =
  iq_owner :: "string option"
  iq_device :: "string option"

definition inbox_target :: "'x relay_lib_scheme \<Rightarrow> inbox_query \<Rightarrow> inbox option" where
  "inbox_target X q =
     (case (iq_owner q, iq_device q) of
        (Some owner, None) \<Rightarrow>
          (case hex_decode X owner of
             Some bs \<Rightarrow> if bs \<noteq> [] \<and> length bs \<le> 64 then Some (IOwner bs) else None
           | None \<Rightarrow> None)
      | (None, Some dev) \<Rightarrow>
          (case hex_decode X dev of
             Some bs \<Rightarrow> if length bs = 16 then Some (IDevice bs) else None
           | None \<Rightarrow> None)
      | _ \<Rightarrow> None)"

definition get_inbox :: "'x relay_lib_scheme \<Rightarrow> clock \<Rightarrow> inbox_query \<Rightarrow> relay \<Rightarrow> response \<times> relay" where
  "get_inbox X c q r =
     (case inbox_target X q of
        None \<Rightarrow> (refuse MalformedCode, r)
      | Some t \<Rightarrow> let (es, r') = drain t (ck_inst c) r in (REnvelopes 200 es, r'))"

text \<open>
  The live stream accepts the same queries, without the length limit on the owner, and then pumps:
  each tick drains the inbox and sends what it got. \<open>ticks\<close> gives, per tick, the clock and how
  many sends succeed before the client is gone (\<open>None\<close>: all of them); the result is what was
  sent.
\<close>

definition stream_target :: "'x relay_lib_scheme \<Rightarrow> inbox_query \<Rightarrow> inbox option" where
  "stream_target X q =
     (case (iq_owner q, iq_device q) of
        (Some owner, None) \<Rightarrow>
          (case hex_decode X owner of Some bs \<Rightarrow> if bs \<noteq> [] then Some (IOwner bs) else None | None \<Rightarrow> None)
      | (None, Some dev) \<Rightarrow>
          (case hex_decode X dev of Some bs \<Rightarrow> if length bs = 16 then Some (IDevice bs) else None | None \<Rightarrow> None)
      | _ \<Rightarrow> None)"

fun pump :: "inbox \<Rightarrow> (nat \<times> nat option) list \<Rightarrow> relay \<Rightarrow> relay_envelope list \<times> relay" where
  "pump target [] r = ([], r)"
| "pump target ((now, sends) # ticks) r =
     (let (es, r') = drain target now r in
      case sends of
        Some n \<Rightarrow> (take n es, r')
      | None \<Rightarrow> let (more, r2) = pump target ticks r' in (es @ more, r2))"

subsection \<open>Authentication\<close>

lemma authenticate_Inr:
  assumes "authenticate X T c body r = (Inr (s, p), r')"
  obtains dev r1 u v where "relay_device r (sg_kid s) = Some dev" "signed_from_bytes X body = Inr s"
    "signed_verify X T s (dv_ed25519_pub dev) (ck_unix c) = Inr (p, sg_nonce s)"
    "take_quota (sg_kid s) (ck_inst c) r = (Inr u, r1)" "take_nonce (sg_nonce s) (ck_inst c) r1 = (Inr v, r')"
proof -
  from assms obtain dev n r1 u v where *: "relay_device r (sg_kid s) = Some dev" "signed_from_bytes X body = Inr s"
    "signed_verify X T s (dv_ed25519_pub dev) (ck_unix c) = Inr (p, n)"
    "take_quota (sg_kid s) (ck_inst c) r = (Inr u, r1)" "take_nonce n (ck_inst c) r1 = (Inr v, r')"
    by (auto simp: authenticate_def map_err_eq_Inr split: if_splits sum.splits option.splits prod.splits)
  moreover have "n = sg_nonce s" using *(3) by (simp add: signed_verify_Inr)
  ultimately show ?thesis using that by blast
qed

lemma take_quota_keeps:
  "take_quota kid now r = (res, r') \<Longrightarrow> rl_devices r' = rl_devices r \<and> rl_queues r' = rl_queues r \<and>
     rl_nonces r' = rl_nonces r \<and> rl_routes r' = rl_routes r \<and> rl_interests r' = rl_interests r"
  by (auto simp: take_quota_def Let_def split: if_splits)

lemma take_nonce_keeps:
  "take_nonce n now r = (res, r') \<Longrightarrow> rl_devices r' = rl_devices r \<and> rl_queues r' = rl_queues r \<and>
     rl_calls r' = rl_calls r \<and> rl_routes r' = rl_routes r \<and> rl_interests r' = rl_interests r"
  by (auto simp: take_nonce_def Let_def split: if_splits)

lemma authenticate_keeps:
  assumes "authenticate X T c body r = (res, r')"
  shows "rl_devices r' = rl_devices r \<and> rl_queues r' = rl_queues r \<and> rl_routes r' = rl_routes r \<and>
     rl_interests r' = rl_interests r"
  using assms
  by (auto simp: authenticate_def split: if_splits sum.splits option.splits prod.splits
      dest!: take_quota_keeps take_nonce_keeps)

lemma authenticate_refuses_replay:
  assumes "nonce_run r0 acc hi r" and "(sg_nonce s, t) \<in> set acc" and "hi \<le> ck_inst c"
    and "abs_diff u (sg_ts s) \<le> MAX_SKEW_SECS" and "u \<le> ck_unix c"
    and "ck_inst c < t + 1000 * (unat (ck_unix c) - unat u) + 60000"
  shows "fst (authenticate X T c body r) \<noteq> Inr (s, p)"
proof
  assume "fst (authenticate X T c body r) = Inr (s, p)"
  then obtain r' where "authenticate X T c body r = (Inr (s, p), r')" by (metis prod.collapse)
  then obtain dev :: device and r1 q v where ver: "signed_verify X T s (dv_ed25519_pub dev) (ck_unix c) = Inr (p, sg_nonce s)"
    and tq: "take_quota (sg_kid s) (ck_inst c) r = (Inr q, r1)"
    and tn: "take_nonce (sg_nonce s) (ck_inst c) r1 = (Inr v, r')"
    by (elim authenticate_Inr) blast
  have "abs_diff (ck_unix c) (sg_ts s) \<le> MAX_SKEW_SECS" using ver by (simp add: signed_verify_Inr)
  then have "unat (ck_unix c) - unat u \<le> 240"
    using assms(4) by (auto simp: word_le_nat_alt unat_abs_diff MAX_SKEW_SECS_def split: if_splits)
  then have near: "ck_inst c < t + 300000" using assms(6) by linarith
  have "nonce_run r0 acc hi r1" using assms(1) take_quota_keeps [OF tq] by (blast intro: nr_other)
  then have run: "nonce_run r0 (acc @ [(sg_nonce s, ck_inst c)]) (ck_inst c) r'"
    using assms(3) tn by (rule nr_accept)
  obtain xs ys where "acc = xs @ [(sg_nonce s, t)] @ ys" using split_list [OF assms(2)] by auto
  then have "t + 300000 \<le> ck_inst c"
    using nonce_run_spaced [OF run, of xs "sg_nonce s" t ys "ck_inst c" "[]"] by simp
  then show False using near by simp
qed

subsection \<open>What the handlers put in the inboxes\<close>

lemma enqueue_queues:
  "rl_queues (snd (enqueue qid ib k body unix now r)) =
     (rl_queues r)(ib \<mapsto> dropWhile (\<lambda>q. now - qd_at q > QUEUE_TTL) (get_or_empty (rl_queues r ib)) @
        [\<lparr>qd_envelope = \<lparr>re_id = qid, re_kind = k, re_body = body, re_queued_at = unix\<rparr>, qd_at = now\<rparr>])"
  by (simp add: enqueue_def Let_def)

lemma alive_enqueue:
  assumes "t \<le> t'" and "t' \<le> t + QUEUE_TTL"
  shows "alive t' (snd (enqueue qid ib k body unix t r)) j =
    alive t' r j @ (if j = ib then [\<lparr>re_id = qid, re_kind = k, re_body = body, re_queued_at = unix\<rparr>] else [])"
  using assms by (auto simp: alive_def enqueue_queues get_or_empty_def [of "Some _"] filter_dropWhile_expired [OF assms(1)])

lemma alive_cong: "rl_queues r' = rl_queues r \<Longrightarrow> alive t r' j = alive t r j"
  by (simp add: alive_def)

lemma enqueue_all_alive:
  assumes "ck_inst c \<le> t'" and "t' \<le> ck_inst c + QUEUE_TTL" and "distinct kids"
  shows "map re_body (alive t' (snd (enqueue_all qids n kids body c q r)) j) =
    map re_body (alive t' r j) @ (if j \<in> IDevice ` set kids then [body] else [])"
  using assms(3)
proof (induction kids arbitrary: n q r)
  case Nil
  then show ?case by simp
next
  case (Cons kid kids)
  let ?r = "snd (enqueue (qids n) (IDevice kid) KRevoke body (ck_unix c) (ck_inst c) r)"
  have "snd (enqueue_all qids n (kid # kids) body c q r) =
      snd (enqueue_all qids (Suc n) kids body c (fst (enqueue (qids n) (IDevice kid) KRevoke body (ck_unix c) (ck_inst c) r)) ?r)"
    by (simp add: case_prod_beta)
  then show ?case
    using Cons.IH [of "Suc n" _ ?r] Cons.prems by (auto simp: alive_enqueue [OF assms(1,2)])
qed

text \<open>The interest list names each device once.\<close>

definition interests_distinct :: "relay \<Rightarrow> bool" where
  "interests_distinct r \<longleftrightarrow> (\<forall>fid l. rl_interests r fid = Some l \<longrightarrow> distinct (map fst l))"

lemma interests_distinctD: "interests_distinct r \<Longrightarrow> distinct (map fst (get_or_empty (rl_interests r fid)))"
  by (cases "rl_interests r fid") (auto simp: interests_distinct_def get_or_empty_def)

lemma remember_interest_distinct:
  assumes "interests_distinct r"
  shows "interests_distinct (remember_interest fid from now r)"
proof -
  have "distinct (map fst (filter P l))" if "distinct (map fst l)" for P and l :: "(bytes \<times> nat) list"
    using that by (simp add: distinct_map_filter)
  then show ?thesis
    using assms interests_distinctD [OF assms, of fid]
    by (auto simp: interests_distinct_def remember_interest_def Let_def)
qed

lemma interested_distinct:
  assumes "interests_distinct r"
  shows "distinct (fst (interested fid now r))"
  using assms interests_distinctD [OF assms, of fid]
  by (auto simp: interested_def Let_def prune_interests_def get_or_empty_def distinct_map_filter
      split: option.split)

text \<open>Accepted submissions, inverted.\<close>

lemma accept_neq_refuse [simp]: "accept i \<noteq> refuse e" "refuse e \<noteq> accept i"
  by (simp_all add: accept_def refuse_def)

lemma accept_inj [simp]: "accept i = accept j \<longleftrightarrow> i = j"
  by (simp add: accept_def)

lemma requests_accepted:
  assumes "requests X c qid body r = (accept i, r')"
  obtains s req r1 where "authenticate X (AccessRequest X) c body r = (Inr (s, req), r1)"
    "ar_device_kid req = sg_kid s" "kid_of X (ar_ed25519_pub req) = sg_kid s" "i = qid"
    "r' = snd (enqueue qid (IOwner (ar_owner req)) KReq body (ck_unix c) (ck_inst c)
       (remember_interest (ar_fid req) (sg_kid s) (ck_inst c) (remember_request (ar_nonce req) (sg_kid s) (ck_inst c) r1)))"
  using assms
  by (auto simp: requests_def enqueue_def Let_def split: prod.splits sum.splits if_splits)

lemma grants_accepted:
  assumes "grants X c qid body r = (accept i, r')"
  obtains s g r1 kid r2 where "authenticate X (GrantMsg X) c body r = (Inr (s, g), r1)"
    "route_for (gm_request_nonce g) (ck_inst c) r1 = (Inr kid, r2)"
    "r' = snd (enqueue qid (IDevice kid) KGrant body (ck_unix c) (ck_inst c) r2)"
  using assms
  by (auto simp: grants_def enqueue_def Let_def split: prod.splits sum.splits if_splits)

lemma revocations_accepted:
  assumes "revocations X c qids body r = (accept i, r')"
  obtains s rvk r1 where "authenticate X (RevokeMsg X) c body r = (Inr (s, rvk), r1)"
    "r' = snd (enqueue_all qids 0 (fst (interested (rv_fid rvk) (ck_inst c) r1)) body c (replicate 16 0)
       (snd (interested (rv_fid rvk) (ck_inst c) r1)))"
  using assms
  by (auto simp: revocations_def Let_def split: prod.splits sum.splits if_splits)

subsection \<open>A sample relay\<close>

definition sample_relay :: relay where
  "sample_relay = announce (replicate 16 7)
     \<lparr>dv_ed25519_pub = replicate 32 1, dv_x25519_pub = replicate 32 6, dv_label = None\<rparr> relay_new"

definition sample_clock :: clock where "sample_clock = \<lparr>ck_unix = 100, ck_inst = 5000\<rparr>"

lemmas relay_eval = authenticate_def signed_from_bytes_def MAX_BODY_LEN_def sample_values_def sample_signed_def
  relay_device_def signed_verify_def kid_of_def sample_proto_core verify_raw_def MAX_SKEW_SECS_def abs_diff_def
  take_quota_def take_nonce_def prune_calls_def quota_ok_def get_or_empty_def RATE_PER_MINUTE_def RATE_PER_HOUR_def
  map_retain_def NONCE_MEMORY_SECS_def Let_def

lemma sample_authenticated:
  assumes "rl_devices r = rl_devices sample_relay" and "get_or_empty (rl_calls r (replicate 16 7)) = []"
    and "rl_nonces r (replicate 16 4) = None"
  shows "\<exists>r'. authenticate sampleP (AccessRequest sampleP) sample_clock [6] r =
     (Inr (the (sample_signed [6]), sample_request), r') \<and> rl_calls r' = (rl_calls r)(replicate 16 7 \<mapsto> [5000]) \<and>
     rl_nonces r' (replicate 16 5) = map_retain (\<lambda>seen. 5000 - seen < 300000) (rl_nonces r) (replicate 16 5)"
  using assms
  by (simp add: relay_eval AccessRequest_def sample_clock_def sample_relay_def announce_def
      split: option.splits)

section \<open>Properties\<close>

text \<open>C5. No envelope is accepted twice. If an envelope's nonce was accepted at instant \<open>t\<close> when the
  wall clock read \<open>u\<close>, and any number of submissions by anyone were handled since, then the same
  envelope is refused whatever the wall clock says now, as long as the two clocks of the relay have
  not drifted apart by a minute: the nonce table outlives the accepted skew.\<close>

theorem relay_refuses_replay:
  assumes "nonce_run r0 acc hi r" and "(sg_nonce s, t) \<in> set acc" and "hi \<le> ck_inst c"
    and "abs_diff u (sg_ts s) \<le> MAX_SKEW_SECS" and "u \<le> ck_unix c"
    and "ck_inst c < t + 1000 * (unat (ck_unix c) - unat u) + 60000"
  shows "fst (authenticate X T c body r) \<noteq> Inr (s, p)"
  using assms by (rule authenticate_refuses_replay)

theorem relay_refuses_replay_witness:
  "fst (authenticate sampleP (AccessRequest sampleP) sample_clock [6]
          (snd (take_nonce (replicate 16 4) 4000 sample_relay))) \<noteq> Inr (the (sample_signed [6]), sample_request)"
proof -
  let ?r = "snd (take_nonce (replicate 16 4) 4000 sample_relay)" and ?s = "the (sample_signed [6])"
  have "take_nonce (replicate 16 4) 4000 sample_relay = (Inr (), ?r)"
    by (simp add: take_nonce_def Let_def sample_relay_def announce_def relay_new_def map_retain_def)
  then have run: "nonce_run sample_relay ([] @ [(replicate 16 4, 4000)]) 4000 ?r"
    by (intro nr_accept [OF nr_start]) simp
  have s: "sg_nonce ?s = replicate 16 4" "sg_ts ?s = 90" by (simp_all add: sample_signed_def)
  show ?thesis
    by (rule relay_refuses_replay [OF run, where t = 4000 and u = 99])
       (simp_all add: s sample_clock_def abs_diff_def MAX_SKEW_SECS_def)
qed

text \<open>C25. The quota holds over time: whatever other devices do, and for call instants that never go back,
  every accepted call of a device is at most the 30th within its last minute and at most the 300th
  within its last hour.\<close>

theorem relay_quota:
  assumes "sorted (map snd (filter (\<lambda>c. fst c = kid) cs))" and "rl_calls r kid = None"
    and "k < length (accepted_calls kid r cs)"
  defines "acc \<equiv> accepted_calls kid r cs"
  shows "length (filter (\<lambda>t. acc ! k - t \<le> 60 * 1000) (take (Suc k) acc)) \<le> RATE_PER_MINUTE \<and>
         length (filter (\<lambda>t. acc ! k - t \<le> 3600 * 1000) (take (Suc k) acc)) \<le> RATE_PER_HOUR"
proof -
  have "windows_ok ([] @ []) acc"
    unfolding acc_def accepted_calls_eq assms(2) get_or_empty_def option.case
    using assms(1) by (intro quota_run_windows) auto
  from windows_ok_nth [OF this, of k] show ?thesis
    using assms(3) by (simp add: acc_def take_Suc_conv_app_nth RATE_PER_MINUTE_def RATE_PER_HOUR_def)
qed

theorem relay_quota_witness:
  "length (filter (\<lambda>t. accepted_calls [1] relay_new [([1], 10), ([2], 11), ([1], 12)] ! 1 - t \<le> 60 * 1000)
     (take (Suc 1) (accepted_calls [1] relay_new [([1], 10), ([2], 11), ([1], 12)]))) \<le> RATE_PER_MINUTE"
proof -
  have "accepted_calls [1] relay_new [([1], 10), ([2], 11), ([1], 12)] = [10, 12]"
    by (simp add: accepted_calls_eq relay_new_def get_or_empty_def prune_calls_def quota_ok_def
        RATE_PER_MINUTE_def RATE_PER_HOUR_def)
  then show ?thesis
    using relay_quota [of "[1]" "[([1], 10), ([2], 11), ([1], 12)]" relay_new 1] by (simp add: relay_new_def)
qed

text \<open>C24. Delivery through the relay's inboxes is exactly once and in order: messages posted to any
  inboxes, each within its 24 hours when an inbox is read, come out of their own inbox once, in the
  order they were queued, with kind, body and time unchanged, and a second read gives nothing.\<close>

theorem relay_delivers_once:
  assumes "\<forall>(t, i, m) \<in> set ps. t \<le> now \<and> now \<le> t + QUEUE_TTL"
  shows "map msg_of (fst (drain j now (relay_box.post_all ps relay_new))) =
           map (\<lambda>(t, i, m). m) (filter (\<lambda>(t, i, m). i = j) ps) \<and>
         fst (drain j later (snd (drain j now (relay_box.post_all ps relay_new)))) = []"
proof -
  have "map msg_of (alive now relay_new j) = []" by (simp add: alive_def relay_new_def get_or_empty_def)
  from relay_box.delivered_once [OF assms this] show ?thesis by simp
qed

theorem relay_delivers_once_witness:
  "map msg_of (fst (drain (IOwner [1]) 10 (relay_box.post_all
       [(0, IOwner [1], ([9], KReq, [6], 5)), (3, IDevice [2], ([8], KGrant, [7], 6)), (4, IOwner [1], ([7], KReq, [5], 7))]
       relay_new))) = [([9], KReq, [6], 5), ([7], KReq, [5], 7)]"
  using relay_delivers_once [of "[(0, IOwner [1], ([9], KReq, [6], 5)), (3, IDevice [2], ([8], KGrant, [7], 6)),
      (4, IOwner [1], ([7], KReq, [5], 7))]" 10 "IOwner [1]" 20]
  by (simp add: QUEUE_TTL_def)



end
