(* ===== verification/Relay_Client.thy ===== *)
theory Relay_Client
  imports Relay_Routes
begin

text \<open>
  The agent's side of the relay protocol (\<open>crates/zbacs-relay-client\<close>): which errors are worth another
  attempt, signing, submission with retries and failover, reading an inbox, polling. HTTP is a function
  from the state of the world to an answer and the next state, so that a relay, or several, can be put
  behind it. Shown: retrying the same bytes delivers a message to a relay once although answers get
  lost, and a success the client reports is a delivery.
\<close>

subsection \<open>error.rs\<close>

datatype client_error = ClRefused error_code | ClUnreachable string | ClBadResponse string | ClProto proto_error

fun is_transient :: "client_error \<Rightarrow> bool" where
  "is_transient (ClUnreachable _) = True"
| "is_transient _ = False"

fun retryable :: "error_code \<Rightarrow> bool" where
  "retryable RateLimited = True"
| "retryable Internal = True"
| "retryable _ = False"

fun code_debug :: "error_code \<Rightarrow> string" where
  "code_debug Unauthenticated = ''Unauthenticated''"
| "code_debug UnknownDevice = ''UnknownDevice''"
| "code_debug StaleCode = ''Stale''"
| "code_debug Replayed = ''Replayed''"
| "code_debug MalformedCode = ''Malformed''"
| "code_debug TooLargeCode = ''TooLarge''"
| "code_debug RateLimited = ''RateLimited''"
| "code_debug NotFound = ''NotFound''"
| "code_debug Internal = ''Internal''"

text \<open>What \<open>last\<close> says of an error: the code of a refusal, the text of anything else.\<close>

fun last_text :: "client_error \<Rightarrow> string" where
  "last_text (ClRefused c) = code_debug c"
| "last_text (ClUnreachable e) = ''no relay could be reached: '' @ e"
| "last_text (ClBadResponse e) = ''relay answered with '' @ e"
| "last_text (ClProto _) = ''protocol''"

subsection \<open>client.rs\<close>

text \<open>Durations in milliseconds.\<close>

record retry_policy =
  rp_attempts :: nat
  rp_initial_backoff :: nat
  rp_max_backoff :: nat
  rp_timeout :: nat

definition default_retry :: retry_policy where
  "default_retry = \<lparr>rp_attempts = 3, rp_initial_backoff = 200, rp_max_backoff = 10000, rp_timeout = 15000\<rparr>"

definition backoff :: "retry_policy \<Rightarrow> nat \<Rightarrow> u32 \<Rightarrow> nat" where
  "backoff p n rnd =
     (let base = min (rp_initial_backoff p * 2 ^ min n 16) (rp_max_backoff p)
      in base + (unat rnd mod 1000) mod (base div 2 + 1))"

datatype delivery = Queued bytes | AlreadyDelivered

record relay_client =
  rc_endpoints :: "string list"
  rc_device :: device_identity
  rc_policy :: retry_policy

definition trim_slashes :: "string \<Rightarrow> string" where
  "trim_slashes s = rev (dropWhile (\<lambda>c. c = CHR ''/'') (rev s))"

definition client_with_policy ::
  "string option \<Rightarrow> string list \<Rightarrow> device_identity \<Rightarrow> retry_policy \<Rightarrow> client_error + relay_client" where
  "client_with_policy http_err endpoints dev p =
     (if endpoints = [] then Inl (ClUnreachable ''no relay endpoints configured'')
      else case http_err of
        Some e \<Rightarrow> Inl (ClUnreachable e)
      | None \<Rightarrow> Inr \<lparr>rc_endpoints = map trim_slashes endpoints, rc_device = dev, rc_policy = p\<rparr>)"

definition client_sign :: "'x proto_lib_scheme \<Rightarrow> 't message \<Rightarrow> device_identity \<Rightarrow> u64 \<Rightarrow> bytes \<Rightarrow> 't \<Rightarrow> client_error + bytes" where
  "client_sign X T dev now nonce payload =
     map_err ClProto (rbind (signed_sign X T dev payload now nonce) (signed_to_bytes X))"

definition client_announcement :: "'x proto_lib_scheme \<Rightarrow> device_identity \<Rightarrow> bytes option \<Rightarrow> u64 \<Rightarrow> device_announce" where
  "client_announcement X dev label now =
     \<lparr>da_x25519_pub = id_x25519_pub dev, da_ed25519_pub = id_ed25519_pub X dev, da_label = label, da_ts = now\<rparr>"

text \<open>An HTTP call: it fails, its body cannot be read, the body is no acknowledgement, or it is one. The
  strings are the reasons, or the status of the answer.\<close>

datatype http_answer = HaDown string | HaLost string | HaGarbage string | HaAck string ack

fun submit_once :: "http_answer \<Rightarrow> client_error + delivery" where
  "submit_once (HaDown e) = Inl (ClUnreachable e)"
| "submit_once (HaLost e) = Inl (ClUnreachable e)"
| "submit_once (HaGarbage st) = Inl (ClBadResponse (''HTTP '' @ st @ '' with a non-CBOR body''))"
| "submit_once (HaAck st a) =
     (if ak_ok a then Inr (Queued (case ak_id a of Some i \<Rightarrow> i | None \<Rightarrow> replicate 16 0))
      else case ak_error a of
        Some Replayed \<Rightarrow> Inr AlreadyDelivered
      | Some code \<Rightarrow> Inl (ClRefused code)
      | None \<Rightarrow> Inl (ClBadResponse (''HTTP '' @ st @ '' with no error code'')))"

definition gives_up :: "client_error \<Rightarrow> bool" where
  "gives_up e \<longleftrightarrow> (case e of ClRefused code \<Rightarrow> \<not> retryable code | _ \<Rightarrow> False)"

text \<open>The attempts on one endpoint: a result that ends the submission, or the last failure.\<close>

fun submit_attempts ::
  "('s \<Rightarrow> http_answer \<times> 's) \<Rightarrow> string \<Rightarrow> nat \<Rightarrow> string \<Rightarrow> 's \<Rightarrow> (string + (client_error + delivery)) \<times> 's" where
  "submit_attempts call endpoint 0 lst s = (Inl lst, s)"
| "submit_attempts call endpoint (Suc k) lst s =
     (let (a, s') = call s in
      case submit_once a of
        Inr d \<Rightarrow> (Inr (Inr d), s')
      | Inl e \<Rightarrow>
          if gives_up e then (Inr (Inl e), s')
          else submit_attempts call endpoint k (endpoint @ '': '' @ last_text e) s')"

fun submit_endpoints ::
  "(string \<Rightarrow> 's \<Rightarrow> http_answer \<times> 's) \<Rightarrow> string list \<Rightarrow> nat \<Rightarrow> string \<Rightarrow> 's \<Rightarrow> (client_error + delivery) \<times> 's" where
  "submit_endpoints call [] n lst s = (Inl (ClUnreachable lst), s)"
| "submit_endpoints call (e # es) n lst s =
     (case submit_attempts (call e) e n lst s of
        (Inr r, s') \<Rightarrow> (r, s')
      | (Inl lst', s') \<Rightarrow> submit_endpoints call es n lst' s')"

definition submit :: "(string \<Rightarrow> 's \<Rightarrow> http_answer \<times> 's) \<Rightarrow> relay_client \<Rightarrow> 's \<Rightarrow> (client_error + delivery) \<times> 's" where
  "submit call c s = submit_endpoints call (rc_endpoints c) (rp_attempts (rc_policy c)) ''not attempted'' s"

text \<open>Signing and submitting: what \<open>announce\<close> and the four \<open>send\<close> methods do with their own path and type.\<close>

definition client_deliver ::
  "'x proto_lib_scheme \<Rightarrow> 't message \<Rightarrow> (bytes \<Rightarrow> string \<Rightarrow> 's \<Rightarrow> http_answer \<times> 's) \<Rightarrow> relay_client \<Rightarrow> u64 \<Rightarrow> bytes \<Rightarrow> 't \<Rightarrow> 's \<Rightarrow>
     (client_error + delivery) \<times> 's" where
  "client_deliver X T call c now nonce payload s =
     (case client_sign X T (rc_device c) now nonce payload of
        Inl e \<Rightarrow> (Inl e, s)
      | Inr body \<Rightarrow> submit (call body) c s)"

datatype inbox_answer = IaDown string | IaStatus string | IaLost string | IaBody "string + relay_envelope list"

fun fetch_attempts ::
  "('s \<Rightarrow> inbox_answer \<times> 's) \<Rightarrow> string \<Rightarrow> nat \<Rightarrow> string \<Rightarrow> 's \<Rightarrow> (string + (client_error + relay_envelope list)) \<times> 's" where
  "fetch_attempts call endpoint 0 lst s = (Inl lst, s)"
| "fetch_attempts call endpoint (Suc k) lst s =
     (let (a, s') = call s in
      case a of
        IaBody b \<Rightarrow> (Inr (map_err ClBadResponse b), s')
      | IaLost e \<Rightarrow> (Inr (Inl (ClUnreachable e)), s')
      | IaStatus st \<Rightarrow> fetch_attempts call endpoint k (endpoint @ '': HTTP '' @ st) s'
      | IaDown e \<Rightarrow> fetch_attempts call endpoint k (endpoint @ '': '' @ e) s')"

fun fetch_inbox ::
  "(string \<Rightarrow> 's \<Rightarrow> inbox_answer \<times> 's) \<Rightarrow> string list \<Rightarrow> nat \<Rightarrow> string \<Rightarrow> 's \<Rightarrow> (client_error + relay_envelope list) \<times> 's" where
  "fetch_inbox call [] n lst s = (Inl (ClUnreachable lst), s)"
| "fetch_inbox call (e # es) n lst s =
     (case fetch_attempts (call e) e n lst s of
        (Inr r, s') \<Rightarrow> (r, s')
      | (Inl lst', s') \<Rightarrow> fetch_inbox call es n lst' s')"

text \<open>Polling, over the answers of the inbox until it is told to stop: what was handed on, and how long each
  pause was. The failure count is a \<open>u32\<close> that saturates.\<close>

fun poll_device_inbox ::
  "retry_policy \<Rightarrow> nat \<Rightarrow> (client_error + relay_envelope list) list \<Rightarrow> u32 list \<Rightarrow> nat \<Rightarrow> relay_envelope list \<times> nat list" where
  "poll_device_inbox p interval [] rnd failures = ([], [])"
| "poll_device_inbox p interval (Inr es # as) rnd failures =
     (let (out, pauses) = poll_device_inbox p interval as rnd 0 in (es @ out, interval # pauses))"
| "poll_device_inbox p interval (Inl _ # as) rnd failures =
     (let (out, pauses) = poll_device_inbox p interval as (tl rnd) (min (failures + 1) (2 ^ 32 - 1))
      in (out, backoff p failures (case rnd of [] \<Rightarrow> 0 | r # _ \<Rightarrow> r) # pauses))"

subsection \<open>A relay behind the client\<close>

text \<open>
  One relay, and a client whose calls get through or not, whose answers get lost or not, with anything
  else happening at the relay in between. The state is the relay, the attempts to come, and how many
  submissions the relay has accepted.
\<close>

record attempt =
  at_clock :: clock
  at_reached :: bool
  at_lost :: bool
  at_between :: "relay \<Rightarrow> relay"

fun accepted_ack :: "response \<Rightarrow> bool" where
  "accepted_ack (RAck _ a) = ak_ok a"
| "accepted_ack (REnvelopes _ _) = False"

fun answer_of :: "response \<Rightarrow> http_answer" where
  "answer_of (RAck _ a) = HaAck '''' a"
| "answer_of (REnvelopes _ _) = HaGarbage ''''"

definition relay_call ::
  "'x proto_lib_scheme \<Rightarrow> bytes \<Rightarrow> bytes \<Rightarrow> relay \<times> attempt list \<times> nat \<Rightarrow> http_answer \<times> relay \<times> attempt list \<times> nat" where
  "relay_call X qid body = (\<lambda>(r, script, n).
     case script of
       [] \<Rightarrow> (HaDown ''gone'', r, [], n)
     | a # rest \<Rightarrow>
         if \<not> at_reached a then (HaDown ''connect'', at_between a r, rest, n)
         else let (resp, r') = requests X (at_clock a) qid body (at_between a r) in
              (if at_lost a then HaLost ''timeout'' else answer_of resp, r', rest, if accepted_ack resp then n + 1 else n))"

subsection \<open>Lemmas\<close>

lemma take_quota_nonces [simp]: "rl_nonces (snd (take_quota k now r)) = rl_nonces r"
  by (simp add: take_quota_def Let_def)

lemma take_quota_nonces' [dest]: "take_quota k now r = (q, r') \<Longrightarrow> rl_nonces r' = rl_nonces r"
  by (metis take_quota_nonces snd_conv)

lemma queue_nonces [simp]:
  "rl_nonces (remember_request n k t r) = rl_nonces r" "rl_nonces (remember_interest f k t r) = rl_nonces r"
  "rl_nonces (snd (enqueue q i kd b u t r)) = rl_nonces r"
  by (simp_all add: remember_request_def remember_interest_def enqueue_def Let_def)

text \<open>An authentication, by what it does to the nonce of the envelope.\<close>

lemma proto_code_not_replayed: "proto_code e \<noteq> Replayed"
  by (cases e) auto

lemma take_quota_refuses: "take_quota k now r = (Inl e, r') \<Longrightarrow> e = RfRateLimited"
  by (auto simp: take_quota_def Let_def split: if_splits)

lemma authenticate_nonce:
  assumes "signed_from_bytes X body = Inr s" and "authenticate X T c body r = (q, r')"
  obtains (ok) p where "q = Inr (s, p)" "msg_dec T (sg_payload s) = Some p" "rl_nonces r' (sg_nonce s) = Some (ck_inst c)"
      "\<And>t. rl_nonces r (sg_nonce s) = Some t \<Longrightarrow> 300000 \<le> ck_inst c - t"
  | (refused) code where "q = Inl code" "code \<noteq> Replayed" "rl_nonces r' = rl_nonces r"
  | (replayed) t where "q = Inl Replayed" "rl_nonces r (sg_nonce s) = Some t" "ck_inst c - t < 300000"
      "rl_nonces r' (sg_nonce s) = Some t"
proof -
  have early: thesis if "\<exists>code. q = Inl code \<and> code \<noteq> Replayed \<and> rl_nonces r' = rl_nonces r"
    using that refused by blast
  show thesis
  proof (cases "relay_device r (sg_kid s)")
    case None
    then show thesis using assms by (intro early) (auto simp: authenticate_def split: if_splits)
  next
    case (Some dev)
    show thesis
    proof (cases "length body > MAX_BODY_LEN")
      case True
      then show thesis using assms by (intro early) (auto simp: authenticate_def)
    next
      case False
      show thesis
      proof (cases "signed_verify X T s (dv_ed25519_pub dev) (ck_unix c)")
        case (Inl e)
        then show thesis using assms Some False proto_code_not_replayed by (intro early) (auto simp: authenticate_def)
      next
        case v: (Inr pn)
        obtain p n where pn: "pn = (p, n)" by fastforce
        have p: "n = sg_nonce s" "msg_dec T (sg_payload s) = Some p"
          using v pn by (auto simp: signed_verify_Inr signed_verify_queued_Inr)
        obtain q1 r1 where q1: "take_quota (sg_kid s) (ck_inst c) r = (q1, r1)" by fastforce
        note nq = take_quota_nonces' [OF q1]
        show thesis
        proof (cases q1)
          case (Inl e)
          then have "e = RfRateLimited" using take_quota_refuses q1 by blast
          then show thesis using assms Some False v pn q1 nq Inl by (intro early) (auto simp: authenticate_def)
        next
          case (Inr u)
          obtain q2 r2 where q2: "take_nonce n (ck_inst c) r1 = (q2, r2)" by fastforce
          show thesis
          proof (cases q2)
            case e: (Inl e)
            have qr: "q = Inl Replayed" "r' = r2"
              using assms Some False v pn q1 Inr q2 e take_nonce_refuse(2) [of n "ck_inst c" r1 e r2]
              by (auto simp: authenticate_def)
            obtain t where "rl_nonces r1 n = Some t" "ck_inst c - t < 300000" "rl_nonces r2 n = Some t"
              using q2 e by (auto simp: take_nonce_def Let_def NONCE_MEMORY_SECS_def split: if_splits)
            then show thesis using replayed qr p nq by simp
          next
            case ok2: (Inr w)
            then have "q = Inr (s, p)" "r' = r2" using assms Some False v pn q1 Inr q2 by (auto simp: authenticate_def)
            then show thesis
              using ok p take_nonce_accept [of n "ck_inst c" r1 w r2] q2 ok2 nq by auto
          qed
        qed
      qed
    qed
  qed
qed

text \<open>A request whose own fields are in order: past authentication the relay accepts it.\<close>

definition request_in_order :: "'x proto_lib_scheme \<Rightarrow> signed \<Rightarrow> bool" where
  "request_in_order X s \<longleftrightarrow>
     (\<forall>q. msg_dec (AccessRequest X) (sg_payload s) = Some q \<longrightarrow>
        ar_device_kid q = sg_kid s \<and> kid_of X (ar_ed25519_pub q) = sg_kid s \<and>
        ar_owner q \<noteq> [] \<and> length (ar_owner q) \<le> 64)"

lemma requests_nonce:
  assumes "signed_from_bytes X body = Inr s" and "request_in_order X s" and "requests X c qid body r = (resp, r')"
  obtains (ok) "accepted_ack resp" "rl_nonces r' (sg_nonce s) = Some (ck_inst c)"
      "\<And>t. rl_nonces r (sg_nonce s) = Some t \<Longrightarrow> 300000 \<le> ck_inst c - t" "\<exists>i. submit_once (answer_of resp) = Inr (Queued i)"
  | (refused) "\<not> accepted_ack resp" "rl_nonces r' = rl_nonces r" "\<exists>e. submit_once (answer_of resp) = Inl e"
  | (replayed) t where "\<not> accepted_ack resp" "rl_nonces r (sg_nonce s) = Some t" "rl_nonces r' (sg_nonce s) = Some t"
      "submit_once (answer_of resp) = Inr AlreadyDelivered"
proof -
  obtain q r1 where a: "authenticate X (AccessRequest X) c body r = (q, r1)" by fastforce
  show thesis
  proof (rule authenticate_nonce [OF assms(1) a])
    fix p
    assume p: "q = Inr (s, p)" "msg_dec (AccessRequest X) (sg_payload s) = Some p" "rl_nonces r1 (sg_nonce s) = Some (ck_inst c)"
      "\<And>t. rl_nonces r (sg_nonce s) = Some t \<Longrightarrow> 300000 \<le> ck_inst c - t"
    let ?r3 = "remember_interest (ar_fid p) (sg_kid s) (ck_inst c) (remember_request (ar_nonce p) (sg_kid s) (ck_inst c) r1)"
    let ?en = "enqueue qid (IOwner (ar_owner p)) KReq body (ck_unix c) (ck_inst c) ?r3"
    have "(resp, r') = (accept (fst ?en), snd ?en)"
      using assms(2,3) a p(1,2) by (auto simp: requests_def request_in_order_def Let_def split: prod.splits)
    then show thesis using ok p(3,4) by (simp add: accept_def)
  next
    fix code
    assume "q = Inl code" "code \<noteq> Replayed" "rl_nonces r1 = rl_nonces r"
    then show thesis using assms(3) a refused by (cases code) (auto simp: requests_def refuse_def)
  next
    fix t
    assume "q = Inl Replayed" "rl_nonces r (sg_nonce s) = Some t" "rl_nonces r1 (sg_nonce s) = Some t"
    then show thesis using assms(3) a replayed [of t] by (auto simp: requests_def refuse_def)
  qed
qed

text \<open>What holds between the attempts: nothing accepted and the nonce unknown, or one submission accepted and
  its nonce remembered.\<close>

definition retry_inv :: "bytes \<Rightarrow> nat \<Rightarrow> relay \<times> attempt list \<times> nat \<Rightarrow> bool" where
  "retry_inv nonce t0 = (\<lambda>(r, script, n).
     (\<forall>a \<in> set script. t0 \<le> ck_inst (at_clock a) \<and> ck_inst (at_clock a) < t0 + 300000 \<and>
        (\<forall>r. rl_nonces (at_between a r) nonce = rl_nonces r nonce)) \<and>
     (n = 0 \<and> rl_nonces r nonce = None \<or> n = 1 \<and> (\<exists>t \<ge> t0. rl_nonces r nonce = Some t)))"

lemma relay_call_inv:
  assumes "signed_from_bytes X body = Inr s" and "request_in_order X s" and "retry_inv (sg_nonce s) t0 w"
    and "relay_call X qid body w = (ans, w')"
  shows "retry_inv (sg_nonce s) t0 w' \<and> (\<forall>d. submit_once ans = Inr d \<longrightarrow> snd (snd w') = 1)"
proof -
  obtain r script n where w: "w = (r, script, n)" by (cases w) auto
  show ?thesis
  proof (cases script)
    case Nil
    then show ?thesis using assms(3,4) w by (auto simp: relay_call_def)
  next
    case (Cons a rest)
    have between: "rl_nonces (at_between a r) (sg_nonce s) = rl_nonces r (sg_nonce s)"
      and win: "t0 \<le> ck_inst (at_clock a)" "ck_inst (at_clock a) < t0 + 300000"
      and rest: "retry_inv (sg_nonce s) t0 (r', rest, n') \<longleftrightarrow>
        n' = 0 \<and> rl_nonces r' (sg_nonce s) = None \<or> n' = 1 \<and> (\<exists>t \<ge> t0. rl_nonces r' (sg_nonce s) = Some t)" for r' n'
      using assms(3) w Cons by (auto simp: retry_inv_def)
    note now = assms(3) [unfolded w retry_inv_def split, THEN conjunct2]
    show ?thesis
    proof (cases "at_reached a")
      case False
      then show ?thesis using assms(4) w Cons rest now between by (auto simp: relay_call_def)
    next
      case True
      obtain resp r' where q: "requests X (at_clock a) qid body (at_between a r) = (resp, r')" by fastforce
      have w': "w' = (r', rest, if accepted_ack resp then n + 1 else n)"
        and ans: "ans = (if at_lost a then HaLost ''timeout'' else answer_of resp)"
        using assms(4) w Cons True q by (auto simp: relay_call_def)
      show ?thesis
        by (rule requests_nonce [OF assms(1,2) q])
          (use w' ans now win between rest in \<open>auto split: if_splits\<close>)
    qed
  qed
qed

lemma submit_attempts_inv:
  assumes "signed_from_bytes X body = Inr s" and "request_in_order X s" and "retry_inv (sg_nonce s) t0 w"
    and "submit_attempts (relay_call X qid body) e k lst w = (res, w')"
  shows "retry_inv (sg_nonce s) t0 w' \<and> (\<forall>d. res = Inr (Inr d) \<longrightarrow> snd (snd w') = 1)"
  using assms(3,4)
proof (induction k arbitrary: lst w)
  case (Suc k)
  obtain ans w1 where c: "relay_call X qid body w = (ans, w1)" by (metis surj_pair)
  note step = relay_call_inv [OF assms(1,2) Suc.prems(1) c]
  show ?case
  proof (cases "submit_once ans")
    case (Inl er)
    then show ?thesis using Suc.prems(2) c step Suc.IH by (auto split: if_splits)
  next
    case (Inr d)
    then show ?thesis using Suc.prems(2) c step by auto
  qed
qed auto

lemma submit_endpoints_inv:
  assumes "signed_from_bytes X body = Inr s" and "request_in_order X s" and "retry_inv (sg_nonce s) t0 w"
    and "submit_endpoints (\<lambda>_. relay_call X qid body) es k lst w = (res, w')"
  shows "retry_inv (sg_nonce s) t0 w' \<and> (\<forall>d. res = Inr d \<longrightarrow> snd (snd w') = 1)"
  using assms(3,4)
proof (induction es arbitrary: lst w)
  case (Cons e es)
  obtain q w1 where c: "submit_attempts (relay_call X qid body) e k lst w = (q, w1)" by (metis surj_pair)
  note step = submit_attempts_inv [OF assms(1,2) Cons.prems(1) c]
  show ?case using Cons.prems(2) c step Cons.IH by (cases q) auto
qed auto

lemma relay_call_reached:
  "at_reached a \<Longrightarrow> requests X (at_clock a) qid body (at_between a r) = (resp, r') \<Longrightarrow>
     relay_call X qid body (r, a # rest, n) =
       (if at_lost a then HaLost ''timeout'' else answer_of resp, r', rest, if accepted_ack resp then n + 1 else n)"
  by (simp add: relay_call_def)

lemma backoff_bounds:
  "min (rp_initial_backoff p * 2 ^ min n 16) (rp_max_backoff p) \<le> backoff p n rnd"
  "2 * backoff p n rnd \<le> 3 * rp_max_backoff p"
proof -
  define b where "b = min (rp_initial_backoff p * 2 ^ min n 16) (rp_max_backoff p)"
  have j: "(unat rnd mod 1000) mod (b div 2 + 1) \<le> b div 2"
    using mod_less_divisor [of "b div 2 + 1" "unat rnd mod 1000"] by linarith
  have e: "backoff p n rnd = b + (unat rnd mod 1000) mod (b div 2 + 1)" by (simp add: backoff_def b_def Let_def)
  show "b \<le> backoff p n rnd" using e by simp
  have "b \<le> rp_max_backoff p" by (simp add: b_def)
  then show "2 * backoff p n rnd \<le> 3 * rp_max_backoff p" using e j by linarith
qed

text \<open>The pauses of a poll never exceed half more than the limit while the relay is down, so a client that
  polls comes back within that time of the relay.\<close>

lemma poll_pauses_bounded:
  "\<forall>x \<in> set (snd (poll_device_inbox p interval as rnd failures)). x = interval \<or> 2 * x \<le> 3 * rp_max_backoff p"
proof (induction p interval as rnd failures rule: poll_device_inbox.induct)
  case 2
  then show ?case by (auto simp: Let_def split: prod.splits)
next
  case 3
  then show ?case using backoff_bounds(2) by (auto simp: Let_def split: prod.splits)
qed simp

lemma poll_hands_on: "fst (poll_device_inbox p interval as rnd failures) =
    concat (map (\<lambda>a. case a of Inr es \<Rightarrow> es | Inl _ \<Rightarrow> []) as)"
  by (induction p interval as rnd failures rule: poll_device_inbox.induct) (auto simp: Let_def split: prod.splits)

section \<open>Properties\<close>

text \<open>C17. Retrying is safe: a client submits one signed request to a relay over any number of attempts and
  addresses, its calls get through or not, answers get lost or not, and anything else goes on at the
  relay meanwhile; if all attempts fall within five minutes and nobody else uses its nonce, then the
  relay accepts the request at most once, and when the client reports success - queued or already
  delivered - exactly once.\<close>

theorem retries_deliver_once:
  assumes "signed_from_bytes X body = Inr s" and "request_in_order X s" and "rl_nonces r (sg_nonce s) = None"
    and "\<forall>a \<in> set script. t0 \<le> ck_inst (at_clock a) \<and> ck_inst (at_clock a) < t0 + 300000 \<and>
        (\<forall>r. rl_nonces (at_between a r) (sg_nonce s) = rl_nonces r (sg_nonce s))"
    and "submit (\<lambda>_. relay_call X qid body) c (r, script, 0) = (res, r', rest, n)"
  shows "n \<le> 1 \<and> (is_ok res \<longrightarrow> n = 1)"
proof -
  have "retry_inv (sg_nonce s) t0 (r, script, 0)" using assms(3,4) by (simp add: retry_inv_def)
  from submit_endpoints_inv [OF assms(1,2) this assms(5) [unfolded submit_def]] show ?thesis
    by (auto simp: retry_inv_def is_ok_iff)
qed

text \<open>A first attempt whose answer is lost, a second that reads "replayed".\<close>

theorem retries_deliver_once_witness:
  "\<exists>r' rest. submit (\<lambda>_. relay_call sampleP [9] [6])
     \<lparr>rc_endpoints = [''a''], rc_device = sample_dev, rc_policy = default_retry\<rparr>
     (sample_relay, [\<lparr>at_clock = sample_clock, at_reached = True, at_lost = True, at_between = (\<lambda>r. r)\<rparr>,
                     \<lparr>at_clock = sample_clock, at_reached = True, at_lost = False, at_between = (\<lambda>r. r)\<rparr>], 0) =
     (Inr AlreadyDelivered, r', rest, 1)"
proof -
  let ?c = "\<lparr>rc_endpoints = [''a''], rc_device = sample_dev, rc_policy = default_retry\<rparr>"
  let ?script = "[\<lparr>at_clock = sample_clock, at_reached = True, at_lost = True, at_between = (\<lambda>r. r)\<rparr>,
                  \<lparr>at_clock = sample_clock, at_reached = True, at_lost = False, at_between = (\<lambda>r. r)\<rparr>]"
  let ?s = "the (sample_signed [6])"
  have s: "signed_from_bytes sampleP [6] = Inr ?s"
    by (simp add: signed_from_bytes_def MAX_BODY_LEN_def sample_values_def sample_signed_def Let_def)
  have ok: "request_in_order sampleP ?s"
    by (simp add: request_in_order_def AccessRequest_def sample_values_def sample_request_def sample_signed_def Let_def
        kid_of_def sample_proto_core)
  have n0: "rl_nonces sample_relay (sg_nonce ?s) = None" by (simp add: sample_relay_def announce_def relay_new_def)
  obtain r1 where one: "requests sampleP sample_clock [9] [6] sample_relay = (accept [9], r1)"
    and r1: "rl_nonces r1 (replicate 16 4) = Some 5000" "rl_devices r1 = rl_devices sample_relay"
      "rl_calls r1 (replicate 16 7) = Some [5000]"
    by (simp add: requests_def AccessRequest_def relay_eval sample_clock_def sample_relay_def
        announce_def relay_new_def sample_request_def enqueue_def remember_request_def remember_interest_def)
  obtain r2 where two: "requests sampleP sample_clock [9] [6] r1 = (refuse Replayed, r2)"
    using r1 by (simp add: requests_def AccessRequest_def relay_eval sample_clock_def sample_relay_def
        announce_def relay_new_def sample_request_def split: option.splits)
  have "\<exists>rest n. submit (\<lambda>_. relay_call sampleP [9] [6]) ?c (sample_relay, ?script, 0) = (Inr AlreadyDelivered, r2, rest, n)"
    using one two
    by (simp add: submit_def default_retry_def numeral_3_eq_3 relay_call_reached gives_up_def accept_def refuse_def
        del: One_nat_def)
  then obtain r' rest n where run: "submit (\<lambda>_. relay_call sampleP [9] [6]) ?c (sample_relay, ?script, 0) =
     (Inr AlreadyDelivered, r', rest, n)" by blast
  have "n = 1"
    using retries_deliver_once [OF s ok n0 _ run, of 5000] by (simp add: sample_clock_def)
  then show ?thesis using run by blast
qed

text \<open>An announcement goes to the first relay that answers and to no other; a relay that does not know the
  device ends a submission, whatever relays are left.\<close>

theorem announced_at_first_relay_only:
  assumes "rc_endpoints c = e # es" and "0 < rp_attempts (rc_policy c)"
  shows "(submit_once (fst (call e s)) = Inr d \<longrightarrow> submit call c s = (Inr d, snd (call e s))) \<and>
    (submit_once (fst (call e s)) = Inl (ClRefused UnknownDevice) \<longrightarrow>
       submit call c s = (Inl (ClRefused UnknownDevice), snd (call e s)))"
  using assms by (cases "rp_attempts (rc_policy c)") (auto simp: submit_def gives_up_def split: prod.splits)

end
