(* ===== verification/Request.thy ===== *)
theory Request
  imports Agent_Chain Session_State Relay_Client
begin

text \<open>
  The recipient's side (\<open>apps/agent/src-tauri/src/request.rs\<close>): which relays to ask, what a request is
  about, what a message from the inbox means for it, asking and waiting, and watching an approval that is
  held. A loop of the source runs over turns, one record of what the clock, the person, the relay and the
  chain say in that turn; the recursion has fuel, and the theory shows how much is enough.
\<close>

subsection \<open>Relay endpoints\<close>

definition DEFAULT_RELAY :: string where "DEFAULT_RELAY = ''http://127.0.0.1:8787''"

definition split_list :: "string option \<Rightarrow> string list" where
  "split_list v =
     filter (\<lambda>s. s \<noteq> []) (map trim (split_at (CHR '','') [] (case v of Some s \<Rightarrow> s | None \<Rightarrow> [])))"

definition endpoints_from :: "string option \<Rightarrow> string option \<Rightarrow> string list" where
  "endpoints_from configured em =
     (let listed = split_list configured; built_in = split_list em in
      if listed \<noteq> [] then listed else if built_in \<noteq> [] then built_in else [DEFAULT_RELAY])"

subsection \<open>What a request is about\<close>

record target =
  tg_fid :: bytes
  tg_header_hash :: bytes
  tg_owner :: bytes

datatype file_open = FoNotFound | FoDenied | FoContent bytes

definition target_of :: "'x core_lib_scheme \<Rightarrow> file_open \<Rightarrow> string + target" where
  "target_of X fo =
     (case fo of
        FoNotFound \<Rightarrow> Inl ''missing''
      | FoDenied \<Rightarrow> Inl ''unreadable''
      | FoContent bs \<Rightarrow>
          rbind (map_err (\<lambda>_. ''unreadable'') (inspect X bs)) (\<lambda>(h, hh).
            if pol_default (hb_pol (hdr_body h)) = Deny then Inl ''owner_denies''
            else Inr \<lparr>tg_fid = hb_fid (hdr_body h), tg_header_hash = hh, tg_owner = hb_own (hdr_body h)\<rparr>))"

definition build_request ::
  "'x proto_lib_scheme \<Rightarrow> target \<Rightarrow> device_identity \<Rightarrow> permission \<Rightarrow> bytes \<Rightarrow> u64 \<Rightarrow> access_request" where
  "build_request X tg dev requested rnonce now =
     \<lparr>ar_fid = tg_fid tg, ar_header_hash = tg_header_hash tg, ar_owner = tg_owner tg, ar_device_kid = id_kid X dev,
      ar_x25519_pub = id_x25519_pub dev, ar_ed25519_pub = id_ed25519_pub X dev, ar_requested = permission_u8 requested,
      ar_nonce = rnonce, ar_hint = None, ar_ts = now\<rparr>"

subsection \<open>What a message means\<close>

datatype inbox_meaning =
    NotOurs | MDenied | MGranted permission access_grant_terms "bytes option" "bytes option" | Mismatch string

definition decision_of :: "u8 \<Rightarrow> permission option" where
  "decision_of b = (if b = 1 then Some ReadOnly else if b = 2 then Some Edit else None)"

definition classify_terms ::
  "bytes \<Rightarrow> target \<Rightarrow> bytes \<Rightarrow> permission \<Rightarrow> grant_msg \<Rightarrow> access_grant_terms \<Rightarrow> inbox_meaning" where
  "classify_terms rnonce tg our_key_hash perm g t =
     (if gt_file_id t \<noteq> tg_fid tg then Mismatch ''file''
      else if gt_header_hash t \<noteq> tg_header_hash tg then Mismatch ''version''
      else if gt_device_key_hash t \<noteq> our_key_hash then Mismatch ''device''
      else if gt_request_nonce t \<noteq> rnonce then Mismatch ''nonce''
      else if gt_permission t \<noteq> permission_u8 perm then Mismatch ''permission''
      else MGranted perm t (gm_envelope g) (gm_tx_hash g))"

definition classify :: "'x proto_lib_scheme \<Rightarrow> relay_envelope \<Rightarrow> bytes \<Rightarrow> target \<Rightarrow> bytes \<Rightarrow> inbox_meaning" where
  "classify X e rnonce tg our_key_hash =
     (if re_kind e \<noteq> KGrant then NotOurs
      else case signed_from_bytes X (re_body e) of
        Inl _ \<Rightarrow> NotOurs
      | Inr s \<Rightarrow>
          if sg_kind s \<noteq> KGrant then NotOurs
          else case msg_dec (GrantMsg X) (sg_payload s) of
            None \<Rightarrow> NotOurs
          | Some g \<Rightarrow>
              if gm_request_nonce g \<noteq> rnonce then NotOurs
              else if gm_decision g = 0 then MDenied
              else case decision_of (gm_decision g) of
                None \<Rightarrow> Mismatch ''decision''
              | Some perm \<Rightarrow>
                  (case gm_grant g of
                     None \<Rightarrow> Mismatch ''no_terms''
                   | Some bs \<Rightarrow>
                       (case terms_from_cbor X bs of
                          Inl _ \<Rightarrow> Mismatch ''terms''
                        | Inr t \<Rightarrow> classify_terms rnonce tg our_key_hash perm g t)))"

definition is_revoke_for :: "'x proto_lib_scheme \<Rightarrow> relay_envelope \<Rightarrow> bytes \<Rightarrow> bool" where
  "is_revoke_for X e grant_id =
     (re_kind e = KRevoke \<and>
      (case signed_from_bytes X (re_body e) of
         Inl _ \<Rightarrow> False
       | Inr s \<Rightarrow> sg_kind s = KRevoke \<and>
           (case msg_dec (RevokeMsg X) (sg_payload s) of None \<Rightarrow> False | Some rv \<Rightarrow> rv_grant_id rv = grant_id)))"

fun relay_problem :: "client_error \<Rightarrow> string" where
  "relay_problem (ClUnreachable _) = ''relay_unreachable''"
| "relay_problem (ClRefused _) = ''relay_refused''"
| "relay_problem _ = ''failed''"

subsection \<open>Asking\<close>

datatype outcome = OcGranted permission u64 | OcDenied | OcExpired | OcCancelled | OcFailed string

record req_update =
  up_phase :: string
  up_decision :: "string option"
  up_expiry :: "u64 option"
  up_problem :: "string option"
  up_pending :: "string list"

definition update_new :: "string \<Rightarrow> req_update" where
  "update_new phase = \<lparr>up_phase = phase, up_decision = None, up_expiry = None, up_problem = None, up_pending = []\<rparr>"

record held =
  he_session :: session
  he_terms :: "access_grant_terms option"
  he_envelope :: "bytes option"

fun decision_word :: "permission \<Rightarrow> string" where
  "decision_word ReadOnly = ''read_only''"
| "decision_word Edit = ''edit''"
| "decision_word Deny = ''deny''"

text \<open>Durations in milliseconds.\<close>

record limits =
  li_poll :: nat
  li_nudge_after :: nat
  li_give_up_after :: nat

definition default_limits :: limits where
  "default_limits = \<lparr>li_poll = 2000, li_nudge_after = 120000, li_give_up_after = 300000\<rparr>"

record asking =
  as_target :: target
  as_requested :: permission
  as_our_key_hash :: bytes
  as_limits :: limits
  as_chain :: bool

text \<open>What one turn of a wait sees: the cancel flag, the time waited, the inbox, the chain's answer on the
  approval, and the clock.\<close>

record turn =
  tn_cancel :: bool
  tn_waited :: nat
  tn_inbox :: "client_error + relay_envelope list"
  tn_valid :: "string + bool"
  tn_now :: u64

definition chain_says :: "turn \<Rightarrow> bytes \<Rightarrow> chain_error + bool" where
  "chain_says tn gid = fst (is_grant_valid (tn_valid tn) gid 0 cache_new)"

definition ended :: "sess_event \<Rightarrow> u64 \<Rightarrow> session \<Rightarrow> held" where
  "ended ev now s = \<lparr>he_session = snd (apply_event s ev now), he_terms = None, he_envelope = None\<rparr>"

definition failed_with :: "string \<Rightarrow> u64 \<Rightarrow> session \<Rightarrow> (outcome \<times> held) \<times> req_update list" where
  "failed_with reason now s =
     ((OcFailed reason, ended (EvFailed reason) now s), [(update_new ''failed'')\<lparr>up_problem := Some reason\<rparr>])"

definition take_grant ::
  "'x proto_lib_scheme \<Rightarrow> asking \<Rightarrow> turn \<Rightarrow> session \<Rightarrow> permission \<Rightarrow> access_grant_terms \<Rightarrow> bytes option \<Rightarrow> bytes option \<Rightarrow>
     (outcome \<times> held) \<times> req_update list" where
  "take_grant X q tn s perm t env tx =
     (let checked = (if as_chain q \<and> tx \<noteq> None then Some (chain_says tn (struct_hash X t)) else None);
          outstanding = ''open_file'' # (if checked = Some (Inr True) then [] else [''owner_signature_check''])
      in if checked = Some (Inr False) then failed_with ''mismatch'' (tn_now tn) s
         else case apply_event s (EvGranted perm (gt_not_before t) (gt_expiry t) (gt_max_opens t)) (tn_now tn) of
           (Inl _, s') \<Rightarrow> failed_with ''window'' (tn_now tn) s'
         | (Inr _, s') \<Rightarrow>
             ((OcGranted perm (gt_expiry t), \<lparr>he_session = s', he_terms = Some t, he_envelope = env\<rparr>),
              [(update_new ''granted'')\<lparr>up_decision := Some (decision_word perm), up_expiry := Some (gt_expiry t),
                 up_pending := outstanding\<rparr>]))"

fun scan_inbox ::
  "'x proto_lib_scheme \<Rightarrow> asking \<Rightarrow> bytes \<Rightarrow> turn \<Rightarrow> session \<Rightarrow> relay_envelope list \<Rightarrow> ((outcome \<times> held) \<times> req_update list) option" where
  "scan_inbox X q rnonce tn s [] = None"
| "scan_inbox X q rnonce tn s (e # es) =
     (case classify X e rnonce (as_target q) (as_our_key_hash q) of
        NotOurs \<Rightarrow> scan_inbox X q rnonce tn s es
      | MDenied \<Rightarrow> Some ((OcDenied, ended EvDenied (tn_now tn) s), [update_new ''denied''])
      | Mismatch _ \<Rightarrow> Some (failed_with ''mismatch'' (tn_now tn) s)
      | MGranted perm t env tx \<Rightarrow> Some (take_grant X q tn s perm t env tx))"

fun ask_loop ::
  "'x proto_lib_scheme \<Rightarrow> asking \<Rightarrow> bytes \<Rightarrow> (nat \<Rightarrow> turn) \<Rightarrow> nat \<Rightarrow> nat \<Rightarrow> bool \<Rightarrow> session \<Rightarrow>
     ((outcome \<times> held) \<times> req_update list) option" where
  "ask_loop X q rnonce turns 0 i nudged s = None"
| "ask_loop X q rnonce turns (Suc fuel) i nudged s =
     (let tn = turns i in
      if tn_cancel tn
      then Some ((OcCancelled, ended (EvFailed ''cancelled'') (tn_now tn) s), [update_new ''cancelled''])
      else if li_give_up_after (as_limits q) \<le> tn_waited tn
      then Some ((OcExpired, ended EvExpired (tn_now tn) s), [update_new ''expired''])
      else
        let nudge = \<not> nudged \<and> li_nudge_after (as_limits q) \<le> tn_waited tn;
            before = (if nudge then [update_new ''nudge''] else []);
            envs = (case tn_inbox tn of Inr l \<Rightarrow> l | Inl _ \<Rightarrow> [])
        in (case scan_inbox X q rnonce tn s envs of
              Some (r, ups) \<Rightarrow> Some (r, before @ ups)
            | None \<Rightarrow>
                map_option (\<lambda>(r, ups). (r, before @ ups)) (ask_loop X q rnonce turns fuel (Suc i) (nudged \<or> nudge) s)))"

text \<open>The request that was sent is part of the result.\<close>

definition ask ::
  "'x proto_lib_scheme \<Rightarrow> asking \<Rightarrow> device_identity \<Rightarrow> client_error + delivery \<Rightarrow> client_error + delivery \<Rightarrow> bytes \<Rightarrow> u64 \<Rightarrow>
     (nat \<Rightarrow> turn) \<Rightarrow> nat \<Rightarrow> ((outcome \<times> held) \<times> req_update list \<times> access_request option) option" where
  "ask X q dev announced sent rnonce now turns fuel =
     (case announced of
        Inl e \<Rightarrow> (case failed_with (relay_problem e) now session_new of (r, ups) \<Rightarrow> Some (r, ups, None))
      | Inr _ \<Rightarrow>
          let req = build_request X (as_target q) dev (as_requested q) rnonce now in
          (case sent of
             Inl e \<Rightarrow> (case failed_with (relay_problem e) now session_new of (r, ups) \<Rightarrow> Some (r, ups, Some req))
           | Inr _ \<Rightarrow>
               map_option (\<lambda>(r, ups). (r, update_new ''sent'' # ups, Some req))
                 (ask_loop X q rnonce turns fuel 0 False session_new)))"

subsection \<open>Watching an approval\<close>

datatype grant_end = GeRevoked | GeExpired | GeCancelled

fun watch_grant ::
  "'x proto_lib_scheme \<Rightarrow> bool \<Rightarrow> bytes \<Rightarrow> u64 \<Rightarrow> (nat \<Rightarrow> turn) \<Rightarrow> nat \<Rightarrow> nat \<Rightarrow> session \<Rightarrow> (grant_end \<times> session \<times> req_update list) option" where
  "watch_grant X chain gid expiry turns 0 i s = None"
| "watch_grant X chain gid expiry turns (Suc fuel) i s =
     (let tn = turns i in
      if tn_cancel tn then Some (GeCancelled, s, [])
      else if expiry \<le> tn_now tn
      then Some (GeExpired, snd (apply_event s EvExpired (tn_now tn)), [update_new ''expired_grant''])
      else if chain \<and> chain_says tn gid = Inr False
      then Some (GeRevoked, snd (apply_event s EvRevoked (tn_now tn)), [update_new ''revoked''])
      else if (case tn_inbox tn of Inr es \<Rightarrow> list_ex (\<lambda>e. is_revoke_for X e gid) es | Inl _ \<Rightarrow> False)
      then Some (GeRevoked, snd (apply_event s EvRevoked (tn_now tn)), [update_new ''revoked''])
      else watch_grant X chain gid expiry turns fuel (Suc i) s)"

subsection \<open>The agent's state\<close>

text \<open>A cancel flag is shared by reference: the table holds its address, the flags that are set are a set.\<close>

record active =
  ae_cancel :: nat
  ae_held :: "held option"

definition start_request :: "string \<Rightarrow> nat \<Rightarrow> (string \<rightharpoonup> active) \<Rightarrow> (string + unit) \<times> (string \<rightharpoonup> active)" where
  "start_request path flag m =
     (if (case m path of Some a \<Rightarrow> ae_held a = None | None \<Rightarrow> False) then (Inl ''already_asking'', m)
      else (Inr (), m(path \<mapsto> \<lparr>ae_cancel = flag, ae_held = None\<rparr>)))"

definition hold :: "string \<Rightarrow> held \<Rightarrow> (string \<rightharpoonup> active) \<Rightarrow> (string \<rightharpoonup> active)" where
  "hold path h m = (case m path of Some a \<Rightarrow> m(path \<mapsto> a\<lparr>ae_held := Some h\<rparr>) | None \<Rightarrow> m)"

definition cancel_request :: "string \<Rightarrow> (string \<rightharpoonup> active) \<Rightarrow> nat set \<Rightarrow> nat set" where
  "cancel_request path m flags = (case m path of Some a \<Rightarrow> insert (ae_cancel a) flags | None \<Rightarrow> flags)"

text \<open>What the local record says of an end.\<close>

fun outcome_record :: "outcome \<Rightarrow> (audit_event \<times> string option) option" where
  "outcome_record (OcGranted perm _) = Some (AeGranted, Some (decision_word perm))"
| "outcome_record OcDenied = Some (AeDenied, None)"
| "outcome_record OcExpired = Some (AeFailed, Some ''no_answer'')"
| "outcome_record (OcFailed reason) = Some (AeFailed, Some reason)"
| "outcome_record OcCancelled = None"

fun end_record :: "grant_end \<Rightarrow> audit_event option" where
  "end_record GeRevoked = Some AeRevoked"
| "end_record GeExpired = Some AeExpired"
| "end_record GeCancelled = None"

text \<open>The task a request runs in: the record, the wait, what is held for the open step, and the watch. The
  writer \<open>rec\<close> is \<open>AuditLog::record\<close> for the file and this machine's role.\<close>

definition request_task ::
  "'x proto_lib_scheme \<Rightarrow> (audit_event \<Rightarrow> string option \<Rightarrow> audit_file \<Rightarrow> audit_file) \<Rightarrow> asking \<Rightarrow> device_identity \<Rightarrow>
     client_error + delivery \<Rightarrow> client_error + delivery \<Rightarrow> bytes \<Rightarrow> u64 \<Rightarrow> (nat \<Rightarrow> turn) \<Rightarrow> (nat \<Rightarrow> turn) \<Rightarrow> nat \<Rightarrow> string \<Rightarrow>
     (string \<rightharpoonup> active) \<Rightarrow> audit_file \<Rightarrow> ((string \<rightharpoonup> active) \<times> audit_file) option" where
  "request_task X rec q dev announced sent rnonce now turns wturns fuel path m f =
     (let f1 = rec AeRequested None f in
      case ask X q dev announced sent rnonce now turns fuel of
        None \<Rightarrow> None
      | Some ((oc, h), _, _) \<Rightarrow>
          let f2 = (case outcome_record oc of Some (k, detail) \<Rightarrow> rec k detail f1 | None \<Rightarrow> f1);
              m1 = hold path h m
          in (case (oc, he_terms h) of
                (OcGranted _ expiry, Some t) \<Rightarrow>
                  (case watch_grant X (as_chain q) (struct_hash X t) expiry wturns fuel 0 (he_session h) of
                     None \<Rightarrow> None
                   | Some (ge, s', _) \<Rightarrow>
                       Some (hold path (h\<lparr>he_session := s'\<rparr>) m1,
                             case end_record ge of Some k \<Rightarrow> rec k None f2 | None \<Rightarrow> f2))
              | _ \<Rightarrow> Some (m1, f2)))"

subsection \<open>Lemmas\<close>

lemma chain_says_simps: "chain_says tn gid = map_err ChUnreachable (tn_valid tn)"
  by (simp add: chain_says_def is_grant_valid_def split: sum.split)

lemma classify_granted:
  "classify X e rnonce tg kh = MGranted perm t env tx \<longleftrightarrow>
     (\<exists>s g bs. re_kind e = KGrant \<and> signed_from_bytes X (re_body e) = Inr s \<and> sg_kind s = KGrant \<and>
        msg_dec (GrantMsg X) (sg_payload s) = Some g \<and> gm_request_nonce g = rnonce \<and>
        gm_decision g = permission_u8 perm \<and> perm \<noteq> Deny \<and> gm_grant g = Some bs \<and> terms_from_cbor X bs = Inr t \<and>
        gt_file_id t = tg_fid tg \<and> gt_header_hash t = tg_header_hash tg \<and> gt_device_key_hash t = kh \<and>
        gt_request_nonce t = rnonce \<and> gt_permission t = permission_u8 perm \<and> env = gm_envelope g \<and> tx = gm_tx_hash g)"
  by (cases perm) (auto simp: classify_def classify_terms_def decision_of_def split: sum.splits option.splits if_splits)

text \<open>How a wait can end, as one case distinction for the proofs below.\<close>

definition end_state :: "outcome \<Rightarrow> sess_state" where
  "end_state oc = (case oc of OcGranted _ _ \<Rightarrow> StGranted | OcDenied \<Rightarrow> StDenied | OcExpired \<Rightarrow> StClosed
     | OcCancelled \<Rightarrow> StFailed | OcFailed _ \<Rightarrow> StFailed)"

definition bound_to :: "'x proto_lib_scheme \<Rightarrow> asking \<Rightarrow> bytes \<Rightarrow> turn \<Rightarrow> permission \<Rightarrow> access_grant_terms \<Rightarrow> bytes option \<Rightarrow> bool" where
  "bound_to X q rnonce tn perm t env \<longleftrightarrow>
     (\<exists>e es tx. tn_inbox tn = Inr es \<and> e \<in> set es \<and>
        classify X e rnonce (as_target q) (as_our_key_hash q) = MGranted perm t env tx \<and>
        (as_chain q \<and> tx \<noteq> None \<longrightarrow> chain_says tn (struct_hash X t) \<noteq> Inr False)) \<and>
     gt_not_before t \<le> tn_now tn \<and> tn_now tn < gt_expiry t"

definition proper_end :: "'x proto_lib_scheme \<Rightarrow> asking \<Rightarrow> bytes \<Rightarrow> (nat \<Rightarrow> turn) \<Rightarrow> outcome \<times> held \<Rightarrow> bool" where
  "proper_end X q rnonce turns = (\<lambda>(oc, h).
     se_state (he_session h) = end_state oc \<and>
     (case oc of
        OcGranted perm expiry \<Rightarrow> (\<exists>i t. he_terms h = Some t \<and> expiry = gt_expiry t \<and> bound_to X q rnonce (turns i) perm t (he_envelope h) \<and>
          he_session h = session_new\<lparr>se_state := StGranted, se_permission := Some perm, se_not_before := gt_not_before t,
            se_expiry := gt_expiry t, se_max_opens := gt_max_opens t\<rparr>)
      | _ \<Rightarrow> he_terms h = None \<and> he_envelope h = None))"

lemma bound_toD:
  assumes "bound_to X q rnonce tn perm t env"
  shows "gt_file_id t = tg_fid (as_target q)" "gt_header_hash t = tg_header_hash (as_target q)"
    "gt_device_key_hash t = as_our_key_hash q" "gt_request_nonce t = rnonce" "gt_permission t = permission_u8 perm"
    "perm \<noteq> Deny" "gt_not_before t \<le> tn_now tn" "tn_now tn < gt_expiry t"
  using assms by (auto simp: bound_to_def classify_granted)

lemma ended_new:
  "se_state (he_session (ended (EvFailed r) now session_new)) = StFailed"
  "se_state (he_session (ended EvDenied now session_new)) = StDenied"
  "se_state (he_session (ended EvExpired now session_new)) = StClosed"
  "he_terms (ended ev now s) = None" "he_envelope (ended ev now s) = None"
  by (simp_all add: ended_def session_new_def apply_defs)

lemma failed_proper: "proper_end X q rnonce turns (fst (failed_with reason now session_new))"
  by (simp add: failed_with_def proper_end_def end_state_def ended_new)

lemma granted_new:
  "apply_event session_new (EvGranted perm nb ex mo) now =
     (if perm = Deny then (Inl TeDenyIsNotAGrant, session_new)
      else if now < nb then (Inl TeNotYetValid, session_new)
      else if ex \<le> now then (Inl TeAlreadyExpired, session_new)
      else (Inr [EfMaterialisePlaintext],
            session_new\<lparr>se_state := StGranted, se_permission := Some perm, se_not_before := nb, se_expiry := ex, se_max_opens := mo\<rparr>))"
  by (simp add: apply_event_def apply_granted_def session_new_def)

lemma take_grant_proper:
  assumes "turns i = tn" and "tn_inbox tn = Inr es" and "e \<in> set es"
    and "classify X e rnonce (as_target q) (as_our_key_hash q) = MGranted perm t env tx"
  shows "proper_end X q rnonce turns (fst (take_grant X q tn session_new perm t env tx))"
proof (cases "as_chain q \<and> tx \<noteq> None \<and> chain_says tn (struct_hash X t) = Inr False")
  case True
  then show ?thesis by (simp add: take_grant_def failed_proper)
next
  case False
  have nd: "perm \<noteq> Deny" using assms(4) by (auto simp: classify_granted)
  show ?thesis
  proof (cases "gt_not_before t \<le> tn_now tn \<and> tn_now tn < gt_expiry t")
    case True
    then have "bound_to X q rnonce (turns i) perm t env" using assms False by (auto simp: bound_to_def)
    then show ?thesis
      using True False nd by (auto simp: take_grant_def granted_new proper_end_def end_state_def not_less not_le Let_def)
  next
    case win: False
    then show ?thesis
      using False nd failed_proper by (auto simp: take_grant_def granted_new not_less not_le Let_def)
  qed
qed

lemma scan_proper:
  assumes "turns i = tn" and "tn_inbox tn = Inr es0" and "set es \<subseteq> set es0"
    and "scan_inbox X q rnonce tn session_new es = Some (r, ups)"
  shows "proper_end X q rnonce turns r"
  using assms(3,4)
proof (induction es)
  case (Cons e es)
  show ?case
  proof (cases "classify X e rnonce (as_target q) (as_our_key_hash q)")
    case NotOurs
    then show ?thesis using Cons by simp
  next
    case MDenied
    then show ?thesis using Cons.prems by (auto simp: proper_end_def end_state_def ended_new)
  next
    case (MGranted perm t env tx)
    then show ?thesis using Cons.prems take_grant_proper [of turns i tn es0 e X rnonce q perm t env tx, OF assms(1,2) _ MGranted] by auto
  next
    case (Mismatch w)
    then show ?thesis using Cons.prems failed_proper [of X q rnonce turns "''mismatch''" "tn_now tn"] by auto
  qed
qed simp

lemma ask_loop_proper:
  "ask_loop X q rnonce turns fuel i nudged session_new = Some (r, ups) \<Longrightarrow> proper_end X q rnonce turns r"
proof (induction fuel arbitrary: i nudged r ups)
  case (Suc fuel)
  let ?tn = "turns i"
  show ?case
  proof (cases "tn_cancel ?tn \<or> li_give_up_after (as_limits q) \<le> tn_waited ?tn")
    case True
    then show ?thesis
      using Suc.prems by (auto simp: Let_def proper_end_def end_state_def ended_new split: if_splits)
  next
    case False
    let ?envs = "case tn_inbox ?tn of Inr l \<Rightarrow> l | Inl _ \<Rightarrow> []"
    show ?thesis
    proof (cases "scan_inbox X q rnonce ?tn session_new ?envs")
      case None
      then show ?thesis using Suc.prems False Suc.IH by (auto simp: Let_def)
    next
      case (Some ru)
      obtain es where es: "tn_inbox ?tn = Inr es" using Some by (cases "tn_inbox ?tn") auto
      have "r = fst ru" using Suc.prems False Some by (auto simp: Let_def split: prod.splits)
      then show ?thesis using scan_proper [of turns i ?tn es es X q rnonce r "snd ru"] Some es by simp
    qed
  qed
qed simp

lemma ask_loop_ends:
  assumes "li_give_up_after (as_limits q) \<le> tn_waited (turns j)" and "i \<le> j" and "j < i + fuel"
  shows "\<exists>r. ask_loop X q rnonce turns fuel i nudged s = Some r"
  using assms(2,3)
proof (induction fuel arbitrary: i nudged)
  case (Suc fuel)
  show ?case
  proof (cases "i = j")
    case True
    then show ?thesis using assms(1) by (simp add: Let_def)
  next
    case False
    have "\<exists>r. ask_loop X q rnonce turns fuel (Suc i) nd s = Some r" for nd
      using Suc False by simp
    then show ?thesis
      by (auto simp: Let_def split: option.split)
  qed
qed simp

text \<open>What ends a watch in one turn.\<close>

definition turn_end :: "'x proto_lib_scheme \<Rightarrow> bool \<Rightarrow> bytes \<Rightarrow> u64 \<Rightarrow> turn \<Rightarrow> grant_end option" where
  "turn_end X chain gid expiry tn =
     (if tn_cancel tn then Some GeCancelled
      else if expiry \<le> tn_now tn then Some GeExpired
      else if chain \<and> tn_valid tn = Inr False \<or>
              (\<exists>es e. tn_inbox tn = Inr es \<and> e \<in> set es \<and> is_revoke_for X e gid) then Some GeRevoked
      else None)"

fun watched_state :: "grant_end \<Rightarrow> session \<Rightarrow> sess_state" where
  "watched_state GeRevoked s = StRevoked"
| "watched_state GeExpired s = StClosed"
| "watched_state GeCancelled s = se_state s"

lemma watch_step:
  "turn_end X chain gid expiry (turns i) = Some ge \<Longrightarrow> \<not> is_terminal (se_state s) \<Longrightarrow>
     \<exists>s' ups. watch_grant X chain gid expiry turns (Suc fuel) i s = Some (ge, s', ups) \<and> se_state s' = watched_state ge s"
  "turn_end X chain gid expiry (turns i) = None \<Longrightarrow>
     watch_grant X chain gid expiry turns (Suc fuel) i s = watch_grant X chain gid expiry turns fuel (Suc i) s"
  by (auto simp: turn_end_def chain_says_simps map_err_eq_Inr apply_event_def apply_revoked_def apply_expired_def
      list_ex_iff Let_def split: if_splits sum.splits sess_state.splits)

section \<open>Properties\<close>

text \<open>C9. An approval opens only what was asked for: when a request ends as granted, the terms held were in the
  inbox in some turn and name this file, this version, this device and this request, with the permission
  reported; they are in force at that turn; the chain did not deny them when it was asked; and the session
  is granted with exactly their window and budget. On every other end no terms and no key are held, and
  the session is in the state of that end.\<close>

theorem approval_bound_to_request:
  assumes "ask X q dev announced sent rnonce now turns fuel = Some ((oc, h), ups, req)"
  shows "case oc of
    OcGranted perm expiry \<Rightarrow>
      (\<exists>i t. he_terms h = Some t \<and> expiry = gt_expiry t \<and>
        gt_file_id t = tg_fid (as_target q) \<and> gt_header_hash t = tg_header_hash (as_target q) \<and>
        gt_device_key_hash t = as_our_key_hash q \<and> gt_request_nonce t = rnonce \<and> gt_permission t = permission_u8 perm \<and>
        perm \<noteq> Deny \<and> gt_not_before t \<le> tn_now (turns i) \<and> tn_now (turns i) < gt_expiry t \<and>
        bound_to X q rnonce (turns i) perm t (he_envelope h) \<and>
        he_session h = session_new\<lparr>se_state := StGranted, se_permission := Some perm, se_not_before := gt_not_before t,
            se_expiry := gt_expiry t, se_max_opens := gt_max_opens t\<rparr>)
  | _ \<Rightarrow> he_terms h = None \<and> he_envelope h = None \<and> se_state (he_session h) = end_state oc"
proof -
  have "proper_end X q rnonce turns (oc, h)"
    using assms ask_loop_proper [of X q rnonce turns fuel 0 False "(oc, h)"]
      failed_proper [of X q rnonce turns _ now]
    by (auto simp: ask_def Let_def failed_with_def split: sum.splits)
  then show ?thesis
    by (cases oc) (fastforce simp: proper_end_def dest: bound_toD)+
qed

text \<open>The sample approval, in the inbox at the first turn.\<close>

definition sample_turn :: turn where
  "sample_turn = \<lparr>tn_cancel = False, tn_waited = 0,
     tn_inbox = Inr [\<lparr>re_id = [], re_kind = KGrant, re_body = [7], re_queued_at = 90\<rparr>], tn_valid = Inl [], tn_now = 100\<rparr>"

definition sample_asking :: asking where
  "sample_asking = \<lparr>as_target = \<lparr>tg_fid = replicate 32 1, tg_header_hash = replicate 32 7, tg_owner = [1]\<rparr>,
     as_requested = Edit, as_our_key_hash = replicate 32 3, as_limits = default_limits, as_chain = False\<rparr>"

lemma sample_classified:
  "classify sampleP \<lparr>re_id = [], re_kind = KGrant, re_body = [7], re_queued_at = 90\<rparr> (replicate 16 4)
     (as_target sample_asking) (replicate 32 3) = MGranted Edit sample_terms (Some [8]) None"
  by (simp add: classify_def signed_from_bytes_def MAX_BODY_LEN_def sample_values_def sample_signed_def GrantMsg_def
      terms_from_cbor_def decision_of_def classify_terms_def sample_terms_def sample_asking_def Let_def)

theorem approval_bound_to_request_witness:
  "\<exists>h ups req. ask sampleP sample_asking sample_dev (Inr AlreadyDelivered) (Inr AlreadyDelivered) (replicate 16 4) 90
      (\<lambda>_. sample_turn) 1 = Some ((OcGranted Edit 3700, h), ups, req) \<and>
    he_terms h = Some sample_terms \<and> se_state (he_session h) = StGranted \<and>
    gt_device_key_hash sample_terms = as_our_key_hash sample_asking"
proof -
  have "\<exists>h ups req. ask sampleP sample_asking sample_dev (Inr AlreadyDelivered) (Inr AlreadyDelivered) (replicate 16 4) 90
      (\<lambda>_. sample_turn) 1 = Some ((OcGranted Edit 3700, h), ups, req) \<and> he_terms h = Some sample_terms"
    using sample_classified
    by (simp add: ask_def sample_turn_def sample_asking_def default_limits_def take_grant_def granted_new sample_terms_def
        Let_def)
  then obtain h ups req where run: "ask sampleP sample_asking sample_dev (Inr AlreadyDelivered) (Inr AlreadyDelivered)
      (replicate 16 4) 90 (\<lambda>_. sample_turn) 1 = Some ((OcGranted Edit 3700, h), ups, req)" and t: "he_terms h = Some sample_terms"
    by blast
  then show ?thesis using approval_bound_to_request [OF run] by auto
qed

text \<open>C18. Asking always comes to an end: whatever the relay delivers and however often it fails, a wait whose
  turns are at least one poll interval apart returns within the give-up time divided by the interval,
  plus one, turns - 151 with the limits the agent uses.\<close>

theorem ask_ends:
  assumes "0 < li_poll (as_limits q)" and "\<forall>i. i * li_poll (as_limits q) \<le> tn_waited (turns i)"
    and "(li_give_up_after (as_limits q) + li_poll (as_limits q) - 1) div li_poll (as_limits q) < fuel"
  shows "\<exists>oc h ups req. ask X q dev announced sent rnonce now turns fuel = Some ((oc, h), ups, req)"
proof -
  let ?p = "li_poll (as_limits q)" and ?g = "li_give_up_after (as_limits q)"
  let ?j = "(?g + ?p - 1) div ?p"
  have "?g + ?p - 1 = ?j * ?p + (?g + ?p - 1) mod ?p" by simp
  moreover have "(?g + ?p - 1) mod ?p < ?p" using assms(1) by simp
  ultimately have "?g \<le> ?j * ?p" by linarith
  then have "?g \<le> tn_waited (turns ?j)" using assms(2) le_trans by blast
  then have "\<exists>r. ask_loop X q rnonce turns fuel 0 False session_new = Some r"
    using ask_loop_ends [of q turns ?j 0 fuel] assms(3) by simp
  then show ?thesis by (auto simp: ask_def Let_def failed_with_def split: sum.split)
qed

theorem ask_ends_witness:
  "\<exists>oc h ups req. ask sampleP sample_asking sample_dev (Inr AlreadyDelivered) (Inr AlreadyDelivered) (replicate 16 4) 90
     (\<lambda>i. sample_turn\<lparr>tn_waited := i * 2000, tn_inbox := Inl (ClUnreachable [])\<rparr>) 151 = Some ((oc, h), ups, req)"
  by (rule ask_ends) (simp_all add: sample_asking_def default_limits_def)



text \<open>An approval that was never written to the chain is taken for revoked in the first turn on a machine that
  has a chain link.\<close>

theorem relay_only_approval_taken_for_revoked:
  assumes "\<not> tn_cancel (turns 0)" and "tn_now (turns 0) < expiry" and "tn_valid (turns 0) = Inr False"
    and "\<not> is_terminal (se_state s)"
  shows "\<exists>s' ups. watch_grant X True gid expiry turns (Suc fuel) 0 s = Some (GeRevoked, s', ups) \<and> se_state s' = StRevoked"
  using watch_step(1) [of X True gid expiry turns 0 GeRevoked s fuel] assms by (simp add: turn_end_def)

end
