(* ===== verification/Agent_Open.thy ===== *)
theory Agent_Open
  imports Request Workspace
begin

text \<open>
  Opening a granted file (\<open>apps/agent/src-tauri/src/open.rs\<close>) and the session around it
  (\<open>session.rs\<close>): decrypting into a workspace, closing and wiping, resealing a save as the next
  version, and the loop that waits for the viewer, a save, the owner or the clock. What the operating
  system and the viewer do in a step are arguments, one record per step.
\<close>

subsection \<open>open.rs: materialise\<close>

record materialised =
  ma_workspace :: workspace
  ma_plain :: path
  ma_name :: string
  ma_effects :: "sess_effect list"

text \<open>The bytes of a name as the string the path functions take.\<close>

definition name_string :: "bytes \<Rightarrow> string" where
  "name_string bs = map (\<lambda>b. char_of (unat b)) bs"

record open_world =
  ow_now :: u64
  ow_workspace :: bool
  ow_create :: bool
  ow_rename :: bool
  ow_locked :: "path set"
  ow_rm :: "path set option"
  ow_entries :: "path list"

definition read_granted ::
  "'x agent_lib_scheme \<Rightarrow> path \<Rightarrow> held \<Rightarrow> device_keys \<Rightarrow> fs \<Rightarrow> string + (bytes \<times> header \<times> bytes \<times> bytes)" where
  "read_granted A sealed h dev fs =
     rbind (ok_or (he_terms h) ''not_granted'') (\<lambda>t.
     rbind (ok_or (he_envelope h) ''not_granted'') (\<lambda>bs.
       if se_state (he_session h) \<noteq> StGranted then Inl ''not_granted''
       else rbind (ok_or (snd (codec_envelope A) bs) ''envelope'') (\<lambda>env.
         rbind (map_err (\<lambda>_. ''envelope'') (envelope_open A env dev (struct_hash A t))) (\<lambda>dek.
         rbind (ok_or (fs sealed) ''missing'') (\<lambda>file.
         rbind (map_err (\<lambda>_. ''damaged'') (read_header A file)) (\<lambda>(hdr, hh, rest).
           if hh \<noteq> gt_header_hash t then Inl ''version'' else Inr (dek, hdr, hh, rest)))))))"

text \<open>The part after the session has counted the open: the workspace, the plaintext, its name and mode.\<close>

definition place ::
  "'x agent_lib_scheme \<Rightarrow> open_world \<Rightarrow> string list \<Rightarrow> string \<Rightarrow> sess_effect list \<Rightarrow> bytes \<times> header \<times> bytes \<times> bytes \<Rightarrow> disk \<Rightarrow>
     (string + materialised) \<times> disk" where
  "place A w base sid effects = (\<lambda>(dek, hdr, hh, rest) d.
     if \<not> ow_workspace w then (Inl ''workspace'', d)
     else case workspace_create base sid d of
       (Inl _, d1) \<Rightarrow> (Inl ''workspace'', d1)
     | (Inr ws, d1) \<Rightarrow>
         (case workspace_file ws ''opened.bin'' of
            Inl _ \<Rightarrow> (Inl ''workspace'', d1)
          | Inr plain \<Rightarrow>
              if \<not> ow_create w then (Inl ''workspace'', d1)
              else (case open_with_dek A hdr hh rest dek of
                (Inl _, out) \<Rightarrow>
                  (Inl ''damaged'',
                   snd (wipe (ow_locked w) (ow_rm w) (ow_entries w) ws (d1\<lparr>dk_files := (dk_files d1)(plain \<mapsto> out)\<rparr>)))
              | (Inr opened, out) \<Rightarrow>
                  let d2 = d1\<lparr>dk_files := (dk_files d1)(plain \<mapsto> out)\<rparr>; name = name_string (op_file_name opened) in
                  (case workspace_file ws name of
                     Inl _ \<Rightarrow> (Inl ''workspace'', d2)
                   | Inr named \<Rightarrow>
                       if \<not> ow_rename w then (Inl ''workspace'', d2)
                       else
                         let d3 = d2\<lparr>dk_files := (dk_files d2)(plain := None, named \<mapsto> out)\<rparr>;
                             mat = \<lparr>ma_workspace = ws, ma_plain = named, ma_name = name, ma_effects = effects\<rparr>
                         in if EfMarkReadOnly \<in> set effects
                            then (case mark_read_only ws name d3 of
                                    (Inl _, d4) \<Rightarrow> (Inl ''workspace'', d4)
                                  | (Inr _, d4) \<Rightarrow> (Inr mat, d4))
                            else (Inr mat, d3)))))"

definition materialise ::
  "'x agent_lib_scheme \<Rightarrow> open_world \<Rightarrow> path \<Rightarrow> device_keys \<Rightarrow> string list \<Rightarrow> string \<Rightarrow> held \<Rightarrow> disk \<Rightarrow>
     (string + materialised) \<times> held \<times> disk" where
  "materialise A w sealed dev base sid h d =
     (case read_granted A sealed h dev (dk_files d) of
        Inl e \<Rightarrow> (Inl e, h, d)
      | Inr k \<Rightarrow>
          (case apply_event (he_session h) EvOpened (ow_now w) of
             (Inl _, s) \<Rightarrow> (Inl ''not_granted'', h\<lparr>he_session := s\<rparr>, d)
           | (Inr effects, s) \<Rightarrow>
               if EfWipeWorkspace \<in> set effects then (Inl ''opens_exhausted'', h\<lparr>he_session := s\<rparr>, d)
               else let (r, d') = place A w base sid effects k d in (r, h\<lparr>he_session := s\<rparr>, d')))"

subsection \<open>open.rs: close and save\<close>

definition close ::
  "open_world \<Rightarrow> materialised \<Rightarrow> sess_event \<Rightarrow> held \<Rightarrow> disk \<Rightarrow> (string + sess_effect list) \<times> held \<times> disk" where
  "close w mat ev h d =
     (case apply_event (he_session h) ev (ow_now w) of
        (Inl _, s) \<Rightarrow> (Inl ''session'', h\<lparr>he_session := s\<rparr>, d)
      | (Inr effects, s) \<Rightarrow>
          let h' = h\<lparr>he_session := s\<rparr> in
          if ws_root (ma_workspace mat) \<notin> dk_dirs d then (Inr effects, h', d)
          else
            let d1 = snd (clear_read_only (ma_workspace mat) (ma_name mat) d) in
            (case wipe (ow_locked w) (ow_rm w) (ow_entries w) (ma_workspace mat) d1 of
               (Inl _, d2) \<Rightarrow> (Inl ''wipe'', h', d2)
             | (Inr _, d2) \<Rightarrow> (Inr effects, h', d2)))"

record save_world =
  sw_io :: io_env
  sw_rng :: seal_rng
  sw_relay :: bool
  sw_now :: u64

record saved =
  sa_ver :: u32
  sa_header_hash :: bytes

definition save_checked ::
  "'x agent_lib_scheme \<Rightarrow> path \<Rightarrow> held \<Rightarrow> device_keys \<Rightarrow> fs \<Rightarrow> string + (access_grant_terms \<times> bytes \<times> header \<times> bytes)" where
  "save_checked A sealed h dev fs =
     (if se_state (he_session h) \<noteq> StResealing then Inl ''not_saving''
      else rbind (ok_or (he_terms h) ''not_granted'') (\<lambda>t.
           rbind (ok_or (he_envelope h) ''not_granted'') (\<lambda>bs.
           rbind (ok_or (snd (codec_envelope A) bs) ''envelope'') (\<lambda>env.
           rbind (map_err (\<lambda>_. ''envelope'') (envelope_open A env dev (struct_hash A t))) (\<lambda>dek.
           rbind (ok_or (fs sealed) ''missing'') (\<lambda>file.
           rbind (map_err (\<lambda>_. ''damaged'') (inspect A file)) (\<lambda>(prev, prev_hash).
             if prev_hash \<noteq> gt_header_hash t then Inl ''version'' else Inr (t, dek, prev, prev_hash))))))))"

text \<open>The new version as the owner is told of it, read back from the container that was written.\<close>

definition save_notice ::
  "'x agent_lib_scheme \<Rightarrow> path \<Rightarrow> bytes \<Rightarrow> u64 \<Rightarrow> access_grant_terms \<Rightarrow> bytes \<Rightarrow> header \<Rightarrow> fs \<Rightarrow> string + version_msg" where
  "save_notice A sealed signer now t prev_hash hdr fs =
     rbind (ok_or (fs sealed) ''missing'') (\<lambda>file.
     rbind (map_err (\<lambda>_. ''damaged'') (inspect A file)) (\<lambda>(_, new_hash).
     rbind (map_err (\<lambda>_. ''failed'') (fst (codec_envelope A) (hd (hb_env (hdr_body hdr))))) (\<lambda>owner_env.
       Inr \<lparr>vm_fid = hb_fid (hdr_body hdr), vm_owner = hb_own (hdr_body hdr), vm_prev_header_hash = prev_hash,
            vm_header_hash = new_hash, vm_ver = hb_ver (hdr_body hdr), vm_grant_id = struct_hash A t,
            vm_owner_envelope = owner_env, vm_ed25519_pub = verifying_key A signer, vm_ts = now\<rparr>)))"

text \<open>The notice handed to the relay is part of the result.\<close>

definition save ::
  "'x agent_lib_scheme \<Rightarrow> save_world \<Rightarrow> path \<Rightarrow> materialised \<Rightarrow> device_keys \<Rightarrow> bytes \<Rightarrow> held \<Rightarrow> disk \<Rightarrow>
     (string + saved) \<times> held \<times> disk \<times> version_msg option" where
  "save A w sealed mat dev signer h d =
     (case save_checked A sealed h dev (dk_files d) of
        Inl e \<Rightarrow> (Inl e, h, d, None)
      | Inr (t, dek, prev, prev_hash) \<Rightarrow>
          (case reseal_as_recipient_to_path A (sw_io w) (sw_rng w) (ma_plain mat) sealed dek signer
                  (hb_pol (hdr_body prev)) (dk_files d) of
             (Inl e, fs) \<Rightarrow> (Inl (if e = NoOwnerKey then ''no_owner_key'' else ''failed''), h, d\<lparr>dk_files := fs\<rparr>, None)
           | (Inr hdr, fs) \<Rightarrow>
               let d' = d\<lparr>dk_files := fs\<rparr> in
               (case save_notice A sealed signer (sw_now w) t prev_hash hdr fs of
                  Inl e \<Rightarrow> (Inl e, h, d', None)
                | Inr n \<Rightarrow>
                    if \<not> sw_relay w then (Inl ''relay_unreachable'', h, d', Some n)
                    else (Inr \<lparr>sa_ver = hb_ver (hdr_body hdr), sa_header_hash = vm_header_hash n\<rparr>,
                          h\<lparr>he_session := snd (apply_event (he_session h) (EvResealed (hb_ver (hdr_body hdr))) (sw_now w))\<rparr>,
                          d', Some n))))"

definition can_edit :: "held \<Rightarrow> bool" where
  "can_edit h \<longleftrightarrow> se_permission (he_session h) = Some Edit"

subsection \<open>session.rs: the session loop\<close>

datatype report = Phase string | Audited audit_event "string option"

datatype sess_end = EndClosed | EndRevoked | EndExpired | EndFailed string

text \<open>One turn of the loop: the lock-now flag, what the grant watcher says, the clock, whether the viewer still
  runs, what the viewer did to the disk, the watcher's event, and the world of a save.\<close>

record sess_turn =
  rt_cancel :: bool
  rt_outside :: "sess_state option"
  rt_now :: u64
  rt_running :: "bool option"
  rt_disk :: "disk \<Rightarrow> disk"
  rt_event :: "save_event option"
  rt_save :: save_world

definition end_event :: "sess_end \<Rightarrow> sess_event" where
  "end_event e = (case e of EndClosed \<Rightarrow> EvViewerExited | EndRevoked \<Rightarrow> EvRevoked | EndExpired \<Rightarrow> EvExpired
     | EndFailed reason \<Rightarrow> EvFailed reason)"

text \<open>What a save does to the session: an end, or on with the loop. The last component is what the
  screen is told and the local record gets.\<close>

definition on_save ::
  "'x agent_lib_scheme \<Rightarrow> sess_turn \<Rightarrow> path \<Rightarrow> materialised \<Rightarrow> device_keys \<Rightarrow> bytes \<Rightarrow> held \<Rightarrow> disk \<Rightarrow>
     sess_end option \<times> held \<times> disk \<times> report list" where
  "on_save A tn sealed mat dev signer h d =
     (case apply_event (he_session h) EvSaved (rt_now tn) of
        (Inl _, s) \<Rightarrow> (None, h\<lparr>he_session := s\<rparr>, d, [])
      | (Inr effects, s) \<Rightarrow>
          let h1 = h\<lparr>he_session := s\<rparr> in
          if EfReseal \<notin> set effects then (None, h1, d, [Phase ''discarded''])
          else (case save A (rt_save tn) sealed mat dev signer h1 d of
                  (Inr _, h2, d2, _) \<Rightarrow> (None, h2, d2, [Phase ''saved'', Audited AeSealed (Some ''resealed''), Phase ''resealed''])
                | (Inl e, h2, d2, _) \<Rightarrow>
                    (Some (EndFailed e), h2\<lparr>he_session := snd (apply_event (he_session h2) (EvFailed e) (rt_now tn))\<rparr>, d2,
                     [Phase ''saved'', Phase ''problem''])))"

text \<open>One turn of the loop: an end, or on with what is held and the disk.\<close>

definition session_turn ::
  "'x agent_lib_scheme \<Rightarrow> path \<Rightarrow> materialised \<Rightarrow> device_keys \<Rightarrow> bytes \<Rightarrow> u64 \<Rightarrow> sess_turn \<Rightarrow> held \<Rightarrow> disk \<Rightarrow>
     sess_end option \<times> held \<times> disk \<times> report list" where
  "session_turn A sealed mat dev signer expiry tn h d =
     (let d0 = rt_disk tn d in
      if rt_cancel tn then (Some EndClosed, h, d0, [])
      else if rt_outside tn = Some StRevoked then (Some EndRevoked, h, d0, [])
      else if rt_outside tn = Some StClosed then (Some EndExpired, h, d0, [])
      else if expiry \<le> rt_now tn then (Some EndExpired, h, d0, [])
      else if rt_running tn = Some False then (Some EndClosed, h, d0, [])
      else if rt_event tn = Some SvSaved then on_save A tn sealed mat dev signer h d0
      else (None, h, d0, []))"

fun session_loop ::
  "'x agent_lib_scheme \<Rightarrow> path \<Rightarrow> materialised \<Rightarrow> device_keys \<Rightarrow> bytes \<Rightarrow> u64 \<Rightarrow> sess_turn list \<Rightarrow> held \<Rightarrow> disk \<Rightarrow>
     (sess_end \<times> held \<times> disk \<times> report list) option" where
  "session_loop A sealed mat dev signer expiry [] h d = None"
| "session_loop A sealed mat dev signer expiry (tn # tns) h d =
     (case session_turn A sealed mat dev signer expiry tn h d of
        (Some e, h1, d1, reports) \<Rightarrow> Some (e, h1, d1, reports)
      | (None, h1, d1, reports) \<Rightarrow>
          map_option (\<lambda>(e, h2, d2, ps). (e, h2, d2, reports @ ps)) (session_loop A sealed mat dev signer expiry tns h1 d1))"

definition end_reports :: "sess_end \<Rightarrow> report list" where
  "end_reports e =
     (case e of
        EndClosed \<Rightarrow> [Phase ''closed'']
      | EndRevoked \<Rightarrow> [Audited AeRevoked None, Phase ''revoked'']
      | EndExpired \<Rightarrow> [Audited AeExpired None, Phase ''expired'']
      | EndFailed _ \<Rightarrow> [Phase ''problem''])"

definition permission_word :: "permission option \<Rightarrow> string" where
  "permission_word p = (if p = Some Edit then ''edit'' else ''read_only'')"

definition run_session ::
  "'x agent_lib_scheme \<Rightarrow> open_world \<Rightarrow> open_world \<Rightarrow> bool \<Rightarrow> path \<Rightarrow> device_keys \<Rightarrow> bytes \<Rightarrow> string list \<Rightarrow> string \<Rightarrow> sess_turn list \<Rightarrow>
     held \<Rightarrow> disk \<Rightarrow> (sess_end \<times> held \<times> disk \<times> report list) option" where
  "run_session A w cw launched sealed dev signer base sid tns h d =
     (let expiry = (case he_terms h of Some t \<Rightarrow> gt_expiry t | None \<Rightarrow> 0) in
      case materialise A w sealed dev base sid h d of
        (Inl e, h1, d1) \<Rightarrow> Some (EndFailed e, h1, d1, [Phase ''problem''])
      | (Inr mat, h1, d1) \<Rightarrow>
          if \<not> launched
          then (case close cw mat (EvFailed ''no_viewer'') h1 d1 of
                  (_, h2, d2) \<Rightarrow> Some (EndFailed ''no_viewer'', h2, d2, [Phase ''problem'']))
          else (case session_loop A sealed mat dev signer expiry tns h1 d1 of
                  None \<Rightarrow> None
                | Some (e, h2, d2, reports) \<Rightarrow>
                    (case close cw mat (end_event e) h2 d2 of
                       (_, h3, d3) \<Rightarrow> Some (e, h3, d3, [Audited AeOpened (Some (permission_word (se_permission (he_session h)))), Phase ''opened'']
                              @ reports @ end_reports e))))"

subsection \<open>Lemmas\<close>

lemma read_granted_Inr:
  assumes "read_granted A sealed h dev fs = Inr (dek, hdr, hh, rest)"
  obtains t bs env fl where "he_terms h = Some t" "he_envelope h = Some bs" "se_state (he_session h) = StGranted"
    "snd (codec_envelope A) bs = Some env" "envelope_open A env dev (struct_hash A t) = Inr dek"
    "fs sealed = Some fl" "read_header A fl = Inr (hdr, hh, rest)" "hh = gt_header_hash t"
  using assms by (fastforce simp: read_granted_def rbind_eq_Inr ok_or_eq_Inr map_err_eq_Inr split: if_splits)

lemma workspace_create_Inr:
  assumes "workspace_create base sid d = (Inr ws, d')"
  shows "ws_root ws = base @ [sid]" "dk_files d' = dk_files d" "dk_readonly d' = dk_readonly d" "ws_root ws \<in> dk_dirs d'"
proof -
  have "\<exists>k. base @ [sid] = take k (base @ [sid])" by (rule exI [of _ "length (base @ [sid])"]) simp
  then show "ws_root ws = base @ [sid]" "dk_files d' = dk_files d" "dk_readonly d' = dk_readonly d" "ws_root ws \<in> dk_dirs d'"
    using assms by (auto simp: workspace_create_def Let_def simp del: take_append split: if_splits)
qed

lemma place_Inr:
  assumes "place A w base sid effects (dek, hdr, hh, rest) d = (Inr mat, d')"
  obtains opened out where "open_with_dek A hdr hh rest dek = (Inr opened, out)" "ma_name mat = name_string (op_file_name opened)"
    "ws_root (ma_workspace mat) = base @ [sid]" "ma_plain mat = (base @ [sid], ma_name mat)" "dk_files d' (ma_plain mat) = Some out"
    "\<forall>p. fst p \<noteq> base @ [sid] \<longrightarrow> dk_files d' p = dk_files d p"
    "EfMarkReadOnly \<in> set effects \<longrightarrow> ma_plain mat \<in> dk_readonly d'" "base @ [sid] \<in> dk_dirs d'"
proof -
  obtain ws d1 where ws: "workspace_create base sid d = (Inr ws, d1)"
    using assms by (auto simp: place_def split: if_splits sum.splits prod.splits)
  have plain: "workspace_file ws ''opened.bin'' = Inr (ws_root ws, ''opened.bin'')" by (simp add: workspace_file_def)
  obtain opened out where od: "open_with_dek A hdr hh rest dek = (Inr opened, out)"
    using assms ws plain by (auto simp: place_def split: if_splits sum.splits prod.splits)
  let ?name = "name_string (op_file_name opened)"
  have named: "workspace_file ws ?name = Inr (ws_root ws, ?name)"
    using assms ws plain od by (auto simp: place_def workspace_file_def Let_def split: if_splits)
  let ?d3 = "d1\<lparr>dk_files := (dk_files d1)((ws_root ws, ''opened.bin'') := None, (ws_root ws, ?name) \<mapsto> out)\<rparr>"
  have mat: "ma_workspace mat = ws" "ma_plain mat = (ws_root ws, ?name)" "ma_name mat = ?name"
    and d': "d' = (if EfMarkReadOnly \<in> set effects then ?d3\<lparr>dk_readonly := insert (ws_root ws, ?name) (dk_readonly d1)\<rparr> else ?d3)"
    using assms ws plain od named
    by (auto simp: place_def mark_read_only_def Let_def split: if_splits prod.splits sum.splits)
  show thesis
    using that [OF od] mat d' workspace_create_Inr [OF ws] by auto
qed

lemma opened_session:
  assumes "apply_event s EvOpened now = (Inr es, s')" and "EfWipeWorkspace \<notin> set es"
  shows "s' = s\<lparr>se_opens := se_opens s + 1, se_state := StOpen\<rparr>"
    and "se_max_opens s = 0 \<or> se_opens s < se_max_opens s"
    and "EfMarkReadOnly \<in> set es \<longleftrightarrow> se_permission s = Some ReadOnly"
  using assms by (auto elim!: apply_okE split: if_splits)

lemma materialise_Inr:
  assumes "materialise A w sealed dev base sid h d = (Inr mat, h', d')"
  obtains dek hdr hh rest effects where "read_granted A sealed h dev (dk_files d) = Inr (dek, hdr, hh, rest)"
    "apply_event (he_session h) EvOpened (ow_now w) = (Inr effects, he_session h')" "EfWipeWorkspace \<notin> set effects"
    "h' = h\<lparr>he_session := he_session h'\<rparr>" "place A w base sid effects (dek, hdr, hh, rest) d = (Inr mat, d')"
  using assms by (auto simp: materialise_def Let_def split: sum.splits prod.splits if_splits)

lemma close_Inr_or:
  assumes "apply_event (he_session h) ev (ow_now w) = (Inr es, s)" and "ws_root (ma_workspace mat) \<in> dk_dirs d"
    and "close w mat ev h d = (r, h', d')"
  shows "\<exists>r2. wipe (ow_locked w) (ow_rm w) (ow_entries w) (ma_workspace mat)
     (snd (clear_read_only (ma_workspace mat) (ma_name mat) d)) = (r2, d')"
  using assms by (auto simp: close_def Let_def split: sum.splits prod.splits)

lemma clear_read_only_files [simp]: "dk_files (snd (clear_read_only ws name d)) = dk_files d"
  by (simp add: clear_read_only_def split: sum.split)

lemma close_clears:
  assumes "is_ok (fst (apply_event (he_session h) ev (ow_now w)))" and "ws_root (ma_workspace mat) \<in> dk_dirs d"
    and "set (ow_entries w) = {p. fst p = ws_root (ma_workspace mat) \<and> dk_files d p \<noteq> None}"
    and "close w mat ev h d = (r, h', d')"
  shows "(\<forall>p. fst p = ws_root (ma_workspace mat) \<and> p \<notin> ow_locked w \<longrightarrow> dk_files d' p = None) \<and>
    (\<forall>p content. fst p = ws_root (ma_workspace mat) \<and> p \<notin> ow_locked w \<and> dk_files d p = Some content \<longrightarrow>
       dk_residue d' p = Some (replicate (length content) 0))"
proof -
  obtain es s where "apply_event (he_session h) ev (ow_now w) = (Inr es, s)"
    using assms(1) by (metis is_ok_iff prod.collapse)
  from close_Inr_or [OF this assms(2,4)] obtain r2 where
    w: "wipe (ow_locked w) (ow_rm w) (ow_entries w) (ma_workspace mat)
     (snd (clear_read_only (ma_workspace mat) (ma_name mat) d)) = (r2, d')" by blast
  show ?thesis using wipe_cleared [OF w] assms(3) by simp
qed

lemma on_save_stays_open:
  assumes "on_save A tn sealed mat dev signer h d = (None, h', d', rs)" and "se_state (he_session h) = StOpen"
  shows "se_state (he_session h') = StOpen"
proof -
  obtain q s where a: "apply_event (he_session h) EvSaved (rt_now tn) = (q, s)" by fastforce
  show ?thesis
  proof (cases q)
    case (Inl e)
    then have "s = he_session h" using a apply_error_unchanged by blast
    then show ?thesis using assms a Inl by (auto simp: on_save_def)
  next
    case (Inr es)
    have s: "if EfReseal \<in> set es then se_state s = StResealing else s = he_session h"
      using a Inr assms(2) by (auto simp: apply_event_def apply_saved_def split: if_splits)
    show ?thesis
    proof (cases "EfReseal \<in> set es")
      case False
      then show ?thesis using assms a Inr s by (auto simp: on_save_def)
    next
      case True
      obtain r h2 d2 n where sv: "save A (rt_save tn) sealed mat dev signer (h\<lparr>he_session := s\<rparr>) d = (r, h2, d2, n)"
        by (metis surj_pair)
      then have "h' = h2" "is_ok r" using assms(1) a Inr True by (auto simp: on_save_def split: sum.splits)
      then show ?thesis
        using sv s True
        by (auto simp: save_def apply_event_def Let_def is_ok_iff split: if_splits sum.splits prod.splits)
    qed
  qed
qed

lemma session_turn_open:
  assumes "session_turn A sealed mat dev signer expiry tn h d = (stop, h', d', rs)" and "se_state (he_session h) = StOpen"
    and "\<And>reason. stop \<noteq> Some (EndFailed reason)"
  shows "se_state (he_session h') = StOpen"
proof -
  have "se_state (he_session h') = StOpen" if sv: "on_save A tn sealed mat dev signer h d0 = (stop, h', d', rs)" for d0
  proof -
    have "stop = None" using sv assms(3) by (auto simp: on_save_def Let_def split: if_splits sum.splits prod.splits)
    then show ?thesis using on_save_stays_open sv assms(2) by blast
  qed
  then show ?thesis using assms(1,2) by (auto simp: session_turn_def Let_def split: if_splits)
qed

lemma session_loop_open:
  assumes "session_loop A sealed mat dev signer expiry tns h d = Some (e, h', d', rs)" and "se_state (he_session h) = StOpen"
    and "\<And>reason. e \<noteq> EndFailed reason"
  shows "se_state (he_session h') = StOpen"
  using assms(1,2)
proof (induction tns arbitrary: h d rs)
  case (Cons tn tns)
  obtain stop h1 d1 reports where st: "session_turn A sealed mat dev signer expiry tn h d = (stop, h1, d1, reports)" by (metis surj_pair)
  show ?case
    using Cons.prems st Cons.IH [of h1 d1] session_turn_open [OF st Cons.prems(2)] assms(3) by (cases stop) auto
qed simp

lemma save_checked_Inr:
  assumes "save_checked A sealed h dev fs = Inr (t, dek, prev, prev_hash)"
  obtains fl where "se_state (he_session h) = StResealing" "he_terms h = Some t" "fs sealed = Some fl"
    "inspect A fl = Inr (prev, prev_hash)" "prev_hash = gt_header_hash t"
  using assms by (fastforce simp: save_checked_def rbind_eq_Inr ok_or_eq_Inr map_err_eq_Inr split: if_splits)

lemma save_Inr:
  assumes "save A w sealed mat dev signer h d = (Inr sv, h', d', n)"
  obtains t dek prev hdr m where "save_checked A sealed h dev (dk_files d) = Inr (t, dek, prev, gt_header_hash t)"
    "reseal_as_recipient_to_path A (sw_io w) (sw_rng w) (ma_plain mat) sealed dek signer (hb_pol (hdr_body prev)) (dk_files d)
       = (Inr hdr, dk_files d')"
    "save_notice A sealed signer (sw_now w) t (gt_header_hash t) hdr (dk_files d') = Inr m" "n = Some m"
    "sa_ver sv = vm_ver m" "sa_header_hash sv = vm_header_hash m"
    "h' = h\<lparr>he_session := snd (apply_event (he_session h) (EvResealed (vm_ver m)) (sw_now w))\<rparr>"
proof -
  obtain t dek prev ph where c: "save_checked A sealed h dev (dk_files d) = Inr (t, dek, prev, ph)"
    using assms by (auto simp: save_def split: sum.splits)
  have ph: "ph = gt_header_hash t" using c by (rule save_checked_Inr)
  have "vm_ver m = hb_ver (hdr_body hdr)" if "save_notice A sealed signer (sw_now w) t ph hdr fs = Inr m" for m hdr fs
    using that by (auto simp: save_notice_def rbind_eq_Inr)
  then show thesis
    using that [of t dek prev] c [unfolded ph] assms ph
    by (auto simp: save_def Let_def split: sum.splits prod.splits if_splits)
qed

lemma save_notice_Inr:
  assumes "save_notice A sealed signer now t ph hdr fs = Inr m"
  obtains fl h2 where "fs sealed = Some fl" "inspect A fl = Inr (h2, vm_header_hash m)"
    "fst (codec_envelope A) (hd (hb_env (hdr_body hdr))) = Inr (vm_owner_envelope m)" "vm_fid m = hb_fid (hdr_body hdr)"
    "vm_owner m = hb_own (hdr_body hdr)" "vm_prev_header_hash m = ph" "vm_ver m = hb_ver (hdr_body hdr)"
    "vm_grant_id m = struct_hash A t" "vm_ed25519_pub m = verifying_key A signer"
  using assms by (auto simp: save_notice_def rbind_eq_Inr ok_or_eq_Inr map_err_eq_Inr)

subsection \<open>A sample session\<close>

definition sample_held :: "permission \<Rightarrow> held" where
  "sample_held perm = \<lparr>he_session = session_resume perm 100 3700 1 0, he_terms = Some sample_terms, he_envelope = Some [8]\<rparr>"

definition sample_open_world :: "path list \<Rightarrow> open_world" where
  "sample_open_world entries = \<lparr>ow_now = 200, ow_workspace = True, ow_create = True, ow_rename = True, ow_locked = {},
     ow_rm = None, ow_entries = entries\<rparr>"

definition sample_open_disk :: disk where
  "sample_open_disk = \<lparr>dk_files = [sample_path \<mapsto> sample_file], dk_readonly = {}, dk_dirs = {}, dk_private = {}, dk_residue = Map.empty\<rparr>"

definition sample_mat :: "sess_effect list \<Rightarrow> materialised" where
  "sample_mat es = \<lparr>ma_workspace = \<lparr>ws_root = [''ws'', ''s'']\<rparr>, ma_plain = ([''ws'', ''s''], ''a''), ma_name = ''a'', ma_effects = es\<rparr>"

definition sample_revoked_turn :: sess_turn where
  "sample_revoked_turn = \<lparr>rt_cancel = False, rt_outside = Some StRevoked, rt_now = 300, rt_running = Some True, rt_disk = (\<lambda>d. d),
     rt_event = None, rt_save = \<lparr>sw_io = sample_io, sw_rng = sample_rng, sw_relay = True, sw_now = 300\<rparr>\<rparr>"

lemma sample_granted:
  "read_granted sample_agent sample_path (sample_held perm) sample_keys [sample_path \<mapsto> sample_file] =
     Inr (replicate 32 3, sample_header, replicate 32 7,
       ([42] @ replicate 16 0) @ (replicate 32 7 @ [1, 0, 0, 0, 0, 0, 0, 0] @ replicate 32 9))"
  by (simp add: read_granted_def sample_held_def session_resume_def sample_agent_lib sample_values_def envelope_open_def
      dek_from_bytes_def sample_core_read [OF sample_agent_core] sample_terms_def del: append.simps append_assoc append_Cons)

lemma sample_placed:
  "\<exists>d'. place sample_agent (sample_open_world []) [''ws''] ''s'' es (replicate 32 3, sample_header, replicate 32 7,
       ([42] @ replicate 16 0) @ (replicate 32 7 @ [1, 0, 0, 0, 0, 0, 0, 0] @ replicate 32 9)) sample_open_disk = (Inr (sample_mat es), d') \<and>
     dk_files d' = [sample_path \<mapsto> sample_file, ([''ws'', ''s''], ''a'') \<mapsto> [42]] \<and> [''ws'', ''s''] \<in> dk_dirs d'"
proof -
  have n: "name_string [97] = ''a''" by code_simp
  have p: "([''ws'', ''s''], x) \<noteq> sample_path" for x by (simp add: sample_path_def)
  have d: "\<exists>k. [''ws'', ''s''] = take k [''ws'', ''s'']" by (rule exI [of _ 2]) simp
  have w: "workspace_file ws ''opened.bin'' = Inr (ws_root ws, ''opened.bin'')" "workspace_file ws ''a'' = Inr (ws_root ws, ''a'')" for ws
    by (simp_all add: workspace_file_def)
  have u: "[sample_path \<mapsto> sample_file](([''ws'', ''s''], ''opened.bin'') := None) = [sample_path \<mapsto> sample_file]"
    using p [of "''opened.bin''"] by (auto simp: fun_eq_iff)
  have r: "[''ws''] @ [''s''] = [''ws'', ''s'']" by simp
  show ?thesis
    using sample_core_open [OF sample_agent_core] d
    by (simp add: place_def sample_open_world_def workspace_create_def w n mark_read_only_def sample_open_disk_def u r sample_mat_def
        Let_def del: append.simps append_assoc)
qed

lemma sample_materialised:
  "\<exists>es d'. materialise sample_agent (sample_open_world []) sample_path sample_keys [''ws''] ''s'' (sample_held perm) sample_open_disk =
     (Inr (sample_mat es), (sample_held perm)\<lparr>he_session := (he_session (sample_held perm))\<lparr>se_opens := 1, se_state := StOpen\<rparr>\<rparr>, d') \<and>
     dk_files d' = [sample_path \<mapsto> sample_file, ([''ws'', ''s''], ''a'') \<mapsto> [42]] \<and> [''ws'', ''s''] \<in> dk_dirs d'"
proof -
  obtain es where ev: "apply_event (he_session (sample_held perm)) EvOpened 200 =
      (Inr es, (he_session (sample_held perm))\<lparr>se_opens := 1, se_state := StOpen\<rparr>)" "EfWipeWorkspace \<notin> set es"
    by (auto simp: apply_event_def apply_opened_def sample_held_def session_resume_def)
  have "dk_files sample_open_disk = [sample_path \<mapsto> sample_file]" "ow_now (sample_open_world []) = 200"
    by (simp_all add: sample_open_disk_def sample_open_world_def)
  then show ?thesis
    using sample_placed [of es] ev by (auto simp: materialise_def sample_granted simp del: append.simps append_assoc)
qed

section \<open>Properties\<close>



text \<open>Every session that runs to an end wipes: when the viewer quits, the person locks the file, the owner
  revokes or the approval expires, then at the end - if the workspace directory is still there and the
  system lists its files - no file of the workspace that is not held open is left, and the blocks of
  each hold zeros. The saves in between, whatever they wrote, do not change that.\<close>

theorem session_end_wipes:
  assumes "materialise A w sealed dev base sid h d = (Inr mat, h1, d1)"
    and "session_loop A sealed mat dev signer expiry tns h1 d1 = Some (e, h2, d2, rs)"
    and "\<And>reason. e \<noteq> EndFailed reason" and "base @ [sid] \<in> dk_dirs d2"
    and "set (ow_entries cw) = {p. fst p = base @ [sid] \<and> dk_files d2 p \<noteq> None}"
    and "close cw mat (end_event e) h2 d2 = (r, h3, d3)"
  shows "(\<forall>p. fst p = base @ [sid] \<and> p \<notin> ow_locked cw \<longrightarrow> dk_files d3 p = None) \<and>
    (\<forall>p content. fst p = base @ [sid] \<and> p \<notin> ow_locked cw \<and> dk_files d2 p = Some content \<longrightarrow>
       dk_residue d3 p = Some (replicate (length content) 0))"
proof -
  from assms(1) obtain dek hdr hh rest effects where
    ev: "apply_event (he_session h) EvOpened (ow_now w) = (Inr effects, he_session h1)" "EfWipeWorkspace \<notin> set effects"
    and pl: "place A w base sid effects (dek, hdr, hh, rest) d = (Inr mat, d1)" by (rule materialise_Inr)
  from pl have root: "ws_root (ma_workspace mat) = base @ [sid]" by (rule place_Inr)
  have "se_state (he_session h1) = StOpen" using opened_session(1) [OF ev] by simp
  from session_loop_open [OF assms(2) this assms(3)] have op: "se_state (he_session h2) = StOpen" .
  have "is_ok (fst (apply_event (he_session h2) (end_event e) (ow_now cw)))"
    using op assms(3) by (cases e) (auto simp: end_event_def apply_event_def apply_revoked_def apply_expired_def)
  from close_clears [OF this _ _ assms(6)] show ?thesis using assms(4,5) root by simp
qed

theorem session_end_wipes_witness:
  "\<exists>mat h1 d1 e h2 d2 rs r h3 d3.
     materialise sample_agent (sample_open_world []) sample_path sample_keys [''ws''] ''s'' (sample_held Edit) sample_open_disk = (Inr mat, h1, d1) \<and>
     session_loop sample_agent sample_path mat sample_keys [] 3700
       [sample_revoked_turn] h1 d1 = Some (e, h2, d2, rs) \<and>
     close (sample_open_world [([''ws'', ''s''], ''a'')]) mat (end_event e) h2 d2 = (r, h3, d3) \<and>
     dk_files d2 ([''ws'', ''s''], ''a'') = Some [42] \<and> dk_files d3 ([''ws'', ''s''], ''a'') = None \<and>
     dk_residue d3 ([''ws'', ''s''], ''a'') = Some [0]"
proof -
  let ?p = "([''ws'', ''s''], ''a'')" and ?cw = "sample_open_world [([''ws'', ''s''], ''a'')]"
  obtain es h1 d1 where m: "materialise sample_agent (sample_open_world []) sample_path sample_keys [''ws''] ''s'' (sample_held Edit)
      sample_open_disk = (Inr (sample_mat es), h1, d1)"
    and f: "dk_files d1 = [sample_path \<mapsto> sample_file, ?p \<mapsto> [42]]" and dir: "[''ws'', ''s''] \<in> dk_dirs d1"
    using sample_materialised by blast
  have l: "session_loop sample_agent sample_path (sample_mat es) sample_keys [] 3700 [sample_revoked_turn] h1 d1 = Some (EndRevoked, h1, d1, [])"
    by (simp add: session_turn_def sample_revoked_turn_def)
  have ents: "set (ow_entries ?cw) = {p. fst p = [''ws''] @ [''s''] \<and> dk_files d1 p \<noteq> None}"
    using f by (auto simp: sample_open_world_def sample_path_def split: if_splits)
  obtain r h3 d3 where c: "close ?cw (sample_mat es) (end_event EndRevoked) h1 d1 = (r, h3, d3)" by (metis surj_pair)
  have "ow_locked ?cw = {}" by (simp add: sample_open_world_def)
  with session_end_wipes [OF m l _ _ ents c] dir f have "dk_files d3 ?p = None \<and> dk_residue d3 ?p = Some [0]" by auto
  then show ?thesis using m l c f by (intro exI) auto
qed

text \<open>A save that fails ends the session twice: the state machine refuses the second failure, and the workspace
  with the plaintext stays as it is.\<close>

theorem failed_save_leaves_plaintext:
  assumes "on_save A tn sealed mat dev signer h d = (Some e, h', d', rs)" and "se_state (he_session h) = StOpen"
  shows "close cw mat (end_event e) h' d' = (Inl ''session'', h', d')"
proof -
  obtain es s where a: "apply_event (he_session h) EvSaved (rt_now tn) = (Inr es, s)" "EfReseal \<in> set es"
    using assms(1) by (auto simp: on_save_def Let_def split: sum.splits prod.splits if_splits)
  then have "se_state s = StResealing"
    using assms(2) by (auto simp: apply_event_def apply_saved_def split: if_splits)
  moreover obtain q h2 n where sv: "save A (rt_save tn) sealed mat dev signer (h\<lparr>he_session := s\<rparr>) d = (Inl q, h2, d', n)"
    and h': "h' = h2\<lparr>he_session := snd (apply_event (he_session h2) (EvFailed q) (rt_now tn))\<rparr>" "e = EndFailed q"
    using assms(1) a by (auto simp: on_save_def split: sum.splits prod.splits)
  moreover have "h2 = h\<lparr>he_session := s\<rparr>"
    using sv by (auto simp: save_def Let_def split: sum.splits prod.splits if_splits)
  ultimately have "he_session h' = s\<lparr>se_state := StFailed\<rparr>" by (simp add: apply_event_def apply_failed_def)
  then show ?thesis using h'(2) by (simp add: close_def end_event_def apply_terminal)
qed

text \<open>A container whose file name the workspace refuses is decrypted all the same: opening fails, and the whole
  plaintext stays behind in a file of the workspace that nothing wipes.\<close>

theorem refused_name_leaves_plaintext:
  assumes "open_with_dek A hdr hh rest dek = (Inr opened, out)" and "CHR ''/'' \<in> set (name_string (op_file_name opened))"
    and "workspace_create base sid d = (Inr ws, d1)" and "ow_workspace w" and "ow_create w"
  shows "\<exists>d'. place A w base sid effects (dek, hdr, hh, rest) d = (Inl ''workspace'', d') \<and>
    dk_files d' (base @ [sid], ''opened.bin'') = Some out"
  using assms workspace_create_Inr(1) [OF assms(3)] by (simp add: place_def workspace_file_def Let_def)

text \<open>A second save of one session is refused: the container no longer has the hash the approval names.\<close>

theorem second_save_refused:
  assumes "save A w sealed mat dev signer h d = (Inr sv, h', d', n)" and "he_terms h = Some t"
    and "sa_header_hash sv \<noteq> gt_header_hash t" and "he_terms h2 = he_terms h" and "he_envelope h2 = he_envelope h"
    and "se_state (he_session h2) = StResealing" and "dk_files d2 sealed = dk_files d' sealed"
  shows "save A w2 sealed mat dev signer h2 d2 = (Inl ''version'', h2, d2, None)"
proof -
  from assms(1) obtain t' dek prev hdr m where c: "save_checked A sealed h dev (dk_files d) = Inr (t', dek, prev, gt_header_hash t')"
    and n: "save_notice A sealed signer (sw_now w) t' (gt_header_hash t') hdr (dk_files d') = Inr m"
    and m: "sa_header_hash sv = vm_header_hash m" by (rule save_Inr)
  from n obtain fl h3 where "dk_files d' sealed = Some fl" "inspect A fl = Inr (h3, vm_header_hash m)" by (rule save_notice_Inr)
  then have "save_checked A sealed h2 dev (dk_files d2) = Inl ''version''"
    using c m assms(2-7)
    by (auto simp: save_checked_def rbind_eq_Inr ok_or_eq_Inr map_err_eq_Inr split: if_splits)
  then show ?thesis by (simp add: save_def)
qed

end
