(* ===== verification/Agent_Tasks.thy ===== *)
theory Agent_Tasks
  imports Agent_Open "HOL-Library.Multiset"
begin

text \<open>
  The recipient's agent as a whole: the tables of requests and of open files
  (\<open>Requests\<close> of \<open>request.rs\<close>, \<open>Sessions\<close> of \<open>session.rs\<close>), the commands on them, and the tasks the
  commands start. Each lock of a mutex in the code is one atomic step here; between the steps any
  other task may run. What a wait, a watch or a session computes is the function of theories
  \<open>Request\<close> and \<open>Agent_Open\<close>.
\<close>

subsection \<open>Tables and commands\<close>

record open_entry =
  oe_cancel :: nat
  oe_name :: string

record tables =
  tb_flags :: "nat set"
  tb_next :: nat
  tb_requests :: "string \<rightharpoonup> active"
  tb_sessions :: "string \<rightharpoonup> open_entry"

definition identity_of ::
  "'x proto_lib_scheme \<Rightarrow> device_profile option \<Rightarrow> auth_error + device_identity \<Rightarrow> string + (device_identity \<times> bytes)" where
  "identity_of X held keys =
     rbind (ok_or held ''not_set_up'') (\<lambda>prof.
     rbind (map_err (\<lambda>_. ''not_set_up'') keys) (\<lambda>dev.
       Inr (dev, device_key_hash X (dp_device_x25519_pub prof) (dp_device_ed25519_pub prof))))"

text \<open>\<open>request_access\<close> returns what the task it starts is given.\<close>

definition request_access ::
  "'x proto_lib_scheme \<Rightarrow> file_open \<Rightarrow> device_profile option \<Rightarrow> auth_error + device_identity \<Rightarrow> bool \<Rightarrow> bool \<Rightarrow> string \<Rightarrow> permission \<Rightarrow>
     tables \<Rightarrow> (string + (asking \<times> device_identity \<times> nat)) \<times> tables" where
  "request_access X fo held keys client_ok chain path requested T =
     (case rbind (target_of X fo) (\<lambda>tg. rbind (identity_of X held keys) (\<lambda>(dev, kh).
             if client_ok then Inr (tg, dev, kh) else Inl ''relay_unreachable'')) of
        Inl e \<Rightarrow> (Inl e, T)
      | Inr (tg, dev, kh) \<Rightarrow>
          let flag = tb_next T; T1 = T\<lparr>tb_next := Suc flag\<rparr> in
          (case start_request path flag (tb_requests T) of
             (Inl e, _) \<Rightarrow> (Inl e, T1)
           | (Inr _, m) \<Rightarrow>
               (Inr (\<lparr>as_target = tg, as_requested = requested, as_our_key_hash = kh, as_limits = default_limits, as_chain = chain\<rparr>,
                     dev, flag),
                T1\<lparr>tb_requests := m\<rparr>)))"

definition cancel_wait :: "string \<Rightarrow> tables \<Rightarrow> tables" where
  "cancel_wait path T = T\<lparr>tb_flags := cancel_request path (tb_requests T) (tb_flags T)\<rparr>"

definition hold_for :: "string \<Rightarrow> held \<Rightarrow> tables \<Rightarrow> tables" where
  "hold_for path h T = T\<lparr>tb_requests := hold path h (tb_requests T)\<rparr>"

text \<open>The three critical sections of \<open>open_file\<close>: reading what is held, looking whether the file is open, and
  entering it.\<close>

definition open_read :: "string \<Rightarrow> tables \<Rightarrow> string + held" where
  "open_read path T =
     (case tb_requests T path of
        Some a \<Rightarrow>
          (case ae_held a of
             Some h \<Rightarrow> if se_state (he_session h) = StGranted then Inr h else Inl ''not_granted''
           | None \<Rightarrow> Inl ''not_granted'')
      | None \<Rightarrow> Inl ''not_granted'')"

definition open_check :: "string \<Rightarrow> tables \<Rightarrow> string + unit" where
  "open_check path T = (if tb_sessions T path \<noteq> None then Inl ''already_open'' else Inr ())"

definition open_enter :: "string \<Rightarrow> tables \<Rightarrow> nat \<times> tables" where
  "open_enter path T =
     (tb_next T, T\<lparr>tb_next := Suc (tb_next T), tb_sessions := (tb_sessions T)(path \<mapsto> \<lparr>oe_cancel = tb_next T, oe_name = []\<rparr>)\<rparr>)"

record opened_answer =
  oa_permission :: string
  oa_expiry :: u64

text \<open>The whole command, as one caller runs it undisturbed: the answer, and what the session task is given.\<close>

definition open_file ::
  "auth_error + device_identity \<Rightarrow> bool \<Rightarrow> string \<Rightarrow> tables \<Rightarrow> (string + (opened_answer \<times> nat \<times> held)) \<times> tables" where
  "open_file keys client_ok path T =
     (case rbind (open_read path T) (\<lambda>h. rbind (open_check path T) (\<lambda>_.
             rbind (map_err (\<lambda>_. ''not_set_up'') keys) (\<lambda>_. if client_ok then Inr h else Inl ''relay_unreachable''))) of
        Inl e \<Rightarrow> (Inl e, T)
      | Inr h \<Rightarrow>
          let (flag, T') = open_enter path T in
          (Inr (\<lparr>oa_permission = permission_word (se_permission (he_session h)),
                 oa_expiry = (case he_terms h of Some t \<Rightarrow> gt_expiry t | None \<Rightarrow> 0)\<rparr>, flag, h), T'))"

definition leave :: "string \<Rightarrow> tables \<Rightarrow> tables" where
  "leave path T = T\<lparr>tb_sessions := (tb_sessions T)(path := None)\<rparr>"

definition lock_now :: "string \<Rightarrow> tables \<Rightarrow> (string + unit) \<times> tables" where
  "lock_now path T =
     (case tb_sessions T path of
        None \<Rightarrow> (Inl ''not_granted'', T)
      | Some e \<Rightarrow> (Inr (), T\<lparr>tb_flags := insert (oe_cancel e) (tb_flags T)\<rparr>))"

subsection \<open>Tasks\<close>

datatype task =
    TAsk string nat asking device_identity
  | TWatch string nat held
  | TRead string held
  | TChecked string held
  | TSession string nat held
  | TLeave string

fun task_path :: "task \<Rightarrow> string" where
  "task_path (TAsk p _ _ _) = p"
| "task_path (TWatch p _ _) = p"
| "task_path (TRead p _) = p"
| "task_path (TChecked p _) = p"
| "task_path (TSession p _ _) = p"
| "task_path (TLeave p) = p"

type_synonym agent = "tables \<times> task multiset"

text \<open>Who moves, and on which file.\<close>

datatype move = MvRequest string | MvAsked string | MvWatched string | MvRead string | MvChecked string | MvRefused string
  | MvEntered string | MvOpen string | MvEnded string | MvLeft string | MvCancel string | MvLock string

inductive agent_step :: "'x agent_lib_scheme \<Rightarrow> agent \<Rightarrow> move \<Rightarrow> agent \<Rightarrow> bool" for A where
  request: "request_access A fo held keys cok chain path requested T = (Inr (q, dev, flag), T') \<Longrightarrow>
     agent_step A (T, ts) (MvRequest path) (T', add_mset (TAsk path flag q dev) ts)"
| asked: "ask A q dev announced sent rnonce now turns fuel = Some ((oc, h), ups, rq) \<Longrightarrow>
     ts' = (case (oc, he_terms h) of (OcGranted _ _, Some t) \<Rightarrow> add_mset (TWatch path flag h) ts | _ \<Rightarrow> ts) \<Longrightarrow>
     agent_step A (T, add_mset (TAsk path flag q dev) ts) (MvAsked path) (hold_for path h T, ts')"
| watched: "he_terms h = Some t \<Longrightarrow>
     watch_grant A chain (struct_hash A t) (gt_expiry t) turns fuel 0 (he_session h) = Some (ge, s, ups) \<Longrightarrow>
     ge = GeCancelled \<longrightarrow> flag \<in> tb_flags T \<Longrightarrow>
     agent_step A (T, add_mset (TWatch path flag h) ts) (MvWatched path) (hold_for path (h\<lparr>he_session := s\<rparr>) T, ts)"
| read: "open_read path T = Inr h \<Longrightarrow> agent_step A (T, ts) (MvRead path) (T, add_mset (TRead path h) ts)"
| checked: "open_check path T = Inr () \<Longrightarrow>
     agent_step A (T, add_mset (TRead path h) ts) (MvChecked path) (T, add_mset (TChecked path h) ts)"
| refused: "agent_step A (T, add_mset (TRead path h) ts) (MvRefused path) (T, ts)"
| gave_up: "agent_step A (T, add_mset (TChecked path h) ts) (MvRefused path) (T, ts)"
| entered: "open_enter path T = (flag, T') \<Longrightarrow>
     agent_step A (T, add_mset (TChecked path h) ts) (MvEntered path) (T', add_mset (TSession path flag h) ts)"
| opened: "open_file keys cok path T = (Inr (ans, flag, h), T') \<Longrightarrow>
     agent_step A (T, ts) (MvOpen path) (T', add_mset (TSession path flag h) ts)"
| ended: "run_session A w cw launched sealed dev signer base sid tns h d = Some (e, h', d', reports) \<Longrightarrow>
     agent_step A (T, add_mset (TSession path flag h) ts) (MvEnded path) (hold_for path h' T, add_mset (TLeave path) ts)"
| left: "agent_step A (T, add_mset (TLeave path) ts) (MvLeft path) (leave path T, ts)"
| cancel: "agent_step A (T, ts) (MvCancel path) (cancel_wait path T, ts)"
| lock: "lock_now path T = (r, T') \<Longrightarrow> agent_step A (T, ts) (MvLock path) (T', ts)"

inductive agent_run :: "'x agent_lib_scheme \<Rightarrow> agent \<Rightarrow> move list \<Rightarrow> agent \<Rightarrow> bool" for A where
  start: "agent_run A g [] g"
| step: "agent_run A g ms g1 \<Longrightarrow> agent_step A g1 m g2 \<Longrightarrow> agent_run A g (ms @ [m]) g2"

definition agent_init :: agent where
  "agent_init = (\<lparr>tb_flags = {}, tb_next = 0, tb_requests = Map.empty, tb_sessions = Map.empty\<rparr>, {#})"

subsection \<open>What an approval becomes in a task\<close>

lemma ask_proper:
  assumes "ask X q dev announced sent rnonce now turns fuel = Some ((oc, h), ups, req)"
  shows "proper_end X q rnonce turns (oc, h)"
  using assms ask_loop_proper [of X q rnonce turns fuel 0 False "(oc, h)"] failed_proper [of X q rnonce turns _ now]
  by (auto simp: ask_def Let_def failed_with_def split: sum.splits)

text \<open>The session of an approval moves on; its terms, key and rights stay.\<close>

definition moves_on :: "held \<Rightarrow> held \<Rightarrow> bool" where
  "moves_on h h' \<longleftrightarrow> he_terms h' = he_terms h \<and> he_envelope h' = he_envelope h \<and>
     (se_state (he_session h) \<noteq> StRequested \<longrightarrow>
        se_state (he_session h') \<noteq> StRequested \<and> se_permission (he_session h') = se_permission (he_session h) \<and>
        se_max_opens (he_session h') = se_max_opens (he_session h)) \<and>
     (se_state (he_session h) \<notin> {StRequested, StGranted} \<longrightarrow> se_state (he_session h') \<notin> {StRequested, StGranted})"

lemma moves_on_refl [simp]: "moves_on h h"
  by (simp add: moves_on_def)

lemma moves_on_trans: "moves_on h h1 \<Longrightarrow> moves_on h1 h2 \<Longrightarrow> moves_on h h2"
  by (auto simp: moves_on_def)

lemma moves_on_event:
  assumes "apply_event (he_session h) ev now = (r, s)"
  shows "moves_on h (h\<lparr>he_session := s\<rparr>)"
proof (cases r)
  case (Inl e)
  then have "s = he_session h" using assms apply_error_unchanged by blast
  then show ?thesis by (simp add: moves_on_def)
next
  case (Inr es)
  then show ?thesis using assms by (auto simp: moves_on_def elim!: apply_okE)
qed

lemma moves_on_event_snd: "moves_on h (h\<lparr>he_session := snd (apply_event (he_session h) ev now)\<rparr>)"
  by (rule moves_on_event [of h ev now "fst (apply_event (he_session h) ev now)"]) simp

lemma materialise_moves_on:
  assumes "materialise A w sealed dev base sid h d = (r, h', d')"
  shows "moves_on h h'"
  using assms moves_on_event [of h EvOpened "ow_now w"]
  by (auto simp: materialise_def Let_def split: sum.splits prod.splits if_splits)

lemma materialise_opens:
  assumes "materialise A w sealed dev base sid h d = (Inr mat, h', d')"
  shows "se_state (he_session h') = StOpen"
proof -
  from assms obtain effects where "apply_event (he_session h) EvOpened (ow_now w) = (Inr effects, he_session h')"
    "EfWipeWorkspace \<notin> set effects" by (rule materialise_Inr)
  then show ?thesis using opened_session(1) by fastforce
qed

lemma materialise_refused:
  assumes "materialise A w sealed dev base sid h d = (Inl err, h', d')" and "se_state (he_session h') = StGranted"
  shows "h' = h \<and> d' = d"
proof (cases "read_granted A sealed h dev (dk_files d)")
  case (Inl e)
  then show ?thesis using assms(1) by (simp add: materialise_def)
next
  case (Inr k)
  obtain r s where a: "apply_event (he_session h) EvOpened (ow_now w) = (r, s)" by fastforce
  have "he_session h' = s" using assms(1) Inr a by (auto simp: materialise_def Let_def split: sum.splits if_splits prod.splits)
  then have g: "se_state s = StGranted" using assms(2) by simp
  show ?thesis
  proof (cases r)
    case err: (Inl e)
    then have "s = he_session h" using a apply_error_unchanged by blast
    then show ?thesis using assms(1) Inr a err by (simp add: materialise_def)
  next
    case (Inr es)
    then have "se_state s \<noteq> StGranted" using a by (auto elim!: apply_okE)
    then show ?thesis using g by simp
  qed
qed

lemma close_moves_on:
  assumes "close w mat ev h d = (r, h', d')"
  shows "moves_on h h'"
  using assms moves_on_event [of h ev "ow_now w"]
  by (auto simp: close_def Let_def split: sum.splits prod.splits if_splits)

lemma save_moves_on:
  assumes "save A w sealed mat dev signer h d = (r, h', d', n)"
  shows "moves_on h h'"
  using assms moves_on_event_snd
  by (auto simp: save_def Let_def split: sum.splits prod.splits if_splits)

lemma on_save_moves_on:
  assumes "on_save A tn sealed mat dev signer h d = (stop, h', d', rs)"
  shows "moves_on h h'"
proof -
  obtain q s where a: "apply_event (he_session h) EvSaved (rt_now tn) = (q, s)" by fastforce
  have m: "moves_on h (h\<lparr>he_session := s\<rparr>)" using moves_on_event [OF a] .
  obtain r h2 d2 n where sv: "save A (rt_save tn) sealed mat dev signer (h\<lparr>he_session := s\<rparr>) d = (r, h2, d2, n)"
    by (metis surj_pair)
  have "moves_on h h2" using moves_on_trans [OF m save_moves_on [OF sv]] .
  then show ?thesis
    using assms a m sv moves_on_trans [OF _ moves_on_event_snd]
    by (auto simp: on_save_def Let_def split: sum.splits if_splits)
qed

lemma session_turn_moves_on:
  assumes "session_turn A sealed mat dev signer expiry tn h d = (stop, h', d', rs)"
  shows "moves_on h h'"
  using assms on_save_moves_on [of A tn sealed mat dev signer h "rt_disk tn d" stop h' d' rs]
  by (auto simp: session_turn_def Let_def split: if_splits)

lemma session_loop_moves_on:
  "session_loop A sealed mat dev signer expiry tns h d = Some (e, h', d', rs) \<Longrightarrow> moves_on h h'"
proof (induction tns arbitrary: h d rs)
  case (Cons tn tns)
  obtain stop h1 d1 reports where st: "session_turn A sealed mat dev signer expiry tn h d = (stop, h1, d1, reports)" by (metis surj_pair)
  show ?case
    using Cons.prems st Cons.IH [of h1 d1] session_turn_moves_on [OF st] moves_on_trans by (cases stop) auto
qed simp

lemma run_sessionE:
  assumes "run_session A w cw launched sealed dev signer base sid tns h d = Some (e, h', d', rs)"
  obtains (not_opened) err where "materialise A w sealed dev base sid h d = (Inl err, h', d')" "e = EndFailed err" "rs = [Phase ''problem'']"
  | (no_viewer) mat h1 d1 r where "materialise A w sealed dev base sid h d = (Inr mat, h1, d1)" "\<not> launched"
      "close cw mat (EvFailed ''no_viewer'') h1 d1 = (r, h', d')"
  | (ran) mat h1 d1 h2 d2 ps r where "materialise A w sealed dev base sid h d = (Inr mat, h1, d1)" "launched"
      "session_loop A sealed mat dev signer (case he_terms h of Some t \<Rightarrow> gt_expiry t | None \<Rightarrow> 0) tns h1 d1 = Some (e, h2, d2, ps)"
      "close cw mat (end_event e) h2 d2 = (r, h', d')"
proof -
  obtain r h1 d1 where m: "materialise A w sealed dev base sid h d = (r, h1, d1)" by (metis surj_pair)
  let ?ex = "case he_terms h of Some t \<Rightarrow> gt_expiry t | None \<Rightarrow> 0"
  show thesis
  proof (cases r)
    case (Inl err)
    then show thesis using assms m not_opened by (simp add: run_session_def Let_def)
  next
    case (Inr mat)
    show thesis
    proof (cases launched)
      case False
      obtain rc h2 d2 where "close cw mat (EvFailed ''no_viewer'') h1 d1 = (rc, h2, d2)" by (metis surj_pair)
      then show thesis using assms m Inr False no_viewer by (simp add: run_session_def Let_def)
    next
      case True
      then obtain e2 h2 d2 ps where l: "session_loop A sealed mat dev signer ?ex tns h1 d1 = Some (e2, h2, d2, ps)"
        using assms m Inr by (auto simp: run_session_def Let_def split: option.splits)
      obtain rc h3 d3 where c: "close cw mat (end_event e2) h2 d2 = (rc, h3, d3)" by (metis surj_pair)
      have "e2 = e" "h3 = h'" "d3 = d'" using assms m Inr True l c by (simp_all add: run_session_def Let_def)
      then show thesis using ran m Inr True l c by blast
    qed
  qed
qed

lemma run_session_moves_on:
  assumes "run_session A w cw launched sealed dev signer base sid tns h d = Some (e, h', d', rs)"
  shows "moves_on h h'"
  using assms
proof (cases rule: run_sessionE)
  case not_opened
  then show ?thesis using materialise_moves_on by blast
next
  case no_viewer
  then show ?thesis using materialise_moves_on close_moves_on moves_on_trans by meson
next
  case ran
  then show ?thesis using materialise_moves_on session_loop_moves_on close_moves_on moves_on_trans by meson
qed

text \<open>A session that opened its file has used the approval up: it never comes back as granted.\<close>

lemma session_spends:
  assumes "run_session A w cw launched sealed dev signer base sid tns h d = Some (e, h', d', rs)"
    and "se_state (he_session h') = StGranted"
  shows "h' = h \<and> d' = d \<and> (\<exists>err. e = EndFailed err)"
  using assms(1)
proof (cases rule: run_sessionE)
  case (not_opened err)
  then show ?thesis using materialise_refused assms(2) by blast
next
  case (no_viewer mat h1 d1 r)
  then show ?thesis using materialise_opens [OF no_viewer(1)] close_moves_on [OF no_viewer(3)] assms(2) by (simp add: moves_on_def)
next
  case (ran mat h1 d1 h2 d2 ps r)
  then have "moves_on h1 h'" using session_loop_moves_on close_moves_on moves_on_trans by meson
  then show ?thesis using materialise_opens [OF ran(1)] assms(2) by (simp add: moves_on_def)
qed

lemma watch_moves_on:
  "watch_grant X chain gid expiry turns fuel i (he_session h) = Some (ge, s, ups) \<Longrightarrow> moves_on h (h\<lparr>he_session := s\<rparr>)"
proof (induction fuel arbitrary: i)
  case (Suc fuel)
  then show ?case using moves_on_event_snd by (auto simp: Let_def split: if_splits)
qed simp

subsection \<open>Invariants of the agent\<close>

text \<open>The interface of a property that every move of a given kind keeps: it then holds along every run of
  such moves.\<close>

locale agent_invariant =
  fixes A :: "'x agent_lib_scheme" and ok :: "move \<Rightarrow> bool" and inv :: "agent \<Rightarrow> bool"
  assumes kept: "agent_step A g m g' \<Longrightarrow> ok m \<Longrightarrow> inv g \<Longrightarrow> inv g'"
begin

lemma run: "agent_run A g ms g' \<Longrightarrow> list_all ok ms \<Longrightarrow> inv g \<Longrightarrow> inv g'"
  by (induction rule: agent_run.induct) (auto intro: kept)

end

subsubsection \<open>Every approval in the agent was given\<close>

definition approved :: "'x agent_lib_scheme \<Rightarrow> held \<Rightarrow> bool" where
  "approved A h \<longleftrightarrow>
     (case he_terms h of
        None \<Rightarrow> se_state (he_session h) \<noteq> StGranted
      | Some t \<Rightarrow> se_state (he_session h) \<noteq> StRequested \<and>
          (\<exists>q rnonce tn perm. bound_to A q rnonce tn perm t (he_envelope h) \<and> se_permission (he_session h) = Some perm \<and>
             se_max_opens (he_session h) = gt_max_opens t))"

lemma approved_moves_on:
  assumes "approved A h" and "moves_on h h'" and "he_terms h \<noteq> None"
  shows "approved A h'"
  using assms by (auto simp: approved_def moves_on_def split: option.splits)

lemma asked_approved:
  assumes "ask A q dev announced sent rnonce now turns fuel = Some ((oc, h), ups, rq)"
  shows "approved A h"
  using ask_proper [OF assms] by (cases oc) (fastforce simp: proper_end_def approved_def end_state_def)+

fun task_approved :: "'x agent_lib_scheme \<Rightarrow> task \<Rightarrow> bool" where
  "task_approved A (TWatch _ _ h) = approved A h"
| "task_approved A (TRead _ h) = (approved A h \<and> he_terms h \<noteq> None)"
| "task_approved A (TChecked _ h) = (approved A h \<and> he_terms h \<noteq> None)"
| "task_approved A (TSession _ _ h) = (approved A h \<and> he_terms h \<noteq> None)"
| "task_approved A _ = True"

definition approved_tables :: "'x agent_lib_scheme \<Rightarrow> tables \<Rightarrow> bool" where
  "approved_tables A T \<longleftrightarrow> (\<forall>path a h. tb_requests T path = Some a \<and> ae_held a = Some h \<longrightarrow> approved A h)"

lemma hold_for_approved: "approved_tables A T \<Longrightarrow> approved A h \<Longrightarrow> approved_tables A (hold_for path h T)"
  by (auto simp: approved_tables_def hold_for_def hold_def split: option.splits if_splits)

lemma open_read_Inr:
  "open_read path T = Inr h \<longleftrightarrow>
     (\<exists>a. tb_requests T path = Some a \<and> ae_held a = Some h \<and> se_state (he_session h) = StGranted)"
  by (auto simp: open_read_def split: option.splits if_splits)

lemma open_read_approved:
  assumes "approved_tables A T" and "open_read path T = Inr h"
  shows "approved A h \<and> he_terms h \<noteq> None"
proof -
  have "approved A h" "se_state (he_session h) = StGranted"
    using assms by (auto simp: approved_tables_def open_read_Inr)
  then show ?thesis by (auto simp: approved_def split: option.splits)
qed

lemma open_file_Inr:
  "open_file keys cok path T = (Inr (ans, flag, h), T') \<Longrightarrow>
     open_read path T = Inr h \<and> tb_sessions T path = None \<and> open_enter path T = (flag, T')"
  by (auto simp: open_file_def open_check_def rbind_eq_Inr open_enter_def Let_def split: sum.splits if_splits)

lemma request_access_tables:
  assumes "request_access X fo held keys cok chain path requested T = (r, T')"
  shows "tb_sessions T' = tb_sessions T" "\<forall>p. p \<noteq> path \<longrightarrow> tb_requests T' p = tb_requests T p"
    "\<forall>a h. tb_requests T' path = Some a \<and> ae_held a = Some h \<longrightarrow> tb_requests T path = Some a"
  using assms by (auto simp: request_access_def start_request_def Let_def split: sum.splits prod.splits if_splits)

lemma table_simps [simp]:
  "tb_requests (cancel_wait path T) = tb_requests T" "tb_sessions (cancel_wait path T) = tb_sessions T"
  "tb_sessions (hold_for path h T) = tb_sessions T" "tb_requests (leave path T) = tb_requests T"
  "tb_sessions (leave path T) = (tb_sessions T)(path := None)"
  "tb_requests (hold_for path h T) = hold path h (tb_requests T)"
  by (simp_all add: cancel_wait_def hold_for_def leave_def)

lemma enter_simps:
  "open_enter path T = (flag, T') \<Longrightarrow> tb_requests T' = tb_requests T \<and>
     tb_sessions T' = (tb_sessions T)(path \<mapsto> \<lparr>oe_cancel = tb_next T, oe_name = []\<rparr>)"
  by (auto simp: open_enter_def)

lemma lock_simps: "lock_now path T = (r, T') \<Longrightarrow> tb_requests T' = tb_requests T \<and> tb_sessions T' = tb_sessions T"
  by (auto simp: lock_now_def split: option.splits)

definition agent_approved :: "'x agent_lib_scheme \<Rightarrow> agent \<Rightarrow> bool" where
  "agent_approved A g \<longleftrightarrow> approved_tables A (fst g) \<and> (\<forall>t \<in># snd g. task_approved A t)"

lemma agent_approved_kept:
  assumes "agent_step A g m g'" and "agent_approved A g"
  shows "agent_approved A g'"
  using assms
proof (cases rule: agent_step.cases)
  case (request fo held keys cok chain path requested T q dev flag T' ts)
  have "approved_tables A T'"
    using assms(2) request request_access_tables(2,3) [OF request(4)]
    unfolding agent_approved_def approved_tables_def by (metis fst_conv)
  then show ?thesis using assms(2) request by (auto simp: agent_approved_def)
next
  case (asked q dev announced sent rnonce now turns fuel oc h ups rq ts' path flag ts T)
  then have "approved_tables A (hold_for path h T)" "task_approved A (TWatch path flag h)"
    using asked_approved [OF asked(4)] assms(2) hold_for_approved by (auto simp: agent_approved_def)
  then show ?thesis using assms(2) asked by (auto simp: agent_approved_def split: outcome.splits option.splits)
next
  case (watched h t chain turns fuel ge s ups flag T path ts)
  then have "approved A h" using assms(2) by (simp add: agent_approved_def)
  then have "approved A (h\<lparr>he_session := s\<rparr>)"
    using approved_moves_on [OF _ watch_moves_on [OF watched(5)]] watched(4) by simp
  then show ?thesis using assms(2) watched hold_for_approved by (auto simp: agent_approved_def)
next
  case (ended w cw launched sealed dev signer base sid tns h d e h' d' reports T path flag ts)
  then have "approved A h" "he_terms h \<noteq> None" using assms(2) by (simp_all add: agent_approved_def)
  then have "approved A h'" using approved_moves_on [OF _ run_session_moves_on [OF ended(4)]] by simp
  then show ?thesis using assms(2) ended hold_for_approved by (auto simp: agent_approved_def)
next
  case (read path T h ts)
  then show ?thesis using assms(2) open_read_approved by (auto simp: agent_approved_def)
next
  case (entered path T flag T' h ts)
  then show ?thesis using assms(2) enter_simps [of path T flag T'] by (auto simp: agent_approved_def approved_tables_def)
next
  case (opened keys cok path T ans flag h T' ts)
  then show ?thesis
    using assms(2) open_file_Inr [OF opened(4)] enter_simps [of path T flag T'] open_read_approved [of A T path h]
    by (auto simp: agent_approved_def approved_tables_def)
next
  case (lock path T r T' ts)
  then show ?thesis using assms(2) lock_simps [of path T r T'] by (auto simp: agent_approved_def approved_tables_def)
qed (auto simp: agent_approved_def approved_tables_def)

interpretation given: agent_invariant A "\<lambda>_. True" "agent_approved A" for A
  by unfold_locales (rule agent_approved_kept)

subsubsection \<open>One session per file\<close>

fun holds_file :: "string \<Rightarrow> task \<Rightarrow> bool" where
  "holds_file path (TSession p _ _) = (p = path)"
| "holds_file path (TLeave p) = (p = path)"
| "holds_file path _ = False"

fun half_open :: "task \<Rightarrow> bool" where
  "half_open (TRead _ _) = True"
| "half_open (TChecked _ _) = True"
| "half_open _ = False"

fun undisturbed :: "move \<Rightarrow> bool" where
  "undisturbed (MvRead _) = False"
| "undisturbed _ = True"

definition holders :: "string \<Rightarrow> task multiset \<Rightarrow> nat" where
  "holders path ts = size (filter_mset (holds_file path) ts)"

lemma holders_simps [simp]:
  "holders path {#} = 0"
  "holders path (add_mset t ts) = (if holds_file path t then Suc (holders path ts) else holders path ts)"
  by (simp_all add: holders_def)

definition one_session :: "agent \<Rightarrow> bool" where
  "one_session g \<longleftrightarrow> (\<forall>t \<in># snd g. \<not> half_open t) \<and>
     (\<forall>path. holders path (snd g) = (if tb_sessions (fst g) path = None then 0 else 1))"

lemma one_session_kept:
  assumes "agent_step A g m g'" and "undisturbed m" and "one_session g"
  shows "one_session g'"
  using assms
proof (cases rule: agent_step.cases)
  case (request fo held keys cok chain path requested T q dev flag T' ts)
  then show ?thesis using assms(3) request_access_tables(1) [OF request(4)] by (auto simp: one_session_def)
next
  case (asked q dev announced sent rnonce now turns fuel oc h ups rq ts' path flag ts T)
  then show ?thesis using assms(3) by (auto simp: one_session_def split: outcome.splits option.splits)
next
  case (opened keys cok path T ans flag h T' ts)
  have "tb_sessions T path = None" and T': "tb_sessions T' = (tb_sessions T)(path \<mapsto> \<lparr>oe_cancel = tb_next T, oe_name = []\<rparr>)"
    using open_file_Inr [OF opened(4)] enter_simps by blast+
  then show ?thesis using assms(3) opened by (auto simp: one_session_def)
next
  case (lock path T r T' ts)
  then show ?thesis using assms(3) lock_simps [of path T r T'] by (auto simp: one_session_def)
next
  case (left T path ts)
  have "holders path (snd g) = (if tb_sessions (fst g) path = None then 0 else 1)" using assms(3) by (simp add: one_session_def)
  then have "holders path ts = 0" using left by (simp split: if_splits)
  then show ?thesis using assms(3) left by (auto simp: one_session_def split: if_splits)
qed (auto simp: one_session_def split: if_splits)

interpretation exclusive: agent_invariant A undisturbed one_session for A
  by unfold_locales (rule one_session_kept)

subsubsection \<open>A file whose access ended\<close>

definition access_ended :: "string \<Rightarrow> agent \<Rightarrow> bool" where
  "access_ended path g \<longleftrightarrow>
     (\<exists>a h. tb_requests (fst g) path = Some a \<and> ae_held a = Some h \<and> is_terminal (se_state (he_session h))) \<and>
     (\<forall>t \<in># snd g. task_path t = path \<longrightarrow> t = TLeave path)"

lemma hold_other: "path \<noteq> p \<Longrightarrow> hold p h m path = m path"
  by (auto simp: hold_def split: option.splits)

lemma access_ended_read: "access_ended path g \<Longrightarrow> open_read path (fst g) = Inl ''not_granted''"
  by (auto simp: access_ended_def open_read_def)

lemma access_ended_kept:
  assumes "agent_step A g m g'" and "m \<noteq> MvRequest path" and "access_ended path g"
  shows "access_ended path g'"
  using assms
proof (cases rule: agent_step.cases)
  case (request fo held keys cok chain p requested T q dev flag T' ts)
  then show ?thesis using assms(2,3) request_access_tables(2) [OF request(4)] by (auto simp: access_ended_def)
next
  case (asked q dev announced sent rnonce now turns fuel oc h ups rq ts' p flag ts T)
  then have "p \<noteq> path" using assms(3) by (auto simp: access_ended_def)
  then show ?thesis using asked assms(3) by (auto simp: access_ended_def hold_other split: outcome.splits option.splits)
next
  case (watched h t chain turns fuel ge s ups flag T p ts)
  then have "p \<noteq> path" using assms(3) by (auto simp: access_ended_def)
  then show ?thesis using watched assms(3) by (auto simp: access_ended_def hold_other)
next
  case (ended w cw launched sealed dev signer base sid tns h d e h' d' reports T p flag ts)
  then have "p \<noteq> path" using assms(3) by (auto simp: access_ended_def)
  then show ?thesis using ended assms(3) by (auto simp: access_ended_def hold_other)
next
  case (read p T h ts)
  then have "p \<noteq> path" using assms(3) access_ended_read by fastforce
  then show ?thesis using read assms(3) by (auto simp: access_ended_def)
next
  case (entered p T flag T' h ts)
  then have "p \<noteq> path" using assms(3) by (auto simp: access_ended_def)
  then show ?thesis using entered assms(3) enter_simps [OF entered(4)] by (auto simp: access_ended_def)
next
  case (opened keys cok p T ans flag h T' ts)
  have o: "open_read p T = Inr h" "open_enter p T = (flag, T')" using open_file_Inr [OF opened(4)] by simp_all
  then have "p \<noteq> path" using assms(3) access_ended_read opened by fastforce
  then show ?thesis using opened assms(3) enter_simps [OF o(2)] by (auto simp: access_ended_def)
next
  case (lock p T r T' ts)
  then show ?thesis using assms(3) lock_simps [of p T r T'] by (auto simp: access_ended_def)
qed (auto simp: access_ended_def)

interpretation over: agent_invariant A "\<lambda>m. m \<noteq> MvRequest path" "access_ended path" for A path
  by unfold_locales (rule access_ended_kept)

subsection \<open>A sample run\<close>

text \<open>The sample library with terms for the sample file.\<close>

definition sample_tasks :: agent_lib where
  "sample_tasks = sample_agent\<lparr>codec_terms := (\<lambda>_. Inr [7], \<lambda>_. Some (sample_terms\<lparr>gt_file_id := replicate 32 7\<rparr>))\<rparr>"

definition sample_task_asking :: asking where
  "sample_task_asking = sample_asking\<lparr>as_target := \<lparr>tg_fid = replicate 32 7, tg_header_hash = replicate 32 7, tg_owner = [1]\<rparr>\<rparr>"

definition sample_task_held :: held where
  "sample_task_held =
     \<lparr>he_session = session_new\<lparr>se_state := StGranted, se_permission := Some Edit, se_not_before := gt_not_before sample_terms,
        se_expiry := gt_expiry sample_terms, se_max_opens := gt_max_opens sample_terms\<rparr>,
      he_terms = Some (sample_terms\<lparr>gt_file_id := replicate 32 7\<rparr>), he_envelope = Some [8]\<rparr>"

lemma sample_tasks_core: "sample_core sample_uncbor sample_tasks"
  using sample_agent_core by (simp add: sample_core_def sample_tasks_def core_lib.defs)

lemma sample_request_access:
  "request_access sample_tasks (FoContent sample_file) (Some sample_profile) (Inr sample_dev) True False ''f'' Edit (fst agent_init) =
     (Inr (sample_task_asking, sample_dev, 0),
      \<lparr>tb_flags = {}, tb_next = 1, tb_requests = [''f'' \<mapsto> \<lparr>ae_cancel = 0, ae_held = None\<rparr>], tb_sessions = Map.empty\<rparr>)"
proof -
  have "target_of sample_tasks (FoContent sample_file) = Inr (as_target sample_task_asking)"
    using sample_core_read [OF sample_tasks_core]
    by (simp add: target_of_def inspect_def sample_task_asking_def) (simp add: sample_header_def default_policy_def)
  moreover have "identity_of sample_tasks (Some sample_profile) (Inr sample_dev) = Inr (sample_dev, replicate 32 3)"
    by (simp add: identity_of_def device_key_hash_def sample_tasks_def sample_agent_lib)
  ultimately show ?thesis
    by (simp add: request_access_def agent_init_def start_request_def sample_task_asking_def sample_asking_def Let_def)
qed

lemma sample_asked:
  "\<exists>ups req. ask sample_tasks sample_task_asking sample_dev (Inr AlreadyDelivered) (Inr AlreadyDelivered) (replicate 16 4) 90
      (\<lambda>_. sample_turn) 1 = Some ((OcGranted Edit 3700, sample_task_held), ups, req)"
proof -
  have "classify sample_tasks \<lparr>re_id = [], re_kind = KGrant, re_body = [7], re_queued_at = 90\<rparr> (replicate 16 4)
     (as_target sample_task_asking) (replicate 32 3) =
       MGranted Edit (sample_terms\<lparr>gt_file_id := replicate 32 7\<rparr>) (Some [8]) None"
    by (simp add: classify_def signed_from_bytes_def MAX_BODY_LEN_def sample_values_def sample_signed_def GrantMsg_def
        terms_from_cbor_def decision_of_def classify_terms_def sample_terms_def sample_task_asking_def sample_tasks_def
        sample_agent_lib Let_def)
  then show ?thesis
    by (simp add: ask_def sample_turn_def sample_task_asking_def sample_asking_def default_limits_def take_grant_def granted_new
        sample_terms_def sample_task_held_def Let_def)
qed

lemma sample_run:
  "\<exists>T. agent_run sample_tasks agent_init [MvRequest ''f'', MvAsked ''f'', MvOpen ''f'']
     (T, {#TSession ''f'' 1 sample_task_held, TWatch ''f'' 0 sample_task_held#}) \<and> tb_sessions T ''f'' \<noteq> None"
proof -
  let ?T1 = "\<lparr>tb_flags = {}, tb_next = 1, tb_requests = [''f'' \<mapsto> \<lparr>ae_cancel = 0, ae_held = None\<rparr>], tb_sessions = Map.empty\<rparr>"
  let ?T2 = "hold_for ''f'' sample_task_held ?T1"
  have "agent_run sample_tasks agent_init ([] @ [MvRequest ''f'']) (?T1, {#TAsk ''f'' 0 sample_task_asking sample_dev#})"
    by (rule agent_run.step [OF agent_run.start])
      (use agent_step.request [OF sample_request_access] in \<open>simp add: agent_init_def\<close>)
  moreover have "agent_step sample_tasks (?T1, {#TAsk ''f'' 0 sample_task_asking sample_dev#}) (MvAsked ''f'') (?T2, {#TWatch ''f'' 0 sample_task_held#})"
    using sample_asked agent_step.asked by (fastforce simp: sample_task_held_def)
  ultimately have "agent_run sample_tasks agent_init (([] @ [MvRequest ''f'']) @ [MvAsked ''f'']) (?T2, {#TWatch ''f'' 0 sample_task_held#})"
    by (rule agent_run.step)
  moreover obtain ans T3 where o: "open_file (Inr sample_dev) True ''f'' ?T2 = (Inr (ans, 1, sample_task_held), T3)" "tb_sessions T3 ''f'' \<noteq> None"
    by (auto simp: open_file_def open_read_def open_check_def open_enter_def hold_for_def hold_def sample_task_held_def)
  ultimately have "agent_run sample_tasks agent_init ((([] @ [MvRequest ''f'']) @ [MvAsked ''f'']) @ [MvOpen ''f''])
      (T3, {#TSession ''f'' 1 sample_task_held, TWatch ''f'' 0 sample_task_held#})"
    using agent_run.step agent_step.opened by blast
  then show ?thesis using o(2) by auto
qed

section \<open>Properties\<close>



text \<open>C11. A file whose access ended stays closed: once what is held for a file is revoked, closed, denied or failed and
  no task works on it any more, opening is refused and no session of it starts, whatever happens to
  other files, until the person asks again.\<close>

theorem ended_access_stays_ended:
  assumes "tb_requests T path = Some a" and "ae_held a = Some h" and "is_terminal (se_state (he_session h))"
    and "\<forall>t \<in># ts. task_path t = path \<longrightarrow> t = TLeave path"
    and "agent_run A (T, ts) ms (T', ts')" and "MvRequest path \<notin> set ms"
  shows "open_file keys cok path T' = (Inl ''not_granted'', T') \<and> (\<forall>fl h'. TSession path fl h' \<notin># ts')"
proof -
  have "access_ended path (T, ts)" using assms(1-4) by (auto simp: access_ended_def)
  moreover have "list_all (\<lambda>m. m \<noteq> MvRequest path) ms" using assms(6) by (auto simp: list_all_iff)
  ultimately have e: "access_ended path (T', ts')" using over.run [OF assms(5)] by blast
  then have "open_read path T' = Inl ''not_granted''" using access_ended_read by fastforce
  then show ?thesis using e by (auto simp: open_file_def access_ended_def)
qed

theorem ended_access_stays_ended_witness:
  "\<exists>T T' ts'. agent_run sample_tasks (T, {#TLeave ''f''#}) [MvLeft ''f''] (T', ts') \<and>
     open_file (Inr sample_dev) True ''f'' T' = (Inl ''not_granted'', T')"
proof -
  let ?h = "sample_task_held\<lparr>he_session := session_new\<lparr>se_state := StRevoked\<rparr>\<rparr>"
  let ?a = "\<lparr>ae_cancel = 0, ae_held = Some ?h\<rparr>"
  let ?T = "\<lparr>tb_flags = {}, tb_next = 1, tb_requests = [''f'' \<mapsto> ?a], tb_sessions = Map.empty\<rparr>"
  have "agent_run sample_tasks (?T, {#TLeave ''f''#}) ([] @ [MvLeft ''f'']) (leave ''f'' ?T, {#})"
    by (rule agent_run.step [OF agent_run.start]) (rule agent_step.left)
  then have r: "agent_run sample_tasks (?T, {#TLeave ''f''#}) [MvLeft ''f''] (leave ''f'' ?T, {#})" by simp
  from ended_access_stays_ended [OF _ _ _ _ r, of "''f''" ?a ?h] show ?thesis using r by fastforce
qed

text \<open>As long as no two callers are inside \<open>open_file\<close> at once, a file is open at most once, and the table of
  open files lists exactly the files some session still works on.\<close>

theorem one_session_per_file:
  assumes "agent_run A agent_init ms (T, ts)" and "list_all undisturbed ms"
  shows "holders path ts = (if tb_sessions T path = None then 0 else 1)"
proof -
  have "one_session agent_init" by (simp add: one_session_def agent_init_def)
  then show ?thesis using exclusive.run [OF assms] by (simp add: one_session_def)
qed

theorem one_session_per_file_witness:
  "\<exists>T ts. agent_run sample_tasks agent_init [MvRequest ''f'', MvAsked ''f'', MvOpen ''f''] (T, ts) \<and> holders ''f'' ts = 1"
proof -
  obtain T where r: "agent_run sample_tasks agent_init [MvRequest ''f'', MvAsked ''f'', MvOpen ''f'']
     (T, {#TSession ''f'' 1 sample_task_held, TWatch ''f'' 0 sample_task_held#})" and s: "tb_sessions T ''f'' \<noteq> None"
    using sample_run by blast
  have "list_all undisturbed [MvRequest ''f'', MvAsked ''f'', MvOpen ''f'']" by simp
  with r one_session_per_file [OF r this, of "''f''", unfolded if_not_P [OF s]] show ?thesis by blast
qed

text \<open>Two callers that interleave open one file twice: the look into the table and the entry in it are separate.\<close>

theorem interleaved_callers_open_twice:
  assumes "open_read path T = Inr h" and "tb_sessions T path = None"
  shows "\<exists>T' f1 f2. agent_run A (T, {#}) [MvRead path, MvRead path, MvChecked path, MvChecked path, MvEntered path, MvEntered path]
    (T', {#TSession path f1 h, TSession path f2 h#})"
proof -
  obtain f1 T1 f2 T2 where e: "open_enter path T = (f1, T1)" "open_enter path T1 = (f2, T2)" by (metis surj_pair)
  have c: "open_check path T = Inr ()" using assms(2) by (simp add: open_check_def)
  have "agent_run A (T, {#}) ([] @ [MvRead path]) (T, {#TRead path h#})"
    by (rule agent_run.step [OF agent_run.start]) (rule agent_step.read [OF assms(1)])
  then have "agent_run A (T, {#}) (([] @ [MvRead path]) @ [MvRead path]) (T, {#TRead path h, TRead path h#})"
    by (rule agent_run.step) (rule agent_step.read [OF assms(1)])
  then have "agent_run A (T, {#}) ((([] @ [MvRead path]) @ [MvRead path]) @ [MvChecked path]) (T, {#TChecked path h, TRead path h#})"
    by (rule agent_run.step) (rule agent_step.checked [OF c])
  then have "agent_run A (T, {#}) (((([] @ [MvRead path]) @ [MvRead path]) @ [MvChecked path]) @ [MvChecked path])
      (T, {#TChecked path h, TChecked path h#})"
    by (rule agent_run.step) (use agent_step.checked [OF c, of A h "{#TChecked path h#}"] in \<open>simp add: add_mset_commute\<close>)
  then have "agent_run A (T, {#}) ((((([] @ [MvRead path]) @ [MvRead path]) @ [MvChecked path]) @ [MvChecked path]) @ [MvEntered path])
      (T1, {#TSession path f1 h, TChecked path h#})"
    by (rule agent_run.step) (rule agent_step.entered [OF e(1)])
  then have "agent_run A (T, {#}) (((((([] @ [MvRead path]) @ [MvRead path]) @ [MvChecked path]) @ [MvChecked path]) @ [MvEntered path])
      @ [MvEntered path]) (T2, {#TSession path f1 h, TSession path f2 h#})"
    by (rule agent_run.step)
      (use agent_step.entered [OF e(2), of A h "{#TSession path f1 h#}"] in \<open>simp add: add_mset_commute\<close>)
  then show ?thesis by auto
qed

text \<open>An open that fails puts back the approval it started from, also over a revocation that came meanwhile: the
  watch is over, and the file opens again.\<close>

theorem failed_open_undoes_revocation:
  assumes "tb_requests T path = Some a" and "he_terms h = Some t" and "se_state (he_session h) = StGranted"
    and "watch_grant A chain (struct_hash A t) (gt_expiry t) turns fuel 0 (he_session h) = Some (GeRevoked, s, ups)"
    and "materialise A w sealed dev base sid h d = (Inl err, h, d)"
  shows "\<exists>T'. agent_run A (T, {#TWatch path f1 h, TSession path f2 h#}) [MvWatched path, MvEnded path] (T', {#TLeave path#}) \<and>
    open_read path T' = Inr h"
proof -
  let ?T1 = "hold_for path (h\<lparr>he_session := s\<rparr>) T"
  have "run_session A w cw l sealed dev sg base sid tns h d = Some (EndFailed err, h, d, [Phase ''problem''])" for cw l sg tns
    using assms(5) by (simp add: run_session_def Let_def)
  note e = agent_step.ended [OF this]
  have "agent_run A (T, {#TWatch path f1 h, TSession path f2 h#}) ([] @ [MvWatched path]) (?T1, {#TSession path f2 h#})"
    by (rule agent_run.step [OF agent_run.start]) (rule agent_step.watched [OF assms(2,4)], simp)
  then have "agent_run A (T, {#TWatch path f1 h, TSession path f2 h#}) (([] @ [MvWatched path]) @ [MvEnded path])
      (hold_for path h ?T1, {#TLeave path#})"
    by (rule agent_run.step) (rule e)
  moreover have "open_read path (hold_for path h ?T1) = Inr h"
    using assms(1,3) by (simp add: open_read_Inr hold_def)
  ultimately show ?thesis by auto
qed

text \<open>Cancelling a request whose file was opened and closed makes it openable again: the watch puts back the
  approval as it was before the open, with no open counted.\<close>

theorem cancel_restores_spent_approval:
  assumes "tb_requests T path = Some \<lparr>ae_cancel = f, ae_held = Some spent\<rparr>" and "he_terms h = Some t"
    and "se_state (he_session h) = StGranted" and "se_state (he_session spent) = StClosed"
  shows "open_read path T = Inl ''not_granted'' \<and>
    (\<exists>T'. agent_run A (T, {#TWatch path f h#}) [MvCancel path, MvWatched path] (T', {#}) \<and> open_read path T' = Inr h)"
proof -
  let ?T1 = "cancel_wait path T" and ?tn = "\<lparr>tn_cancel = True, tn_waited = 0, tn_inbox = Inr [], tn_valid = Inl [], tn_now = 0\<rparr>"
  have w: "watch_grant A False (struct_hash A t) (gt_expiry t) (\<lambda>_. ?tn) (Suc 0) 0 (he_session h) = Some (GeCancelled, he_session h, [])"
    by simp
  have f: "f \<in> tb_flags ?T1" using assms(1) by (simp add: cancel_wait_def cancel_request_def)
  have "agent_run A (T, {#TWatch path f h#}) ([] @ [MvCancel path]) (?T1, {#TWatch path f h#})"
    by (rule agent_run.step [OF agent_run.start]) (rule agent_step.cancel)
  then have "agent_run A (T, {#TWatch path f h#}) (([] @ [MvCancel path]) @ [MvWatched path])
      (hold_for path (h\<lparr>he_session := he_session h\<rparr>) ?T1, {#})"
    by (rule agent_run.step) (use agent_step.watched [OF assms(2) w, of f ?T1 path "{#}"] f in simp)
  moreover have "open_read path (hold_for path (h\<lparr>he_session := he_session h\<rparr>) ?T1) = Inr h"
    using assms(1,3) by (simp add: open_read_Inr hold_def)
  moreover have "open_read path T = Inl ''not_granted''" using assms(1,4) by (simp add: open_read_def)
  ultimately show ?thesis by auto
qed

text \<open>The watch over an earlier approval writes over a later one of the same file when it ends.\<close>

theorem old_watch_drops_new_approval:
  assumes "tb_requests T path = Some a" and "open_read path T = Inr fresh" and "he_terms old = Some t"
    and "se_state (he_session old) = StGranted"
    and "watch_grant A chain (struct_hash A t) (gt_expiry t) turns fuel 0 (he_session old) = Some (GeExpired, s, ups)"
    and "se_state s = StClosed"
  shows "\<exists>T'. agent_step A (T, {#TWatch path f old#}) (MvWatched path) (T', {#}) \<and> open_read path T' = Inl ''not_granted''"
proof (intro exI conjI)
  show "agent_step A (T, {#TWatch path f old#}) (MvWatched path) (hold_for path (old\<lparr>he_session := s\<rparr>) T, {#})"
    by (rule agent_step.watched [OF assms(3,5)]) simp
  show "open_read path (hold_for path (old\<lparr>he_session := s\<rparr>) T) = Inl ''not_granted''"
    using assms(1,6) by (simp add: open_read_def hold_def)
qed

end
