(* ===== verification/Agent_Shell.thy ===== *)
theory Agent_Shell
  imports Notify Agent_Tasks
begin

text \<open>
  The agent's shell (\<open>lib.rs\<close>, \<open>setup.rs\<close> and the commands of \<open>seal.rs\<close> and \<open>chain.rs\<close> under
  \<open>apps/agent/src-tauri/src\<close>): files handed over by the desktop, the host of the device setup and what its
  screens are told, the command that locks a file with its record and registration, and the link to
  the chain that is made once. Windows, tray and logging are left out.
\<close>

subsection \<open>lib.rs: files handed to the agent\<close>

definition path_extension :: "string \<Rightarrow> string option" where
  "path_extension p = Option.bind (path_file_name p) extension"

definition files_from_args :: "string list \<Rightarrow> string list" where
  "files_from_args args =
     filter (\<lambda>p. case path_extension p of Some e \<Rightarrow> eq_ignore_ascii_case e ''zbacs'' | None \<Rightarrow> False)
       (filter (\<lambda>a. \<not> (case a of c # _ \<Rightarrow> c = CHR ''-'' | [] \<Rightarrow> False)) (drop 1 args))"

record opened_file =
  of_path :: string
  of_sealed :: bool
  of_version :: "u32 option"
  of_default_permission :: "string option"
  of_size :: "u64 option"
  of_detail :: "(bytes \<times> bytes \<times> u32 \<times> u32 \<times> nat) option"
  of_problem :: "string option"

definition INSPECT_PROBLEMS :: "string list" where
  "INSPECT_PROBLEMS = [''not_sealed'', ''newer_version'', ''missing'', ''damaged'']"

fun default_permission_word :: "permission \<Rightarrow> string" where
  "default_permission_word Deny = ''deny''"
| "default_permission_word ReadOnly = ''read-only''"
| "default_permission_word Edit = ''edit''"

definition inspect_file :: "'x core_lib_scheme \<Rightarrow> (string \<Rightarrow> file_open) \<Rightarrow> string \<Rightarrow> opened_file" where
  "inspect_file X disk p =
     (let out = \<lparr>of_path = p, of_sealed = False, of_version = None, of_default_permission = None, of_size = None,
                 of_detail = None, of_problem = None\<rparr> in
      case disk p of
        FoNotFound \<Rightarrow> out\<lparr>of_problem := Some ''missing''\<rparr>
      | FoDenied \<Rightarrow> out\<lparr>of_problem := Some ''damaged''\<rparr>
      | FoContent bs \<Rightarrow>
          (case inspect X bs of
             Inr (h, hh) \<Rightarrow>
               let b = hdr_body h in
               out\<lparr>of_sealed := True, of_version := Some (hb_ver b),
                   of_default_permission := Some (default_permission_word (pol_default (hb_pol b))),
                   of_size := Some (hb_plen b),
                   of_detail := Some (hb_fid b, hh, hb_ver b, hb_chunk b, length (hb_env b))\<rparr>
           | Inl BadMagic \<Rightarrow> out\<lparr>of_problem := Some ''not_sealed''\<rparr>
           | Inl (UnsupportedVersion _ _) \<Rightarrow> out\<lparr>of_problem := Some ''newer_version''\<rparr>
           | Inl _ \<Rightarrow> out\<lparr>of_problem := Some ''damaged''\<rparr>))"

text \<open>What the web view is sent at once, and what is kept for it.\<close>

definition deliver ::
  "'x core_lib_scheme \<Rightarrow> (string \<Rightarrow> file_open) \<Rightarrow> string list \<Rightarrow> opened_file list \<Rightarrow> opened_file list \<times> opened_file list" where
  "deliver X disk paths pending =
     (if paths = [] then ([], pending)
      else let files = map (inspect_file X disk) paths in (files, pending @ files))"

definition take_pending :: "opened_file list \<Rightarrow> opened_file list \<times> opened_file list" where
  "take_pending pending = (pending, [])"

subsection \<open>setup.rs: the host of the setup\<close>

datatype style_arg = SaBiometric | SaThisDevice

fun style_from_arg :: "style_arg \<Rightarrow> approval_style" where
  "style_from_arg SaBiometric = Biometric"
| "style_from_arg SaThisDevice = ThisDevice"

fun style_id :: "approval_style \<Rightarrow> string" where
  "style_id Biometric = ''biometric''"
| "style_id ThisDevice = ''this_device''"

fun pending_id :: "pending \<Rightarrow> string" where
  "pending_id AccountOnChain = ''account_on_chain''"
| "pending_id DeviceEnrolment = ''device_enrolment''"
| "pending_id RecoveryCode = ''recovery_code''"
| "pending_id VolatileKeyStore = ''volatile_key_store''"
| "pending_id SoftwareSigner = ''software_signer''"

record choice =
  co_id :: string
  co_available :: bool
  co_hardware_backed :: bool

record setup_status =
  su_onboarded :: bool
  su_can_set_up :: bool
  su_blocked :: "string option"
  su_choices :: "choice list"
  su_recommended :: "string option"
  su_pending :: "string list"
  su_style :: "string option"

text \<open>The host: the factory of this build's signers, if it has any.\<close>

record setup_host =
  sh_setup :: "signer_factory option"
  sh_blocked :: "string option"

definition with_store :: "signer_factory option \<Rightarrow> setup_host" where
  "with_store factory =
     (case factory of
        Some f \<Rightarrow> \<lparr>sh_setup = Some f, sh_blocked = None\<rparr>
      | None \<Rightarrow> \<lparr>sh_setup = None, sh_blocked = Some ''no_signer''\<rparr>)"

text \<open>The keychain of the system when the build has it and it works, else a store in memory; the flag says
  whether secrets survive a restart.\<close>

definition key_store_persistent :: "bool \<Rightarrow> bool \<Rightarrow> bool" where
  "key_store_persistent os_feature available = (os_feature \<and> available)"

definition no_signer :: auth_error where
  "no_signer = AuHardware ''this build has no signer''"

definition host_owner_keys ::
  "'x crypto_scheme \<Rightarrow> setup_io \<Rightarrow> (string \<Rightarrow> bytes) \<Rightarrow> setup_host \<Rightarrow> setup_state \<Rightarrow> (auth_error + owner_keys) \<times> setup_state" where
  "host_owner_keys X io fresh host s =
     (case sh_setup host of None \<Rightarrow> (Inl no_signer, s) | Some _ \<Rightarrow> setup_owner_keys X io fresh s)"

definition host_device_keys ::
  "'x crypto_scheme \<Rightarrow> setup_io \<Rightarrow> (string \<Rightarrow> bytes) \<Rightarrow> setup_host \<Rightarrow> setup_state \<Rightarrow> (auth_error + device_key_pair) \<times> setup_state" where
  "host_device_keys X io fresh host s =
     (case sh_setup host of None \<Rightarrow> (Inl no_signer, s) | Some _ \<Rightarrow> setup_device_keys X io fresh s)"

definition host_adopt_account ::
  "profile_codec \<Rightarrow> setup_io \<Rightarrow> setup_host \<Rightarrow> bytes \<Rightarrow> setup_state \<Rightarrow> (auth_error + pending list) \<times> setup_state" where
  "host_adopt_account P io host account s =
     (case sh_setup host of None \<Rightarrow> (Inl no_signer, s) | Some F \<Rightarrow> adopt_account P F io account s)"

definition host_complete ::
  "'x crypto_scheme \<Rightarrow> profile_codec \<Rightarrow> setup_io \<Rightarrow> (string \<Rightarrow> bytes) \<Rightarrow> setup_host \<Rightarrow> approval_style \<Rightarrow> u64 \<Rightarrow> setup_state \<Rightarrow>
     (auth_error + prepared) \<times> setup_state" where
  "host_complete X P io fresh host style now s =
     (case sh_setup host of None \<Rightarrow> (Inl no_signer, s) | Some F \<Rightarrow> setup_complete X P F io fresh style now s)"

definition host_resume :: "profile_codec \<Rightarrow> setup_io \<Rightarrow> setup_host \<Rightarrow> setup_state \<Rightarrow> prepared option" where
  "host_resume P io host s =
     (case sh_setup host of
        None \<Rightarrow> None
      | Some F \<Rightarrow> (case setup_resume P F io s of Inr r \<Rightarrow> r | Inl _ \<Rightarrow> None))"

definition host_status :: "setup_host \<Rightarrow> prepared option \<Rightarrow> setup_status" where
  "host_status host held =
     (case sh_setup host of
        None \<Rightarrow> \<lparr>su_onboarded = False, su_can_set_up = False, su_blocked = sh_blocked host, su_choices = [],
                 su_recommended = None, su_pending = [], su_style = None\<rparr>
      | Some F \<Rightarrow>
          let caps = sf_capabilities F in
          \<lparr>su_onboarded = (held \<noteq> None), su_can_set_up = True, su_blocked = None,
           su_choices =
             [\<lparr>co_id = ''biometric'', co_available = offers caps Biometric, co_hardware_backed = cp_os_authenticator caps\<rparr>,
              \<lparr>co_id = ''this_device'', co_available = offers caps ThisDevice, co_hardware_backed = cp_hardware_key caps\<rparr>],
           su_recommended = Some (style_id (recommended caps)),
           su_pending = (case held of Some p \<Rightarrow> map pending_id (pp_pending p) | None \<Rightarrow> []),
           su_style = map_option (\<lambda>p. style_id (dp_style (pp_profile p))) held\<rparr>)"

fun error_id :: "auth_error \<Rightarrow> string" where
  "error_id AuCancelled = ''cancelled''"
| "error_id (AuUnsupported _) = ''unsupported''"
| "error_id (ConfirmationUnavailable _ _) = ''unsupported''"
| "error_id _ = ''failed''"

definition SETUP_PROBLEMS :: "string list" where
  "SETUP_PROBLEMS = [''cancelled'', ''unsupported'', ''no_signer'', ''failed'']"

subsection \<open>chain.rs: the link, made once\<close>

text \<open>What the agent holds in memory and what setup has on disk.\<close>

record shell =
  sx_identity :: "prepared option"
  sx_chain :: "chain_link option"
  sx_setup :: setup_state

definition adopt_owner :: "profile_codec \<Rightarrow> setup_io \<Rightarrow> setup_host \<Rightarrow> address \<Rightarrow> shell \<Rightarrow> shell" where
  "adopt_owner P io host owner x =
     (case host_adopt_account P io host owner (sx_setup x) of
        (Inl _, s) \<Rightarrow> x\<lparr>sx_setup := s\<rparr>
      | (Inr pending, s) \<Rightarrow>
          x\<lparr>sx_setup := s,
            sx_identity := map_option (\<lambda>p. p\<lparr>pp_profile := (pp_profile p)\<lparr>dp_account := Some owner\<rparr>, pp_pending := pending\<rparr>)
              (sx_identity x)\<rparr>)"

text \<open>\<open>connect\<close> is \<open>ChainLink::connect\<close> with the node and the writers behind it, \<open>load\<close> reads the deployment.\<close>

definition deployment_load ::
  "(string \<Rightarrow> chain_error + deployment) \<Rightarrow> (string \<Rightarrow> chain_error + deployment) \<Rightarrow> deployment_source \<Rightarrow> string + deployment" where
  "deployment_load from_file from_json src =
     map_err chain_display (case src of DsPath p \<Rightarrow> from_file p | DsJson j \<Rightarrow> from_json j)"

definition ensure ::
  "profile_codec \<Rightarrow> setup_io \<Rightarrow> setup_host \<Rightarrow> env_config option \<Rightarrow> (deployment_source \<Rightarrow> string + deployment) \<Rightarrow>
     (deployment \<Rightarrow> writer_setup \<Rightarrow> string + chain_link) \<Rightarrow> shell \<Rightarrow> shell" where
  "ensure P io host config ld connect x =
     (case config of
        None \<Rightarrow> x
      | Some c \<Rightarrow>
          if sx_chain x \<noteq> None then x
          else case ld (ec_deployment c) of
            Inl _ \<Rightarrow> x
          | Inr dep \<Rightarrow>
              (case connect dep (writer_setup_for c dep (map_option pp_profile (sx_identity x))) of
                 Inl _ \<Rightarrow> x
               | Inr link \<Rightarrow>
                   let x1 = (case link_owner link of Some ow \<Rightarrow> adopt_owner P io host ow x | None \<Rightarrow> x)
                   in x1\<lparr>sx_chain := Some link\<rparr>))"

definition complete_setup ::
  "'x crypto_scheme \<Rightarrow> profile_codec \<Rightarrow> setup_io \<Rightarrow> (string \<Rightarrow> bytes) \<Rightarrow> setup_host \<Rightarrow> (shell \<Rightarrow> shell) \<Rightarrow> style_arg \<Rightarrow> u64 \<Rightarrow> shell \<Rightarrow>
     (string + setup_status) \<times> shell" where
  "complete_setup X P io fresh host ens style now x =
     (case sh_setup host of
        None \<Rightarrow> (Inl ''no_signer'', x)
      | Some F \<Rightarrow>
          (case setup_complete X P F io fresh (style_from_arg style) now (sx_setup x) of
             (Inl e, s) \<Rightarrow> (Inl (error_id e), x\<lparr>sx_setup := s\<rparr>)
           | (Inr p, s) \<Rightarrow>
               (Inr (host_status host (Some p)), ens (x\<lparr>sx_setup := s, sx_identity := Some p\<rparr>))))"

definition restore_setup :: "profile_codec \<Rightarrow> setup_io \<Rightarrow> setup_host \<Rightarrow> shell \<Rightarrow> shell" where
  "restore_setup P io host x =
     (case host_resume P io host (sx_setup x) of Some p \<Rightarrow> x\<lparr>sx_identity := Some p\<rparr> | None \<Rightarrow> x)"

subsection \<open>seal.rs: the command\<close>

definition register_on_chain ::
  "'x agent_lib_scheme \<Rightarrow> json \<Rightarrow> store_io \<Rightarrow> store_io \<Rightarrow> chain_link \<Rightarrow> seal_result \<Rightarrow> ledger_disk \<Rightarrow>
     (string + unit) \<times> seal_result \<times> ledger_disk" where
  "register_on_chain A J io1 io2 link res d =
     (case (ln_writer link, hex32 A (sl_fid res), hex32 A (sl_header_hash res)) of
        (Some _, Some fid, Some hh) \<Rightarrow>
          (case link_write A J io1 link (CRegister fid hh) (WRegister fid) d of
             (Inl _, d1) \<Rightarrow> (Inl ''failed'', res, d1)
           | (Inr tx, d1) \<Rightarrow>
               let d2 = snd (set_registered_tx J io2 (sl_fid res) (hexe A tx) d1) in
               (Inr (), res\<lparr>sl_pending := filter (\<lambda>p. p \<noteq> ''chain_registration'') (sl_pending res),
                           sl_tx_hash := Some (hexe A tx)\<rparr>, d2))
      | _ \<Rightarrow> (Inl ''failed'', res, d))"

record seal_world =
  sx_io :: io_env
  sx_view :: os_view
  sx_rng :: seal_rng
  sx_now :: u64
  sx_store :: store_io
  sx_append :: append_io
  sx_store2 :: store_io
  sx_store3 :: store_io

definition seal_file ::
  "'x agent_lib_scheme \<Rightarrow> json \<Rightarrow> audit_json \<Rightarrow> seal_world \<Rightarrow> device_profile option \<Rightarrow> auth_error + owner_keys \<Rightarrow> chain_link option \<Rightarrow>
     seal_request \<Rightarrow> fs \<times> ledger_disk \<times> audit_file \<Rightarrow> (string + seal_result) \<times> fs \<times> ledger_disk \<times> audit_file" where
  "seal_file A J AJ w held owner chain q = (\<lambda>(fs, d, f).
     case rbind (ok_or held ''not_set_up'') (\<lambda>prof.
          rbind (map_err (\<lambda>_. ''not_set_up'') owner) (\<lambda>ow. Inr (prof, ow))) of
       Inl e \<Rightarrow> (Inl e, fs, d, f)
     | Inr (prof, ow) \<Rightarrow>
         (case seal_now (hexe A) A (sx_io w) (sx_view w) (sx_rng w) ow prof q fs of
            (Inl e, fs1) \<Rightarrow> (Inl e, fs1, d, f)
          | (Inr res, fs1) \<Rightarrow>
              let entry = entry_from_seal res q (sx_now w);
                  d1 = snd (record_entry J (sx_store w) entry d);
                  f1 = (case hex32 A (sl_fid res) of
                          Some fid \<Rightarrow> audit_record (hexe A) AJ (sx_append w) (sx_now w) AeSealed RoleOwner fid
                                       (Some (en_name entry)) (Some (en_permission entry)) f
                        | None \<Rightarrow> f)
              in (case chain of
                    Some link \<Rightarrow>
                      if ln_writer link \<noteq> None
                      then (case register_on_chain A J (sx_store2 w) (sx_store3 w) link res d1 of
                              (_, res', d2) \<Rightarrow> (Inr res', fs1, d2, f1))
                      else (Inr res, fs1, d1, f1)
                  | None \<Rightarrow> (Inr res, fs1, d1, f1))))"

subsection \<open>Lemmas\<close>

lemma inspect_file_problem:
  "of_problem (inspect_file X disk p) = None \<longleftrightarrow> of_sealed (inspect_file X disk p)"
  "of_problem (inspect_file X disk p) \<in> insert None (Some ` set INSPECT_PROBLEMS)"
  by (simp_all add: inspect_file_def INSPECT_PROBLEMS_def Let_def split: file_open.split sum.split core_error.split prod.split)

text \<open>Handing over and collecting, in any order.\<close>

datatype handover = HoDeliver "string \<Rightarrow> file_open" "string list" | HoTake

fun hand_run :: "'x core_lib_scheme \<Rightarrow> handover list \<Rightarrow> opened_file list \<Rightarrow> opened_file list \<times> opened_file list" where
  "hand_run X [] pending = ([], pending)"
| "hand_run X (HoDeliver disk paths # hs) pending = hand_run X hs (snd (deliver X disk paths pending))"
| "hand_run X (HoTake # hs) pending =
     (let (got, kept) = take_pending pending; (rest, pending') = hand_run X hs kept in (got @ rest, pending'))"

fun handed :: "'x core_lib_scheme \<Rightarrow> handover list \<Rightarrow> opened_file list" where
  "handed X [] = []"
| "handed X (HoDeliver disk paths # hs) = map (inspect_file X disk) paths @ handed X hs"
| "handed X (HoTake # hs) = handed X hs"

lemma link_write_load:
  assumes "json_lawful J" and "link_write A J io link call about d = (r, d')" and "load J d = Inr l"
  shows "\<exists>l'. load J d' = Inr l' \<and> lf_files l' = lf_files l"
proof -
  have "\<exists>l'. load J d2 = Inr l' \<and> lf_files l' = lf_files l" if "clear_deferred_bumps J i w d = (r2, d2)" for i w r2 d2
    using that unfolding clear_deferred_bumps_def
    by (rule ledger_update_cases [OF assms(1)]) (use assms(3) in auto)
  then show ?thesis
    using assms(2,3) by (auto simp: link_write_def Let_def split: option.splits sum.splits if_splits) (metis prod.collapse)
qed

lemma set_registered_load:
  assumes "json_lawful J" and "set_registered_tx J io fid tx d = (r, d')" and "load J d = Inr l"
    and "bt_get (lf_files l) fid = Some e"
  shows "\<exists>l' e'. load J d' = Inr l' \<and> bt_get (lf_files l') fid = Some e' \<and> e'\<lparr>en_registered_tx := None\<rparr> = e\<lparr>en_registered_tx := None\<rparr>"
  using assms(2) unfolding set_registered_tx_def
  by (rule ledger_update_cases [OF assms(1)]) (use assms(3,4) in \<open>auto simp: rbind_eq_Inr ok_or_eq_Inr\<close>)

lemma record_entry_load:
  assumes "json_lawful J" and "record_entry J io e d = (Inr u, d')"
  shows "\<exists>l. load J d' = Inr l \<and> bt_get (lf_files l) (en_fid e) = Some e"
  using assms(2) unfolding record_entry_def
  by (rule ledger_update_cases [OF assms(1)]) auto

lemma register_keeps_entry:
  assumes "json_lawful J" and "register_on_chain A J io1 io2 link res d = (r, res', d')" and "load J d = Inr l"
    and "bt_get (lf_files l) (sl_fid res) = Some e"
  shows "\<exists>l' e'. load J d' = Inr l' \<and> bt_get (lf_files l') (sl_fid res) = Some e' \<and> e'\<lparr>en_registered_tx := None\<rparr> = e\<lparr>en_registered_tx := None\<rparr>"
proof (cases "(ln_writer link, hex32 A (sl_fid res), hex32 A (sl_header_hash res))")
  case (fields w f h)
  obtain r1 d1 where lw: "link_write A J io1 link (CRegister (the f) (the h)) (WRegister (the f)) d = (r1, d1)" by fastforce
  obtain l1 where l1: "load J d1 = Inr l1" "lf_files l1 = lf_files l" using link_write_load [OF assms(1) lw assms(3)] by blast
  consider "w = None \<or> f = None \<or> h = None" "d' = d" | "d' = d1" | tx where "d' = snd (set_registered_tx J io2 (sl_fid res) tx d1)"
    using assms(2) fields lw by (auto simp: register_on_chain_def Let_def split: option.splits sum.splits)
  then show ?thesis
  proof cases
    case 1
    then show ?thesis using assms(3,4) by auto
  next
    case 2
    then show ?thesis using l1 assms(4) by auto
  next
    case (3 tx)
    then show ?thesis using set_registered_load [OF assms(1) _ l1(1)] l1(2) assms(4) by (metis prod.collapse)
  qed
qed

lemma register_result:
  assumes "register_on_chain A J io1 io2 link res d = (r, res', d')"
  shows "res' = res \<or> (\<exists>tx. res' = res\<lparr>sl_pending := filter (\<lambda>p. p \<noteq> ''chain_registration'') (sl_pending res), sl_tx_hash := Some tx\<rparr>)"
  using assms by (auto simp: register_on_chain_def Let_def split: option.splits sum.splits prod.splits)

text \<open>What a successful \<open>seal_file\<close> did: the sealing, the record, and perhaps the registration.\<close>

lemma seal_file_Inr:
  assumes "seal_file A J AJ w held owner chain q (fs, d, f) = (Inr res', fs', d', f')"
  obtains prof ow res d1 where "held = Some prof" "owner = Inr ow"
    "seal_now (hexe A) A (sx_io w) (sx_view w) (sx_rng w) ow prof q fs = (Inr res, fs')"
    "d1 = snd (record_entry J (sx_store w) (entry_from_seal res q (sx_now w)) d)"
    "res' = res \<and> d' = d1 \<or>
     (\<exists>link r. chain = Some link \<and> register_on_chain A J (sx_store2 w) (sx_store3 w) link res d1 = (r, res', d'))"
proof -
  obtain prof ow where p: "held = Some prof" "owner = Inr ow"
    using assms by (cases held; cases owner) (auto simp: seal_file_def)
  obtain r fs1 where sn: "seal_now (hexe A) A (sx_io w) (sx_view w) (sx_rng w) ow prof q fs = (r, fs1)" by fastforce
  obtain res where r: "r = Inr res" "fs1 = fs'"
    using assms p sn by (cases r) (auto simp: seal_file_def Let_def split: option.splits if_splits prod.splits)
  show thesis
    using that [OF p sn [unfolded r] refl] assms p sn r
    by (auto simp: seal_file_def Let_def split: option.splits if_splits prod.splits)
qed

lemma entry_from_seal_cong:
  "entry_from_seal (res\<lparr>sl_pending := ps, sl_tx_hash := tx\<rparr>) q now = entry_from_seal res q now"
  by (simp add: entry_from_seal_def)

lemma seal_now_result:
  assumes "seal_now hx X io v rng ow prof q fs = (Inr res, fs')"
  obtains h hh where "rbind (ok_or (fs' (sl_output res)) Io) (inspect X) = Inr (h, hh)" "sl_fid res = hx (hb_fid (hdr_body h))"
    "sl_header_hash res = hx hh" "sl_original res = sr_path q" "sl_pending res = [''chain_registration'']" "sl_tx_hash res = None"
  using assms by (auto simp: seal_now_def Let_def split: if_splits sum.splits prod.splits)

section \<open>Properties\<close>

text \<open>A locked file can be approved later: when locking succeeds and its record was written, the record finds the
  file under the identity and the header hash of the container now on disk, with the name, the place and
  the budget that were chosen, whatever became of the registration on the chain; a request for this very
  version is therefore one the owner may allow. The chain registration is either pending or has its
  transaction.\<close>

theorem locked_file_recorded:
  assumes "json_lawful J" and "seal_file A J AJ w held owner chain q (fs, d, f) = (Inr res, fs', d', f')"
    and "is_ok (fst (record_entry J (sx_store w) (entry_from_seal res q (sx_now w)) d))"
  shows "\<exists>h hh e. rbind (ok_or (fs' (sl_output res)) Io) (inspect A) = Inr (h, hh) \<and>
    find_entry (hexe A) J (hb_fid (hdr_body h)) d' = Some e \<and> en_header_hash e = hexe A hh \<and> en_name e = snd (sr_path q) \<and>
    en_path e = sl_output res \<and> en_max_opens e = pol_max (request_policy q) \<and>
    (\<forall>rq ok. ar_fid rq = hb_fid (hdr_body h) \<and> ar_header_hash rq = hh \<longrightarrow>
       ic_can_allow (incoming_on A \<lparr>pq_request = rq, pq_entry = find_entry (hexe A) J (ar_fid rq) d'\<rparr> ok)) \<and>
    (sl_tx_hash res = None \<longleftrightarrow> ''chain_registration'' \<in> set (sl_pending res))"
proof -
  from assms(2) obtain prof ow res0 d1 where sn: "seal_now (hexe A) A (sx_io w) (sx_view w) (sx_rng w) ow prof q fs = (Inr res0, fs')"
    and d1: "d1 = snd (record_entry J (sx_store w) (entry_from_seal res0 q (sx_now w)) d)"
    and reg: "res = res0 \<and> d' = d1 \<or>
      (\<exists>link r. chain = Some link \<and> register_on_chain A J (sx_store2 w) (sx_store3 w) link res0 d1 = (r, res, d'))"
    by (rule seal_file_Inr)
  from sn obtain h hh where s: "rbind (ok_or (fs' (sl_output res0)) Io) (inspect A) = Inr (h, hh)" "sl_fid res0 = hexe A (hb_fid (hdr_body h))"
    "sl_header_hash res0 = hexe A hh" "sl_original res0 = sr_path q" "sl_pending res0 = [''chain_registration'']" "sl_tx_hash res0 = None"
    by (rule seal_now_result)
  let ?e = "entry_from_seal res0 q (sx_now w)"
  have rr: "res = res0 \<or> (\<exists>tx. res = res0\<lparr>sl_pending := [], sl_tx_hash := Some tx\<rparr>)"
    using reg register_result s(5) by fastforce
  then have e: "entry_from_seal res q (sx_now w) = ?e" and out: "sl_output res = sl_output res0"
    and tx: "sl_tx_hash res = None \<longleftrightarrow> ''chain_registration'' \<in> set (sl_pending res)"
    using s(5,6) by (auto simp: entry_from_seal_def)
  obtain u where re: "record_entry J (sx_store w) ?e d = (Inr u, d1)"
    using assms(3) d1 unfolding e by (metis is_ok_iff prod.collapse)
  have "en_fid ?e = sl_fid res0" by (simp add: entry_from_seal_def Let_def)
  then obtain l where l: "load J d1 = Inr l" "bt_get (lf_files l) (sl_fid res0) = Some ?e"
    using record_entry_load [OF assms(1) re] by auto
  obtain l' e' where l': "load J d' = Inr l'" "bt_get (lf_files l') (sl_fid res0) = Some e'"
    "e'\<lparr>en_registered_tx := None\<rparr> = ?e\<lparr>en_registered_tx := None\<rparr>"
    using reg l register_keeps_entry [OF assms(1) _ l] by blast
  have "en_header_hash e' = en_header_hash ?e \<and> en_name e' = en_name ?e \<and> en_path e' = en_path ?e \<and> en_max_opens e' = en_max_opens ?e"
    using l'(3) by (metis entry.select_convs entry.surjective entry.update_convs(11))
  then have e': "en_header_hash e' = hexe A hh" "en_name e' = snd (sr_path q)" "en_path e' = sl_output res"
    "en_max_opens e' = pol_max (request_policy q)"
    using s out by (simp_all add: entry_from_seal_def Let_def)
  have "find_entry (hexe A) J (hb_fid (hdr_body h)) d' = Some e'" using l' s(2) by (simp add: find_entry_def)
  then show ?thesis using s(1) e' tx out
    by (intro exI [of _ h] exI [of _ hh] exI [of _ e']) simp
qed

theorem locked_file_recorded_witness:
  "\<exists>J res fs' d' f' e. seal_file sample_agent J \<lparr>aj_to = \<lambda>_. Inl [], aj_from = \<lambda>_. None\<rparr>
      \<lparr>sx_io = sample_io, sx_view = \<lparr>ov_dirs = {}, ov_denied = {}\<rparr>, sx_rng = sample_rng, sx_now = 5, sx_store = good_io,
        sx_append = \<lparr>ai_mkdir = True, ai_open = True, ai_peek = True, ai_room = None\<rparr>, sx_store2 = good_io, sx_store3 = good_io\<rparr>
      (Some (sample_profile\<lparr>dp_account := Some [1]\<rparr>)) (Inr \<lparr>sealing = sample_keys, signing = []\<rparr>) None sample_lock
      ([([], ''a'') \<mapsto> [42]], disk_of [0], None) = (Inr res, fs', d', f') \<and>
     find_entry (hexe sample_agent) J (replicate 32 7) d' = Some e \<and> en_name e = ''a''"
proof -
  let ?res = "\<lparr>sl_output = ([], ''a.zbacs''), sl_output_name = ''a.zbacs'', sl_original = ([], ''a''),
        sl_size = length sample_file, sl_pending = [''chain_registration''], sl_fid = hexe sample_agent (replicate 32 7),
        sl_header_hash = hexe sample_agent (replicate 32 7), sl_tx_hash = None\<rparr>"
  let ?e = "entry_from_seal ?res sample_lock 5"
  let ?J = "two_json ledger_default (ledger_default\<lparr>lf_files := [(en_fid ?e, ?e)]\<rparr>)"
  let ?AJ = "\<lparr>aj_to = \<lambda>_. Inl [], aj_from = \<lambda>_. None\<rparr>"
  let ?w = "\<lparr>sx_io = sample_io, sx_view = \<lparr>ov_dirs = {}, ov_denied = {}\<rparr>, sx_rng = sample_rng, sx_now = 5, sx_store = good_io,
        sx_append = \<lparr>ai_mkdir = True, ai_open = True, ai_peek = True, ai_room = None\<rparr>, sx_store2 = good_io, sx_store3 = good_io\<rparr>"
  let ?held = "Some (sample_profile\<lparr>dp_account := Some [1]\<rparr>)" and ?ow = "Inr \<lparr>sealing = sample_keys, signing = []\<rparr>"
  have rec: "record_entry ?J good_io ?e (disk_of [0]) = (Inr (), disk_of [1])"
    unfolding record_entry_def by (rule two_json_update) (simp_all add: ledger_default_def)
  obtain f' where s: "seal_file sample_agent ?J ?AJ ?w ?held ?ow None sample_lock ([([], ''a'') \<mapsto> [42]], disk_of [0], None) =
      (Inr ?res, [([], ''a'') \<mapsto> [42], ([], ''a.zbacs'') \<mapsto> sample_file], disk_of [1], f')"
    using sample_core_seal_now [OF sample_agent_core, of "hexe sample_agent" "[]"] rec by (simp add: seal_file_def Let_def)
  have ok: "is_ok (fst (record_entry ?J (sx_store ?w) (entry_from_seal ?res sample_lock (sx_now ?w)) (disk_of [0])))"
    using rec by simp
  have i: "rbind (ok_or (([([], ''a'') \<mapsto> [42], ([], ''a.zbacs'') \<mapsto> sample_file]) (sl_output ?res)) Io) (inspect sample_agent) =
      Inr (sample_header, replicate 32 7)"
    using sample_core_read [OF sample_agent_core] by (simp add: inspect_def ok_or_def)
  have fid: "hb_fid (hdr_body sample_header) = replicate 32 7" by (simp add: sample_header_def)
  obtain e where "find_entry (hexe sample_agent) ?J (replicate 32 7) (disk_of [1]) = Some e" "en_name e = snd (sr_path sample_lock)"
    using locked_file_recorded [OF two_json_lawful s ok, unfolded i] fid by (metis Inr_inject prod.inject)
  moreover have "snd (sr_path sample_lock) = ''a''" by simp
  ultimately show ?thesis using s by (metis (no_types))
qed

text \<open>No file handed to the agent is lost: over every order of double-clicks and of the screen collecting,
  what the screen collected and what still waits is just what was handed over, in that order; and each
  file is told as sealed, or with one of the known problems.\<close>

theorem handed_files_not_lost:
  "(let (got, kept) = hand_run X hs pending in got @ kept = pending @ handed X hs) \<and>
   (\<forall>r. r \<in> set (handed X hs) \<longrightarrow> (of_sealed r \<longleftrightarrow> of_problem r = None) \<and> of_problem r \<in> insert None (Some ` set INSPECT_PROBLEMS))"
proof
  show "let (got, kept) = hand_run X hs pending in got @ kept = pending @ handed X hs"
    by (induction X hs pending rule: hand_run.induct)
      (auto simp: deliver_def take_pending_def Let_def split: prod.splits if_splits)
  have "\<exists>disk p. r = inspect_file X disk p" if "r \<in> set (handed X hs)" for r
    using that by (induction X hs rule: handed.induct) auto
  then show "\<forall>r. r \<in> set (handed X hs) \<longrightarrow> (of_sealed r \<longleftrightarrow> of_problem r = None) \<and>
      of_problem r \<in> insert None (Some ` set INSPECT_PROBLEMS)"
    using inspect_file_problem by metis
qed

text \<open>A link made before setup has finished has no writer, and making it again after setup changes nothing: the
  owner's account waits for a restart.\<close>

theorem link_before_setup_stays_read_only:
  assumes "ec_key c = None" and "sx_identity x = None" and "sx_chain x = None" and "ld (ec_deployment c) = Inr dep"
    and "\<And>ws. connect dep ws = link_connect reader_err cid direct account dep ws" and "reader_err = None" and "cid = Inr n"
  shows "\<exists>link. sx_chain (ensure P io host (Some c) ld connect x) = Some link \<and> ln_writer link = None \<and>
    ensure P io' host (Some c) ld' connect' (x2\<lparr>sx_chain := Some link\<rparr>) = x2\<lparr>sx_chain := Some link\<rparr>"
  using assms
  by (auto simp: ensure_def writer_setup_for_def link_connect_def link_owner_def split: option.splits)

end
