(* ===== verification/Backup.thy ===== *)
theory Backup
  imports Header Sample_Lib
begin

text \<open>
  Recovery codes and the encrypted key backup (\<open>crates/zbacs-core/src/backup.rs\<close>).
  A Rust \<open>String\<close> is a list of Unicode code points. Argon2id and the CBOR of the two backup
  structs are parameters; what the operating system's generator draws is an argument.
\<close>

definition BACKUP_MAGIC :: bytes where "BACKUP_MAGIC = ascii ''ZBACSBK'' @ [0]"
definition BACKUP_VERSION :: u8 where "BACKUP_VERSION = 1"
definition ARGON_MEM_KIB :: u32 where "ARGON_MEM_KIB = 64 * 1024"
definition ARGON_PASSES :: u32 where "ARGON_PASSES = 3"
definition ARGON_LANES :: u32 where "ARGON_LANES = 1"
definition BACKUP_KDF_DOMAIN :: bytes where "BACKUP_KDF_DOMAIN = ascii ''ZBACS-BACKUP-v1''"
definition ALPHABET :: bytes where "ALPHABET = ascii ''0123456789ABCDEFGHJKMNPQRSTVWXYZ''"
definition GROUPS :: nat where "GROUPS = 5"
definition PER_GROUP :: nat where "PER_GROUP = 5"

text \<open>Characters are code points; a recovery code is the text shown to the person.\<close>

type_synonym code_point = nat

definition dash :: code_point where "dash = 45"

definition is_whitespace :: "code_point \<Rightarrow> bool" where
  "is_whitespace c \<longleftrightarrow> 9 \<le> c \<and> c \<le> 13 \<or> c = 32 \<or> c = 0x85 \<or> c = 0xA0 \<or> c = 0x1680 \<or> 0x2000 \<le> c \<and> c \<le> 0x200A
     \<or> c = 0x2028 \<or> c = 0x2029 \<or> c = 0x202F \<or> c = 0x205F \<or> c = 0x3000"

definition to_ascii_uppercase :: "code_point \<Rightarrow> code_point" where
  "to_ascii_uppercase c = (if 97 \<le> c \<and> c \<le> 122 then c - 32 else c)"

definition utf8_len :: "code_point \<Rightarrow> nat" where
  "utf8_len c = (if c < 0x80 then 1 else if c < 0x800 then 2 else if c < 0x10000 then 3 else 4)"

definition in_alphabet :: "code_point \<Rightarrow> bool" where
  "in_alphabet c \<longleftrightarrow> c \<in> set (map unat ALPHABET)"

fun push_code :: "nat \<Rightarrow> bytes \<Rightarrow> code_point list" where
  "push_code i [] = []"
| "push_code i (b # bs) =
     (if i > 0 \<and> i mod PER_GROUP = 0 then [dash] else [])
     @ unat (ALPHABET ! (unat b mod length ALPHABET)) # push_code (i + 1) bs"

definition recovery_generate :: "bytes \<Rightarrow> code_point list" where
  "recovery_generate buf = push_code 0 buf"

text \<open>\<open>chunks(n)\<close> and \<open>join("-")\<close>.\<close>

function chunks :: "nat \<Rightarrow> 'a list \<Rightarrow> 'a list list" where
  "chunks n xs = (if xs = [] \<or> n = 0 then [] else take n xs # chunks n (drop n xs))"
  by auto
termination by (relation "measure (\<lambda>(n, xs). length xs)") auto

declare chunks.simps [simp del]

fun join_dash :: "code_point list list \<Rightarrow> code_point list" where
  "join_dash [] = []"
| "join_dash [g] = g"
| "join_dash (g # h # gs) = g @ [dash] @ join_dash (h # gs)"

definition recovery_parse :: "code_point list \<Rightarrow> core_error + code_point list" where
  "recovery_parse input =
     (let normalised = map to_ascii_uppercase (filter (\<lambda>c. \<not> is_whitespace c \<and> c \<noteq> dash) input) in
      if sum_list (map utf8_len normalised) \<noteq> GROUPS * PER_GROUP then Inl RecoveryCodeError
      else if \<not> list_all in_alphabet normalised then Inl RecoveryCodeError
      else Inr (join_dash (chunks PER_GROUP normalised)))"

definition kdf_input :: "code_point list \<Rightarrow> bytes" where
  "kdf_input code = map word_of_nat (filter (\<lambda>c. c \<noteq> dash) code)"

subsection \<open>The backup file\<close>

record secrets =
  sc_sealing_sk :: bytes
  sc_signing_sk :: bytes
  sc_extra :: bytes

record backup_header =
  bh_version :: u8
  bh_mem_kib :: u32
  bh_passes :: u32
  bh_lanes :: u32
  bh_salt :: bytes
  bh_nonce :: bytes

record backup_lib = core_lib +
  cbor_backup_header :: "backup_header \<Rightarrow> string + bytes"
  uncbor_backup_header :: "bytes \<Rightarrow> string + backup_header"
  cbor_secrets :: "secrets \<Rightarrow> string + bytes"
  uncbor_secrets :: "bytes \<Rightarrow> string + secrets"
  argon2_params :: "u32 \<Rightarrow> u32 \<Rightarrow> u32 \<Rightarrow> bool"
  argon2id :: "u32 \<Rightarrow> u32 \<Rightarrow> u32 \<Rightarrow> bytes \<Rightarrow> bytes \<Rightarrow> bytes option"

definition derive_key :: "'x backup_lib_scheme \<Rightarrow> code_point list \<Rightarrow> backup_header \<Rightarrow> core_error + bytes" where
  "derive_key X code h =
     (if \<not> argon2_params X (bh_mem_kib h) (bh_passes h) (bh_lanes h)
      then Inl (HeaderDecode ''bad Argon2 parameters'')
      else ok_or (argon2id X (bh_mem_kib h) (bh_passes h) (bh_lanes h) (kdf_input code)
                    (BACKUP_KDF_DOMAIN @ bh_salt h))
                 (HeaderDecode ''key derivation failed''))"

definition new_backup_header :: "bytes \<Rightarrow> bytes \<Rightarrow> backup_header" where
  "new_backup_header salt nonce =
     \<lparr>bh_version = BACKUP_VERSION, bh_mem_kib = ARGON_MEM_KIB, bh_passes = ARGON_PASSES,
      bh_lanes = ARGON_LANES, bh_salt = salt, bh_nonce = nonce\<rparr>"

definition secrets_of :: "owner_keys \<Rightarrow> bytes \<Rightarrow> secrets" where
  "secrets_of owner extra =
     \<lparr>sc_sealing_sk = x25519_sk (sealing owner), sc_signing_sk = signing owner, sc_extra = extra\<rparr>"

definition export_backup_with_code ::
  "'x backup_lib_scheme \<Rightarrow> bytes \<Rightarrow> bytes \<Rightarrow> owner_keys \<Rightarrow> bytes \<Rightarrow> code_point list \<Rightarrow> core_error + bytes" where
  "export_backup_with_code X salt nonce owner extra code =
     (let header = new_backup_header salt nonce in
      rbind (map_err HeaderEncode (cbor_backup_header X header)) (\<lambda>header_cbor.
      rbind (map_err HeaderEncode (cbor_secrets X (secrets_of owner extra))) (\<lambda>plaintext.
      rbind (derive_key X code header) (\<lambda>key.
      rbind (ok_or (aead_encrypt X key nonce header_cbor plaintext) EnvelopeSeal) (\<lambda>ct.
        Inr (BACKUP_MAGIC @ u32_le (word_of_nat (length header_cbor)) @ header_cbor @ ct))))))"

definition export_backup ::
  "'x backup_lib_scheme \<Rightarrow> bytes \<Rightarrow> bytes \<Rightarrow> bytes \<Rightarrow> owner_keys \<Rightarrow> bytes \<Rightarrow> core_error + (bytes \<times> code_point list)" where
  "export_backup X buf salt nonce owner extra =
     (let code = recovery_generate buf in
      rbind (export_backup_with_code X salt nonce owner extra code) (\<lambda>bs. Inr (bs, code)))"

definition restore_backup ::
  "'x backup_lib_scheme \<Rightarrow> bytes \<Rightarrow> code_point list \<Rightarrow> core_error + (owner_keys \<times> bytes)" where
  "restore_backup X bs code =
     (if length bs < 12 \<or> take 8 bs \<noteq> BACKUP_MAGIC then Inl BadMagic
      else
        let header_len = of_le_bytes (take 4 (drop 8 bs)) in
        if header_len = 0 \<or> length bs < 12 + header_len + 16 then Inl Truncated
        else
          let header_cbor = take header_len (drop 12 bs) in
          rbind (map_err HeaderDecode (uncbor_backup_header X header_cbor)) (\<lambda>header.
          if bh_version header \<noteq> BACKUP_VERSION then Inl (UnsupportedVersion (bh_version header) 0)
          else if bh_mem_kib header > 1024 * 1024 \<or> bh_passes header > 10 \<or> bh_lanes header > 4
                  \<or> bh_lanes header = 0
          then Inl (HeaderDecode ''backup KDF parameters out of range'')
          else
            rbind (derive_key X code header) (\<lambda>key.
            rbind (ok_or (aead_decrypt X key (bh_nonce header) header_cbor (drop (12 + header_len) bs)) BackupAuth)
              (\<lambda>plaintext.
            rbind (map_err HeaderDecode (uncbor_secrets X plaintext)) (\<lambda>secrets.
            rbind (device_keys_from_secret X (sc_sealing_sk secrets)) (\<lambda>dk.
            rbind (signing_keys_from_secret (sc_signing_sk secrets)) (\<lambda>sk.
              Inr (\<lparr>sealing = dk, signing = sk\<rparr>, sc_extra secrets))))))))"

subsection \<open>Codes\<close>

lemma ALPHABET_unat: "map unat ALPHABET = map of_char ''0123456789ABCDEFGHJKMNPQRSTVWXYZ''"
  by (simp add: ALPHABET_def ascii_def)

lemma in_alphabet_simps:
  assumes "in_alphabet c"
  shows "to_ascii_uppercase c = c" "\<not> is_whitespace c" "c \<noteq> dash" "c < 128" "utf8_len c = 1"
  using assms by (auto simp: in_alphabet_def ALPHABET_unat to_ascii_uppercase_def is_whitespace_def dash_def utf8_len_def)

text \<open>Both ways of putting in the dashes agree.\<close>

fun join_groups :: "nat \<Rightarrow> code_point list \<Rightarrow> code_point list" where
  "join_groups i [] = []"
| "join_groups i (c # cs) = (if i > 0 \<and> i mod PER_GROUP = 0 then [dash] else []) @ c # join_groups (i + 1) cs"

lemma join_groups_append: "join_groups i (xs @ ys) = join_groups i xs @ join_groups (i + length xs) ys"
  by (induction i xs rule: join_groups.induct) simp_all

lemma join_groups_inner:
  "0 < i mod 5 \<Longrightarrow> i mod 5 + length xs \<le> 5 \<Longrightarrow> join_groups i xs = xs"
proof (induction xs arbitrary: i)
  case Nil
  then show ?case by simp
next
  case (Cons x xs)
  show ?case
  proof (cases xs)
    case Nil
    then show ?thesis using Cons.prems by (simp add: PER_GROUP_def)
  next
    case (Cons y ys)
    then have "Suc i mod 5 = Suc (i mod 5)" using Cons.prems by (simp add: mod_Suc)
    then show ?thesis using Cons.IH [of "Suc i"] Cons.prems Cons by (simp add: PER_GROUP_def)
  qed
qed

lemma join_groups_chunk:
  assumes "i mod 5 = 0" and "xs \<noteq> []" and "length xs \<le> 5"
  shows "join_groups i xs = (if i > 0 then [dash] else []) @ xs"
proof -
  obtain y ys where xs: "xs = y # ys" using assms(2) by (cases xs) auto
  have "Suc i mod 5 = 1" using assms(1) by (simp add: mod_Suc)
  then have "join_groups (Suc i) ys = ys" using assms(3) xs by (intro join_groups_inner) auto
  then show ?thesis using assms(1) by (simp add: xs PER_GROUP_def)
qed

lemma chunks_Nil_iff: "0 < n \<Longrightarrow> chunks n xs = [] \<longleftrightarrow> xs = []"
  by (subst chunks.simps) simp

lemma join_groups_chunks:
  "i mod 5 = 0 \<Longrightarrow> join_groups i xs = (if i > 0 \<and> xs \<noteq> [] then [dash] else []) @ join_dash (chunks 5 xs)"
proof (induction "length xs" arbitrary: i xs rule: less_induct)
  case less
  show ?case
  proof (cases "xs = []")
    case True
    then show ?thesis by (simp add: chunks.simps)
  next
    case False
    have c: "chunks 5 xs = take 5 xs # chunks 5 (drop 5 xs)" using False by (subst chunks.simps) simp
    have "join_groups i xs = join_groups i (take 5 xs) @ join_groups (i + length (take 5 xs)) (drop 5 xs)"
      by (metis join_groups_append append_take_drop_id)
    also have "join_groups i (take 5 xs) = (if i > 0 then [dash] else []) @ take 5 xs"
      using less.prems False by (intro join_groups_chunk) auto
    finally have e: "join_groups i xs = ((if i > 0 then [dash] else []) @ take 5 xs)
        @ join_groups (i + length (take 5 xs)) (drop 5 xs)" .
    show ?thesis
    proof (cases "drop 5 xs = []")
      case True
      then show ?thesis using e False by (simp add: c chunks.simps [of 5 "[]"])
    next
      case d: False
      then have l: "length (take 5 xs) = 5" by simp
      have m: "(i + 5) mod 5 = 0" using less.prems by simp
      have "join_groups (i + 5) (drop 5 xs) = [dash] @ join_dash (chunks 5 (drop 5 xs))"
        using less.hyps [OF _ m, of "drop 5 xs"] d False by simp
      moreover obtain g gs where "chunks 5 (drop 5 xs) = g # gs"
        using d chunks_Nil_iff [of 5 "drop 5 xs"] by (cases "chunks 5 (drop 5 xs)") auto
      ultimately show ?thesis using e False l by (simp add: c)
    qed
  qed
qed

lemma push_code_join:
  "push_code i bs = join_groups i (map (\<lambda>b. unat (ALPHABET ! (unat b mod length ALPHABET))) bs)"
  by (induction i bs rule: push_code.induct) simp_all

lemma length_ALPHABET [simp]: "length ALPHABET = 32"
  by (simp add: ALPHABET_def)

lemma generated_in_alphabet: "in_alphabet (unat (ALPHABET ! (unat b mod length ALPHABET)))"
proof -
  have "unat b mod length ALPHABET < length ALPHABET" by simp
  then show ?thesis by (auto simp: in_alphabet_def)
qed

lemma filter_join:
  "list_all in_alphabet cs \<Longrightarrow> filter (\<lambda>c. \<not> is_whitespace c \<and> c \<noteq> dash) (join_groups i cs) = cs"
  by (induction i cs rule: join_groups.induct) (auto simp: in_alphabet_simps)

lemma filter_dash: "list_all in_alphabet cs \<Longrightarrow> filter (\<lambda>c. c \<noteq> dash) (join_groups i cs) = cs"
  by (induction i cs rule: join_groups.induct) (auto simp: in_alphabet_simps)

lemma parse_exact:
  assumes "list_all in_alphabet cs" and "length cs = 25"
    and "map to_ascii_uppercase (filter (\<lambda>c. \<not> is_whitespace c \<and> c \<noteq> dash) input) = cs"
  shows "recovery_parse input = Inr (join_groups 0 cs)"
proof -
  have "sum_list (map utf8_len cs) = length cs"
    using assms(1) by (induction cs) (auto simp: in_alphabet_simps)
  then show ?thesis using assms join_groups_chunks [of 0 cs]
    by (simp add: recovery_parse_def GROUPS_def PER_GROUP_def)
qed

lemma map_upper_alphabet: "list_all in_alphabet cs \<Longrightarrow> map to_ascii_uppercase cs = cs"
  by (induction cs) (auto simp: in_alphabet_simps)

lemma kdf_input_join: "list_all in_alphabet cs \<Longrightarrow> kdf_input (join_groups i cs) = map word_of_nat cs"
  unfolding kdf_input_def
  by (induction i cs rule: join_groups.induct) (auto simp: in_alphabet_simps)

subsection \<open>A sample library\<close>

definition sample_backup :: backup_lib where
  "sample_backup = core_lib.extend (sample_lib (\<lambda>_. Inl []))
     (backup_lib.fields (\<lambda>_. Inr [1])
        (\<lambda>_. Inr \<lparr>bh_version = 1, bh_mem_kib = 65536, bh_passes = 3, bh_lanes = 1, bh_salt = [8], bh_nonce = [9]\<rparr>)
        (\<lambda>s. Inr (sc_sealing_sk s @ sc_signing_sk s @ sc_extra s))
        (\<lambda>b. Inr \<lparr>sc_sealing_sk = take 32 b, sc_signing_sk = take 32 (drop 32 b), sc_extra = drop 64 b\<rparr>)
        (\<lambda>m p l. True) (\<lambda>m p l pw salt. Some (replicate 32 5)))"

lemma filter_generate: "filter (\<lambda>c. c \<noteq> dash) (recovery_generate buf) =
    map (\<lambda>b. unat (ALPHABET ! (unat b mod length ALPHABET))) buf"
  unfolding recovery_generate_def push_code_join
  by (rule filter_dash) (use generated_in_alphabet in \<open>auto simp: list_all_iff simp del: length_ALPHABET\<close>)

section \<open>Properties\<close>

text \<open>A generated recovery code survives being typed back: any text that is the code up to letter
  case, white space and dashes parses to the very code that was shown, hence to the same key-derivation
  input. A text is accepted exactly when, so normalised, it is 25 characters of the alphabet.\<close>

theorem recovery_code_roundtrip:
  assumes "length buf = 25"
    and "map to_ascii_uppercase (filter (\<lambda>c. \<not> is_whitespace c \<and> c \<noteq> dash) typed) =
         filter (\<lambda>c. c \<noteq> dash) (recovery_generate buf)"
  shows "recovery_parse typed = Inr (recovery_generate buf) \<and>
    recovery_parse (recovery_generate buf) = Inr (recovery_generate buf) \<and>
    length (kdf_input (recovery_generate buf)) = 25"
proof -
  let ?cs = "map (\<lambda>b. unat (ALPHABET ! (unat b mod length ALPHABET))) buf"
  have al: "list_all in_alphabet ?cs" using generated_in_alphabet by (auto simp: list_all_iff simp del: length_ALPHABET)
  have g: "recovery_generate buf = join_groups 0 ?cs" by (simp only: recovery_generate_def push_code_join)
  have l: "length ?cs = 25" using assms(1) by simp
  have f: "filter (\<lambda>c. \<not> is_whitespace c \<and> c \<noteq> dash) (join_groups 0 ?cs) = ?cs" by (rule filter_join [OF al])
  have k: "map (word_of_nat :: nat \<Rightarrow> byte) (filter (\<lambda>c. c \<noteq> dash) (join_groups 0 ?cs)) = map word_of_nat ?cs"
    using kdf_input_join [OF al, of 0] by (simp add: kdf_input_def)
  have fd: "filter (\<lambda>c. c \<noteq> dash) (join_groups 0 ?cs) = ?cs" by (rule filter_dash [OF al])
  have "recovery_parse typed = Inr (join_groups 0 ?cs)"
    using parse_exact [OF al l, of typed] assms(2) fd g by simp
  moreover have "recovery_parse (join_groups 0 ?cs) = Inr (join_groups 0 ?cs)"
    using parse_exact [OF al l, of "join_groups 0 ?cs"] f map_upper_alphabet [OF al] by simp
  moreover have "length (kdf_input (join_groups 0 ?cs)) = 25" using kdf_input_join [OF al, of 0] l by simp
  ultimately show ?thesis by (simp only: g)
qed

theorem recovery_code_roundtrip_witness:
  "recovery_parse ([32] @ replicate 10 48 @ [45] @ replicate 15 48) = Inr (recovery_generate (replicate 25 0))"
proof -
  have "filter (\<lambda>c. c \<noteq> dash) (recovery_generate (replicate 25 0)) = replicate 25 (unat (ALPHABET ! 0))"
    by (simp add: filter_generate)
  also have "unat (ALPHABET ! 0) = 48" by (simp add: ALPHABET_def ascii_def)
  finally have "map to_ascii_uppercase (filter (\<lambda>c. \<not> is_whitespace c \<and> c \<noteq> dash)
      ([32] @ replicate 10 48 @ [45] @ replicate 15 48)) = filter (\<lambda>c. c \<noteq> dash) (recovery_generate (replicate 25 0))"
    by (simp add: is_whitespace_def dash_def to_ascii_uppercase_def filter_replicate flip: replicate_add)
  then show ?thesis using recovery_code_roundtrip [of "replicate 25 0"] by simp
qed

lemma restore_exported:
  assumes "aead_exact X" and "keys_wf X (sealing owner)" and "length (signing owner) = 32"
    and "export_backup_with_code X salt nonce owner extra code = Inr bs"
    and "\<And>b. cbor_backup_header X (new_backup_header salt nonce) = Inr b \<Longrightarrow>
           uncbor_backup_header X b = Inr (new_backup_header salt nonce) \<and> 0 < length b \<and> length b < 2 ^ 32"
    and "\<And>b. cbor_secrets X (secrets_of owner extra) = Inr b \<Longrightarrow> uncbor_secrets X b = Inr (secrets_of owner extra)"
  shows "restore_backup X bs code = Inr (owner, extra)"
proof -
  let ?h = "new_backup_header salt nonce" and ?s = "secrets_of owner extra"
  from assms(4) obtain hb pt key ct where hb: "cbor_backup_header X ?h = Inr hb"
    and pt: "cbor_secrets X ?s = Inr pt" and key: "derive_key X code ?h = Inr key"
    and ct: "aead_encrypt X key nonce hb pt = Some ct"
    and bs: "bs = BACKUP_MAGIC @ u32_le (word_of_nat (length hb)) @ hb @ ct"
    by (auto simp: export_backup_with_code_def Let_def rbind_eq_Inr ok_or_eq_Inr map_err_eq_Inr)
  have uh: "uncbor_backup_header X hb = Inr ?h" "0 < length hb" "length hb < 2 ^ 32" using assms(5) [OF hb] by simp_all
  have us: "uncbor_secrets X pt = Inr ?s" using assms(6) [OF pt] by simp
  have lm: "length BACKUP_MAGIC = 8" by (simp add: BACKUP_MAGIC_def)
  have len: "of_le_bytes (u32_le (word_of_nat (length hb))) = length hb"
    using uh(3) by (simp add: u32_le_def of_le_bytes_le_bytes unat_of_nat)
  have lc: "16 \<le> length ct" using aead_exact_length [OF assms(1) ct] by simp
  have dec: "aead_decrypt X key nonce hb ct = Some pt" using aead_exact_iff [OF assms(1)] ct by blast
  have parts: "take 8 bs = BACKUP_MAGIC" "take 4 (drop 8 bs) = u32_le (word_of_nat (length hb))"
      "take (length hb) (drop 12 bs) = hb" "drop (12 + length hb) bs = ct" "length bs = 12 + length hb + length ct"
    by (simp_all add: bs lm)
  have dk: "device_keys_from_secret X (x25519_sk (sealing owner)) = Inr (sealing owner)"
    using assms(2) by (cases "sealing owner") (simp add: device_keys_from_secret_Inr keys_wf_def)
  have sk: "signing_keys_from_secret (signing owner) = Inr (signing owner)"
    using assms(3) by (simp add: signing_keys_from_secret_def)
  show ?thesis
    unfolding restore_backup_def Let_def parts len
    using uh lc key by (simp add: dec us dk sk new_backup_header_def secrets_of_def BACKUP_VERSION_def ARGON_MEM_KIB_def ARGON_PASSES_def
        ARGON_LANES_def)
qed

text \<open>Restoring an exported backup with its code gives back both key pairs and the extra bytes,
  whenever the CBOR of the two structs decodes to what was encoded.\<close>

theorem backup_roundtrip:
  assumes "aead_exact X" and "keys_wf X (sealing owner)" and "length (signing owner) = 32"
    and "export_backup_with_code X salt nonce owner extra code = Inr bs"
    and "\<And>b. cbor_backup_header X (new_backup_header salt nonce) = Inr b \<Longrightarrow>
           uncbor_backup_header X b = Inr (new_backup_header salt nonce) \<and> 0 < length b \<and> length b < 2 ^ 32"
    and "\<And>b. cbor_secrets X (secrets_of owner extra) = Inr b \<Longrightarrow> uncbor_secrets X b = Inr (secrets_of owner extra)"
  shows "restore_backup X bs code = Inr (owner, extra)"
  by (rule restore_exported [OF assms(1-4)]) (use assms(5,6) in blast)+

theorem backup_roundtrip_witness:
  "\<exists>bs. export_backup_with_code sample_backup [8] [9] \<lparr>sealing = sample_keys, signing = replicate 32 2\<rparr> [7] [48] = Inr bs \<and>
     restore_backup sample_backup bs [48] = Inr (\<lparr>sealing = sample_keys, signing = replicate 32 2\<rparr>, [7])"
proof -
  let ?X = sample_backup and ?o = "\<lparr>sealing = sample_keys, signing = replicate 32 2\<rparr>"
  have sel: "aead_encrypt ?X = aead_encrypt (sample_lib (\<lambda>_. Inl []))" "aead_decrypt ?X = sample_decrypt"
    "x25519_base ?X = (\<lambda>sk. sk)" "cbor_backup_header ?X = (\<lambda>_. Inr [1])"
    "uncbor_backup_header ?X = (\<lambda>_. Inr \<lparr>bh_version = 1, bh_mem_kib = 65536, bh_passes = 3, bh_lanes = 1, bh_salt = [8], bh_nonce = [9]\<rparr>)"
    "cbor_secrets ?X = (\<lambda>s. Inr (sc_sealing_sk s @ sc_signing_sk s @ sc_extra s))"
    "uncbor_secrets ?X = (\<lambda>b. Inr \<lparr>sc_sealing_sk = take 32 b, sc_signing_sk = take 32 (drop 32 b), sc_extra = drop 64 b\<rparr>)"
    "argon2_params ?X = (\<lambda>m p l. True)" "argon2id ?X = (\<lambda>m p l pw salt. Some (replicate 32 5))"
    by (simp_all add: sample_backup_def core_lib.defs backup_lib.defs sample_lib_def)
  have ae: "aead_exact ?X" using sample_lib_ok(2) [of "\<lambda>_. Inl []"] by (simp add: aead_exact_def sel)
  have wf: "keys_wf ?X (sealing ?o)" by (simp add: keys_wf_def sample_keys_def sel)
  obtain bs where ex: "export_backup_with_code ?X [8] [9] ?o [7] [48] = Inr bs"
    by (simp add: export_backup_with_code_def derive_key_def sel Let_def)
  have "restore_backup ?X bs [48] = Inr (?o, [7])"
    by (rule backup_roundtrip [OF ae wf _ ex])
       (auto simp: sel sample_keys_def new_backup_header_def secrets_of_def BACKUP_VERSION_def ARGON_MEM_KIB_def
         ARGON_PASSES_def ARGON_LANES_def)
  then show ?thesis using ex by blast
qed

end
