(* ===== verification/Cli.thy ===== *)
theory Cli
  imports Backup Workspace
begin

text \<open>
  The command-line front end (\<open>crates/zbacs-cli/src/main.rs\<close>): key files, sealing, opening, resealing,
  backup and restore on a file system whose writes can fail. Parsing of the arguments and printing
  are left out; the fresh keys and the randomness are arguments. JSON and hex are parameters.
\<close>

record key_file =
  kf_x25519_sk :: string
  kf_x25519_pk :: string
  kf_ed25519_sk :: string
  kf_ed25519_pk :: string

record cli_lib = backup_lib +
  cl_hexe :: "bytes \<Rightarrow> string"
  cl_hexd :: "string \<Rightarrow> string + bytes"
  cl_to_json :: "key_file \<Rightarrow> string + bytes"
  cl_from_json :: "bytes \<Rightarrow> string + key_file"

datatype cli_error = CliIo | CliJson string | CliHex string | CliCore core_error | CliPermission string | CliOverwrite | CliName

text \<open>\<open>fs::write\<close>: it may fail to create the file, or stop in the middle of the content.\<close>

datatype write_io = WriteAll | WriteRefused | WriteShort nat

fun fs_write :: "write_io \<Rightarrow> path \<Rightarrow> bytes \<Rightarrow> fs \<Rightarrow> (cli_error + unit) \<times> fs" where
  "fs_write WriteAll p bs fs = (Inr (), fs(p \<mapsto> bs))"
| "fs_write WriteRefused p bs fs = (Inl CliIo, fs)"
| "fs_write (WriteShort n) p bs fs = (Inl CliIo, fs(p \<mapsto> take n bs))"

definition parse_perm :: "string \<Rightarrow> cli_error + permission" where
  "parse_perm p =
     (if p = ''deny'' then Inr Deny else if p = ''edit'' then Inr Edit else if p = ''read-only'' then Inr ReadOnly
      else Inl (CliPermission p))"

definition load_owner :: "'x cli_lib_scheme \<Rightarrow> path \<Rightarrow> fs \<Rightarrow> cli_error + owner_keys" where
  "load_owner X p fs =
     rbind (ok_or (fs p) CliIo) (\<lambda>bs.
     rbind (map_err CliJson (cl_from_json X bs)) (\<lambda>kf.
     rbind (map_err CliHex (cl_hexd X (kf_x25519_sk kf))) (\<lambda>xs.
     rbind (map_err CliCore (device_keys_from_secret X xs)) (\<lambda>k.
     rbind (map_err CliHex (cl_hexd X (kf_ed25519_sk kf))) (\<lambda>es.
     rbind (map_err CliCore (signing_keys_from_secret es)) (\<lambda>sg.
       Inr \<lparr>sealing = k, signing = sg\<rparr>))))))"

definition key_file_of :: "'x cli_lib_scheme \<Rightarrow> owner_keys \<Rightarrow> key_file" where
  "key_file_of X k =
     \<lparr>kf_x25519_sk = cl_hexe X (x25519_sk (sealing k)), kf_x25519_pk = cl_hexe X (x25519_pk (sealing k)),
      kf_ed25519_sk = cl_hexe X (signing k), kf_ed25519_pk = cl_hexe X (verifying_key X (signing k))\<rparr>"

text \<open>Writing a key file, and narrowing its mode where the system has modes.\<close>

definition write_key_file :: "'x cli_lib_scheme \<Rightarrow> write_io \<Rightarrow> bool \<Rightarrow> path \<Rightarrow> owner_keys \<Rightarrow> fs \<Rightarrow> (cli_error + unit) \<times> fs" where
  "write_key_file X wio chmod_ok out k fs =
     (case map_err CliJson (cl_to_json X (key_file_of X k)) of
        Inl e \<Rightarrow> (Inl e, fs)
      | Inr bs \<Rightarrow>
          (case fs_write wio out bs fs of
             (Inl e, fs1) \<Rightarrow> (Inl e, fs1)
           | (Inr _, fs1) \<Rightarrow> if chmod_ok then (Inr (), fs1) else (Inl CliIo, fs1)))"

text \<open>\<open>OwnerKeys::generate\<close> fails when the randomness is not a key.\<close>

definition owner_keys_generate :: "'x crypto_scheme \<Rightarrow> bytes \<Rightarrow> bytes \<Rightarrow> core_error + owner_keys" where
  "owner_keys_generate X xs es =
     rbind (device_keys_from_secret X xs) (\<lambda>k. rbind (signing_keys_from_secret es) (\<lambda>sg. Inr \<lparr>sealing = k, signing = sg\<rparr>))"

definition cli_keygen :: "'x cli_lib_scheme \<Rightarrow> write_io \<Rightarrow> bool \<Rightarrow> bytes \<Rightarrow> bytes \<Rightarrow> path \<Rightarrow> fs \<Rightarrow> (cli_error + unit) \<times> fs" where
  "cli_keygen X wio chmod_ok xs es out fs =
     (case owner_keys_generate X xs es of
        Inl e \<Rightarrow> (Inl (CliCore e), fs)
      | Inr k \<Rightarrow> write_key_file X wio chmod_ok out k fs)"

record seal_args =
  sg_key :: path
  sg_input :: path
  sg_output :: "path option"
  sg_perm :: string
  sg_ttl :: u32
  sg_max :: u16
  sg_account :: bytes
  sg_recipient :: "string list"

fun decode_all :: "'x cli_lib_scheme \<Rightarrow> string list \<Rightarrow> cli_error + bytes list" where
  "decode_all X [] = Inr []"
| "decode_all X (r # rs) = rbind (map_err CliHex (cl_hexd X r)) (\<lambda>b. rbind (decode_all X rs) (\<lambda>bs. Inr (b # bs)))"

definition cli_policy :: "string \<Rightarrow> u32 \<Rightarrow> u16 \<Rightarrow> cli_error + policy" where
  "cli_policy perm ttl mx =
     rbind (parse_perm perm) (\<lambda>p. Inr \<lparr>pol_default = p, pol_ttl = ttl, pol_max = mx, pol_pin = True, pol_strict = False\<rparr>)"

definition seal_output :: "seal_args \<Rightarrow> path" where
  "seal_output a = (case sg_output a of Some p \<Rightarrow> p | None \<Rightarrow> (fst (sg_input a), snd (sg_input a) @ ''.zbacs''))"

definition cli_seal ::
  "'x cli_lib_scheme \<Rightarrow> io_env \<Rightarrow> seal_rng \<Rightarrow> seal_args \<Rightarrow> fs \<Rightarrow> (cli_error + header) \<times> fs" where
  "cli_seal X io rng a fs =
     (case rbind (load_owner X (sg_key a) fs) (\<lambda>owner.
           rbind (if snd (sg_input a) = [] then Inl CliName else Inr ()) (\<lambda>_.
           rbind (decode_all X (sg_recipient a)) (\<lambda>recips.
           rbind (cli_policy (sg_perm a) (sg_ttl a) (sg_max a)) (\<lambda>pol. Inr (owner, recips, pol))))) of
        Inl e \<Rightarrow> (Inl e, fs)
      | Inr (owner, recips, pol) \<Rightarrow>
          let opts = (seal_options_new (sg_account a) (ascii (snd (sg_input a))))\<lparr>so_policy := pol, so_extra_recipients := recips\<rparr> in
          (case seal_to_path X io rng (sg_input a) (seal_output a) owner opts fs of
             (r, fs') \<Rightarrow> (map_err CliCore r, fs')))"

text \<open>\<open>Path::with_file_name\<close>: the name is pushed onto the directory; an absolute one replaces it.\<close>

definition with_file_name :: "path \<Rightarrow> string \<Rightarrow> path" where
  "with_file_name p name =
     (let parts = filter (\<lambda>c. c \<noteq> [] \<and> c \<noteq> ''.'') (components [] name);
          dir = (case name of c # _ \<Rightarrow> if c = CHR ''/'' then [] else fst p | [] \<Rightarrow> fst p)
      in if parts = [] then (dir, []) else (dir @ butlast parts, last parts))"

definition utf8_name :: "bytes \<Rightarrow> string" where
  "utf8_name bs = map (\<lambda>b. char_of (unat b)) bs"

definition cli_open ::
  "'x cli_lib_scheme \<Rightarrow> write_io \<Rightarrow> path set \<Rightarrow> path \<Rightarrow> path \<Rightarrow> path option \<Rightarrow> fs \<Rightarrow> (cli_error + path) \<times> fs" where
  "cli_open X wio dirs key input output fs =
     (case rbind (load_owner X key fs) (\<lambda>owner. rbind (ok_or (fs input) CliIo) (\<lambda>fl.
             case open_container X fl (sealing owner) of (r, plain) \<Rightarrow> rbind (map_err CliCore r) (\<lambda>opened. Inr (opened, plain)))) of
        Inl e \<Rightarrow> (Inl e, fs)
      | Inr (opened, plain) \<Rightarrow>
          let out = (case output of Some p \<Rightarrow> p | None \<Rightarrow> with_file_name input (utf8_name (op_file_name opened))) in
          if fs out \<noteq> None \<or> out \<in> dirs then (Inl CliOverwrite, fs)
          else (case fs_write wio out plain fs of (Inl e, fs') \<Rightarrow> (Inl e, fs') | (Inr _, fs') \<Rightarrow> (Inr out, fs')))"

definition cli_reseal ::
  "'x cli_lib_scheme \<Rightarrow> io_env \<Rightarrow> seal_rng \<Rightarrow> path \<Rightarrow> path \<Rightarrow> path \<Rightarrow> string \<Rightarrow> u32 \<Rightarrow> u16 \<Rightarrow> fs \<Rightarrow> (cli_error + header) \<times> fs" where
  "cli_reseal X io rng key input container perm ttl mx fs =
     (case rbind (load_owner X key fs) (\<lambda>owner. rbind (cli_policy perm ttl mx) (\<lambda>pol. Inr (owner, pol))) of
        Inl e \<Rightarrow> (Inl e, fs)
      | Inr (owner, pol) \<Rightarrow> (case reseal_to_path X io rng input container owner pol fs of (r, fs') \<Rightarrow> (map_err CliCore r, fs')))"

text \<open>The code is printed once, here the result.\<close>

definition cli_backup ::
  "'x cli_lib_scheme \<Rightarrow> write_io \<Rightarrow> bool \<Rightarrow> bytes \<Rightarrow> bytes \<Rightarrow> bytes \<Rightarrow> path \<Rightarrow> path \<Rightarrow> fs \<Rightarrow> (cli_error + code_point list) \<times> fs" where
  "cli_backup X wio chmod_ok buf salt nnc key out fs =
     (case rbind (load_owner X key fs) (\<lambda>owner. map_err CliCore (export_backup X buf salt nnc owner [])) of
        Inl e \<Rightarrow> (Inl e, fs)
      | Inr (bs, code) \<Rightarrow>
          (case fs_write wio out bs fs of
             (Inl e, fs1) \<Rightarrow> (Inl e, fs1)
           | (Inr _, fs1) \<Rightarrow> if chmod_ok then (Inr code, fs1) else (Inl CliIo, fs1)))"

definition cli_restore ::
  "'x cli_lib_scheme \<Rightarrow> write_io \<Rightarrow> bool \<Rightarrow> path \<Rightarrow> code_point list \<Rightarrow> path \<Rightarrow> fs \<Rightarrow> (cli_error + unit) \<times> fs" where
  "cli_restore X wio chmod_ok input typed out fs =
     (case rbind (map_err CliCore (recovery_parse typed)) (\<lambda>code.
           rbind (ok_or (fs input) CliIo) (\<lambda>bs. map_err CliCore (restore_backup X bs code))) of
        Inl e \<Rightarrow> (Inl e, fs)
      | Inr (owner, _) \<Rightarrow> write_key_file X wio chmod_ok out owner fs)"

definition cli_inspect :: "'x core_lib_scheme \<Rightarrow> path \<Rightarrow> fs \<Rightarrow> cli_error + (header \<times> bytes)" where
  "cli_inspect X p fs = rbind (ok_or (fs p) CliIo) (\<lambda>bs. map_err CliCore (inspect X bs))"

subsection \<open>Lemmas\<close>

text \<open>What the commands rely on in the libraries: JSON and hex read back what they wrote.\<close>

definition cli_lawful :: "'x cli_lib_scheme \<Rightarrow> bool" where
  "cli_lawful X \<longleftrightarrow> (\<forall>b. cl_hexd X (cl_hexe X b) = Inr b) \<and> (\<forall>k bs. cl_to_json X k = Inr bs \<longrightarrow> cl_from_json X bs = Inr k)"

lemma write_key_file_Inr:
  assumes "write_key_file X wio ch out k fs = (Inr u, fs')"
  shows "\<exists>bs. cl_to_json X (key_file_of X k) = Inr bs \<and> fs' = fs(out \<mapsto> bs)"
  using assms by (cases wio) (auto simp: write_key_file_def map_err_eq_Inr split: sum.splits if_splits)

lemma load_written:
  assumes "cli_lawful X" and "cl_to_json X (key_file_of X k) = Inr bs" and "fs out = Some bs"
    and "keys_wf X (sealing k)" and "length (signing k) = 32"
  shows "load_owner X out fs = Inr k"
proof -
  have "device_keys_from_secret X (x25519_sk (sealing k)) = Inr (sealing k)"
    using assms(4) by (cases "sealing k") (simp add: device_keys_from_secret_Inr keys_wf_def)
  moreover have "cl_from_json X bs = Inr (key_file_of X k)" using assms(1,2) by (simp add: cli_lawful_def)
  moreover have "cl_hexd X (cl_hexe X b) = Inr b" for b using assms(1) by (simp add: cli_lawful_def)
  ultimately show ?thesis
    using assms(3,5) by (simp add: load_owner_def ok_or_def key_file_of_def signing_keys_from_secret_def)
qed

lemma generated_keys:
  assumes "owner_keys_generate X xs es = Inr k"
  shows "keys_wf X (sealing k)" "length (signing k) = 32"
  using assms device_keys_from_secret_wf
  by (auto simp: owner_keys_generate_def rbind_eq_Inr signing_keys_from_secret_def split: if_splits)

subsection \<open>A sample library\<close>

text \<open>JSON that knows one key file, over the sample primitives.\<close>

definition sample_owner :: owner_keys where
  "sample_owner = \<lparr>sealing = sample_keys, signing = replicate 32 2\<rparr>"

definition byte_chars :: "bytes \<Rightarrow> string" where
  "byte_chars = map (\<lambda>x. char_of (unat x))"

definition sample_key_file :: key_file where
  "sample_key_file = \<lparr>kf_x25519_sk = byte_chars (replicate 32 6), kf_x25519_pk = byte_chars (replicate 32 6),
     kf_ed25519_sk = byte_chars (replicate 32 2), kf_ed25519_pk = byte_chars (replicate 32 1)\<rparr>"

definition sample_cli :: cli_lib where
  "sample_cli = backup_lib.extend
     (core_lib.extend (sample_lib sample_uncbor) (backup_lib.fields (\<lambda>_. Inr [1])
        (\<lambda>_. Inr \<lparr>bh_version = 1, bh_mem_kib = 65536, bh_passes = 3, bh_lanes = 1, bh_salt = [8], bh_nonce = [9]\<rparr>)
        (\<lambda>s. Inr (sc_sealing_sk s @ sc_signing_sk s @ sc_extra s))
        (\<lambda>b. Inr \<lparr>sc_sealing_sk = take 32 b, sc_signing_sk = take 32 (drop 32 b), sc_extra = drop 64 b\<rparr>)
        (\<lambda>m p l. True) (\<lambda>m p l pw salt. Some (replicate 32 5))))
     (cli_lib.fields byte_chars (\<lambda>s. Inr (map (\<lambda>c. word_of_nat (of_char c)) s))
        (\<lambda>k. if k = sample_key_file then Inr [1] else Inl []) (\<lambda>_. Inr sample_key_file))"

lemma sample_cli_core: "sample_core sample_uncbor sample_cli"
  by (simp add: sample_core_def sample_cli_def backup_lib.defs core_lib.defs cli_lib.defs sample_lib_def)

lemma sample_cli_sel:
  "cbor_backup_header sample_cli = (\<lambda>_. Inr [1])"
  "uncbor_backup_header sample_cli = (\<lambda>_. Inr \<lparr>bh_version = 1, bh_mem_kib = 65536, bh_passes = 3, bh_lanes = 1, bh_salt = [8], bh_nonce = [9]\<rparr>)"
  "cbor_secrets sample_cli = (\<lambda>s. Inr (sc_sealing_sk s @ sc_signing_sk s @ sc_extra s))"
  "uncbor_secrets sample_cli = (\<lambda>b. Inr \<lparr>sc_sealing_sk = take 32 b, sc_signing_sk = take 32 (drop 32 b), sc_extra = drop 64 b\<rparr>)"
  "argon2_params sample_cli = (\<lambda>m p l. True)" "argon2id sample_cli = (\<lambda>m p l pw salt. Some (replicate 32 5))"
  "cl_hexe sample_cli = byte_chars" "cl_hexd sample_cli = (\<lambda>s. Inr (map (\<lambda>c. word_of_nat (of_char c)) s))"
  "cl_to_json sample_cli = (\<lambda>k. if k = sample_key_file then Inr [1] else Inl [])"
  "cl_from_json sample_cli = (\<lambda>_. Inr sample_key_file)" "x25519_base sample_cli = (\<lambda>sk. sk)"
  "hpke_open sample_cli = (\<lambda>e sk info aad ct. Some ct)"
  by (simp_all add: sample_cli_def backup_lib.defs core_lib.defs cli_lib.defs sample_lib_def)

lemmas sample_cli_core_sel = sample_core_sel [OF sample_cli_core]

lemma sample_cli_ok:
  "aead_exact sample_cli" "hash_lengths sample_cli" "hpke_opens sample_cli" "hpke_small sample_cli" "ed25519_signs sample_cli"
  "cli_lawful sample_cli"
proof -
  show "aead_exact sample_cli" using sample_lib_ok(2) [of sample_uncbor] by (simp add: aead_exact_def sample_cli_core_sel)
  show "hash_lengths sample_cli" using sample_lib_ok(1) [of sample_uncbor] by (simp add: hash_lengths_def sample_cli_core_sel)
  show "hpke_opens sample_cli" "ed25519_signs sample_cli"
    by (simp_all add: hpke_opens_def ed25519_signs_def sample_cli_core_sel sample_cli_sel)
  show "hpke_small sample_cli" using sample_small [of sample_uncbor] by (simp add: hpke_small_def sample_cli_core_sel)
  have "word_of_nat (of_char (char_of (unat b))) = b" for b :: byte
    using unsigned_less [where ?'a = nat, of b] by simp
  then have "map (\<lambda>c. word_of_nat (of_char c)) (byte_chars d) = d" for d :: bytes
    by (simp add: byte_chars_def o_def)
  then show "cli_lawful sample_cli" by (simp add: cli_lawful_def sample_cli_sel)
qed

lemma sample_key_file_of: "key_file_of sample_cli sample_owner = sample_key_file"
  by (simp add: key_file_of_def sample_key_file_def sample_owner_def sample_keys_def sample_cli_sel verifying_key_def sample_cli_core_sel)

lemma sample_generated: "owner_keys_generate sample_cli (replicate 32 6) (replicate 32 2) = Inr sample_owner"
  by (simp add: owner_keys_generate_def device_keys_from_secret_def x25519_public_def signing_keys_from_secret_def sample_owner_def
      sample_keys_def sample_cli_sel)

lemma sample_load: "fs key = Some [1] \<Longrightarrow> load_owner sample_cli key fs = Inr sample_owner"
  by (rule load_written [OF sample_cli_ok(6)])
    (use generated_keys [OF sample_generated] in \<open>simp_all add: sample_key_file_of sample_cli_sel\<close>)

section \<open>Properties\<close>

text \<open>The tool opens what it sealed: with the key file that \<open>keygen\<close> wrote, sealing a file and opening the
  container gives back its content, unless something stands at the place it is to be written to, which is
  then left alone. The opened file carries the chosen policy.\<close>

theorem cli_seal_open_roundtrip:
  assumes X: "aead_exact X" "hash_lengths X" "hpke_opens X" "hpke_small X" "ed25519_signs X" "cli_lawful X"
    and keygen: "cli_keygen X wio ch xs es (sg_key a) fs0 = (Inr u, fs1)" "length (rng_dek rng) = 32"
    and seal: "cli_seal X io rng a fs1 = (Inr h, fs2)" "fs1 (sg_input a) = Some content" "sg_recipient a = []"
    and places: "sg_key a \<notin> {seal_output a, tmp_path (seal_output a)}" "sg_input a \<noteq> tmp_path (seal_output a)"
    and limits: "sg_account a \<noteq> []" "length (sg_account a) \<le> 64" "utf8_valid (ascii (snd (sg_input a)))" "length content < 2 ^ 64"
    and cbor: "\<And>hb. cbor_header X h = Inr hb \<Longrightarrow> uncbor_header X hb = Inr h"
  shows "cli_open X WriteAll dirs (sg_key a) (seal_output a) (Some out) fs2 =
    (if fs2 out \<noteq> None \<or> out \<in> dirs then (Inl CliOverwrite, fs2) else (Inr out, fs2(out \<mapsto> content))) \<and>
    cli_policy (sg_perm a) (sg_ttl a) (sg_max a) = Inr (hb_pol (hdr_body h))"
proof -
  obtain k where k: "owner_keys_generate X xs es = Inr k" "write_key_file X wio ch (sg_key a) k fs0 = (Inr u, fs1)"
    using keygen(1) by (auto simp: cli_keygen_def split: sum.splits)
  obtain bs where bs: "cl_to_json X (key_file_of X k) = Inr bs" "fs1 (sg_key a) = Some bs"
    using write_key_file_Inr [OF k(2)] by auto
  note wf = generated_keys [OF k(1)]
  have ow1: "load_owner X (sg_key a) fs1 = Inr k" by (rule load_written) (rule X(6) bs wf)+
  obtain pol where pol: "cli_policy (sg_perm a) (sg_ttl a) (sg_max a) = Inr pol"
    using seal(1,3) ow1 by (auto simp: cli_seal_def rbind_eq_Inr split: sum.splits if_splits)
  let ?o = "(seal_options_new (sg_account a) (ascii (snd (sg_input a))))\<lparr>so_policy := pol, so_extra_recipients := []\<rparr>"
  have st: "seal_to_path X io rng (sg_input a) (seal_output a) k ?o fs1 = (Inr h, fs2)"
    using seal(1,3) ow1 pol by (auto simp: cli_seal_def Let_def map_err_eq_Inr split: prod.splits if_splits)
  then have ss: "seal_signed_to_path X io rng (sg_input a) (seal_output a) (x25519_pk (sealing k)) (signing k) ?o fs1 = (Inr h, fs2)"
    by (simp add: seal_to_path_def split: if_splits)
  obtain fl where fl: "fs2 (seal_output a) = Some fl" "seal_signed X rng content (x25519_pk (sealing k)) (signing k) ?o = (Inr h, fl)"
    using seal_signed_to_path_cases(3) [OF ss refl] places(2) seal(2) by auto
  have lim: "seal_limits ?o" using limits by (simp add: seal_limits_def seal_options_new_def container_consts)
  obtain hh where op: "open_container X fl (sealing k) =
      (Inr \<lparr>op_header = h, op_header_hash = hh, op_file_name = so_file_name ?o\<rparr>, content)"
    using seal_open_roundtrip [OF X(1-5) wf(1) keygen(2) _ _ lim _ limits(4) cbor fl(2)] limits(3)
    by (auto simp: seal_options_new_def)
  have "fs2 (sg_key a) = Some bs" using seal_to_path_frame [OF st] places(1) bs(2) by simp
  then have "load_owner X (sg_key a) fs2 = Inr k" by (intro load_written [where bs = bs]) (rule X(6) bs wf | assumption)+
  moreover have "hb_pol (hdr_body h) = pol" by (rule seal_signed_Inr [OF fl(2)]) (simp add: seal_header_Inr(6))
  ultimately show ?thesis using fl(1) op pol by (simp add: cli_open_def ok_or_def)
qed

theorem cli_seal_open_roundtrip_witness:
  "\<exists>fs1 h fs2. cli_keygen sample_cli WriteAll True (replicate 32 6) (replicate 32 2) ([], ''k'') [([], ''a'') \<mapsto> [42]] = (Inr (), fs1) \<and>
     cli_seal sample_cli sample_io sample_rng \<lparr>sg_key = ([], ''k''), sg_input = ([], ''a''), sg_output = None, sg_perm = ''read-only'',
       sg_ttl = 3600, sg_max = 1, sg_account = [1], sg_recipient = []\<rparr> fs1 = (Inr h, fs2) \<and>
     cli_open sample_cli WriteAll {} ([], ''k'') ([], ''a.zbacs'') (Some ([], ''b'')) fs2 = (Inr ([], ''b''), fs2(([], ''b'') \<mapsto> [42]))"
proof -
  let ?a = "\<lparr>sg_key = ([], ''k''), sg_input = ([], ''a''), sg_output = None, sg_perm = ''read-only'',
       sg_ttl = 3600, sg_max = 1, sg_account = [1], sg_recipient = []\<rparr>"
  let ?fs = "[([], ''a'') \<mapsto> [42 :: byte]] :: fs" and ?fs1 = "[([], ''a'') \<mapsto> [42 :: byte], ([], ''k'') \<mapsto> [1]] :: fs"
  have out: "seal_output ?a = ([], ''a.zbacs'')" "tmp_path ([], ''a.zbacs'') = ([], ''a.zbacs.tmp'')"
    by (simp_all add: seal_output_def tmp_path_def with_extension_def file_stem_def)
  have kg: "cli_keygen sample_cli WriteAll True (replicate 32 6) (replicate 32 2) (sg_key ?a) ?fs = (Inr (), ?fs1)"
    by (simp add: cli_keygen_def sample_generated write_key_file_def sample_key_file_of sample_cli_sel)
  have opts: "(seal_options_new [1] (ascii ''a''))\<lparr>so_policy := \<lparr>pol_default = ReadOnly, pol_ttl = 3600, pol_max = 1, pol_pin = True,
      pol_strict = False\<rparr>, so_extra_recipients := []\<rparr> = sample_opts"
    by (simp add: sample_opts_def seal_options_new_def default_policy_def ascii_def)
  have "seal_to_path sample_cli sample_io sample_rng ([], ''a'') ([], ''a.zbacs'') sample_owner sample_opts ?fs1 =
      (Inr sample_header, ?fs1(([], ''a.zbacs'') \<mapsto> sample_file))"
    using sample_core_seal [OF sample_cli_core]
    by (simp add: seal_to_path_def seal_signed_to_path_def sample_owner_def sample_keys_def sample_io_def out
        Let_def written_def fits_def fun_eq_iff)
  then have se: "cli_seal sample_cli sample_io sample_rng ?a ?fs1 = (Inr sample_header, ?fs1(([], ''a.zbacs'') \<mapsto> sample_file))"
    by (simp add: cli_seal_def sample_load cli_policy_def parse_perm_def out opts)
  have "utf8_valid (ascii (snd (sg_input ?a)))" by code_simp
  moreover have "length (rng_dek sample_rng) = 32" by (simp add: sample_rng_def)
  moreover have "uncbor_header sample_cli hb = Inr sample_header" if "cbor_header sample_cli sample_header = Inr hb" for hb
    using that by (auto simp: sample_cli_core_sel sample_uncbor_def)
  ultimately have "cli_open sample_cli WriteAll {} (sg_key ?a) (seal_output ?a) (Some ([], ''b'')) (?fs1(([], ''a.zbacs'') \<mapsto> sample_file)) =
      (Inr ([], ''b''), (?fs1(([], ''a.zbacs'') \<mapsto> sample_file))(([], ''b'') \<mapsto> [42]))"
    using cli_seal_open_roundtrip [OF sample_cli_ok kg _ se, of "[42]" "{}" "([], ''b'')"] by (simp add: out)
  then show ?thesis using kg se by (auto simp: out)
qed



text \<open>The name inside a container decides where \<open>open\<close> writes when no place is given: a name that climbs leaves the
  directory of the container.\<close>

theorem open_follows_climbing_name:
  assumes "load_owner X key fs = Inr owner" and "fs (dir, n) = Some fl"
    and "open_container X fl (sealing owner) = (Inr opened, plain)" and "utf8_name (op_file_name opened) = ''../b''"
    and "fs (dir @ [''..''], ''b'') = None" and "(dir @ [''..''], ''b'') \<notin> dirs"
  shows "cli_open X WriteAll dirs key (dir, n) None fs = (Inr (dir @ [''..''], ''b''), fs((dir @ [''..''], ''b'') \<mapsto> plain))"
  using assms by (simp add: cli_open_def ok_or_def with_file_name_def Let_def)

end
