(* ===== verification/Viewer.thy ===== *)
theory Viewer
  imports Workspace
begin

text \<open>
  The viewer process and the channel of the save watcher (\<open>viewer.rs\<close> of \<open>crates/zbacs-session\<close>) and
  the choice of the program (\<open>ViewerSpec\<close> of the agent's \<open>session.rs\<close>).

  The operating system is a table of processes: whether each runs, what it was started with, which
  files it holds open and whether it was asked to close. What other programs do between two steps
  of the code is a list of \<open>os_event\<close>s; a process that has exited never runs again under its number,
  because the handle of a child keeps the number taken. Every answer of the system that can fail is
  an argument. Instants are natural numbers of milliseconds.
\<close>

subsection \<open>The operating system's processes\<close>

datatype os_arg = ArgText string | ArgPath path

record process =
  px_program :: string
  px_args :: "os_arg list"
  px_running :: bool
  px_held :: "path set"
  px_asked :: bool

type_synonym processes = "nat \<rightharpoonup> process"

datatype os_event = OsExit nat | OsHold nat path | OsRelease nat path | OsStart nat process

definition os_exit :: "nat \<Rightarrow> processes \<Rightarrow> processes" where
  "os_exit c ps = ps(c := map_option (\<lambda>p. p\<lparr>px_running := False, px_held := {}\<rparr>) (ps c))"

fun os_step :: "os_event \<Rightarrow> processes \<Rightarrow> processes" where
  "os_step (OsExit c) ps = os_exit c ps"
| "os_step (OsHold c f) ps =
     ps(c := map_option (\<lambda>p. if px_running p then p\<lparr>px_held := insert f (px_held p)\<rparr> else p) (ps c))"
| "os_step (OsRelease c f) ps = ps(c := map_option (\<lambda>p. p\<lparr>px_held := px_held p - {f}\<rparr>) (ps c))"
| "os_step (OsStart c p) ps = (if ps c = None then ps(c \<mapsto> p) else ps)"

definition os_steps :: "os_event list \<Rightarrow> processes \<Rightarrow> processes" where
  "os_steps evs ps = fold os_step evs ps"

definition running :: "processes \<Rightarrow> nat \<Rightarrow> bool" where
  "running ps c = (case ps c of Some p \<Rightarrow> px_running p | None \<Rightarrow> False)"

text \<open>The files some running process holds open.\<close>

definition files_held :: "processes \<Rightarrow> path set" where
  "files_held ps = {f. \<exists>c p. ps c = Some p \<and> px_running p \<and> f \<in> px_held p}"

text \<open>\<open>Command::spawn\<close>: the number the system gives the child, or a refusal.\<close>

definition spawn :: "nat option \<Rightarrow> string \<Rightarrow> os_arg list \<Rightarrow> processes \<Rightarrow> (nat \<times> processes) option" where
  "spawn number program args ps =
     (case number of
        Some c \<Rightarrow>
          if ps c = None
          then Some (c, ps(c \<mapsto> \<lparr>px_program = program, px_args = args, px_running = True, px_held = {}, px_asked = False\<rparr>))
          else None
      | None \<Rightarrow> None)"

subsection \<open>viewer.rs: the viewer\<close>

definition DEFAULT_DEBOUNCE :: nat where
  "DEFAULT_DEBOUNCE = 400"

datatype launch = Tracked | Delegated

datatype platform = Windows | MacOs | OtherUnix

record viewer =
  vi_child :: "nat option"
  vi_pid :: "nat option"
  vi_launch :: launch
  vi_path :: path

definition launch_with ::
  "nat option \<Rightarrow> string \<Rightarrow> os_arg list \<Rightarrow> path \<Rightarrow> processes \<Rightarrow> (session_error + viewer) \<times> processes" where
  "launch_with number program args path ps =
     (case spawn number program args ps of
        None \<Rightarrow> (Inl (WorkspaceError (''launch '' @ program)), ps)
      | Some (c, ps') \<Rightarrow> (Inr \<lparr>vi_child = Some c, vi_pid = Some c, vi_launch = Tracked, vi_path = path\<rparr>, ps'))"

definition launch_file :: "nat option \<Rightarrow> string \<Rightarrow> path \<Rightarrow> processes \<Rightarrow> (session_error + viewer) \<times> processes" where
  "launch_file number program path ps = launch_with number program [ArgPath path] path ps"

definition launch_default ::
  "platform \<Rightarrow> nat option \<Rightarrow> path \<Rightarrow> processes \<Rightarrow> (session_error + viewer) \<times> processes" where
  "launch_default pf number path ps =
     (let (program, args, what) =
        (case pf of
           Windows \<Rightarrow> (''cmd'', [ArgText ''/C'', ArgText ''start'', ArgText '''', ArgText '''', ArgPath path], ''open'')
         | MacOs \<Rightarrow> (''open'', [ArgPath path], ''open'')
         | OtherUnix \<Rightarrow> (''xdg-open'', [ArgPath path], ''xdg-open'')) in
      case spawn number program args ps of
        None \<Rightarrow> (Inl (WorkspaceError what), ps)
      | Some (c, ps') \<Rightarrow> (Inr \<lparr>vi_child = Some c, vi_pid = None, vi_launch = Delegated, vi_path = path\<rparr>, ps'))"

definition is_running :: "bool \<Rightarrow> viewer \<Rightarrow> processes \<Rightarrow> bool option" where
  "is_running try_wait_fails v ps =
     (if vi_launch v = Delegated then None
      else case vi_child v of
        None \<Rightarrow> None
      | Some c \<Rightarrow> if try_wait_fails then None else Some (running ps c))"

definition request_close :: "bool \<Rightarrow> viewer \<Rightarrow> processes \<Rightarrow> (session_error + unit) \<times> processes" where
  "request_close tool v ps =
     (case vi_pid v of
        None \<Rightarrow> (Inr (), ps)
      | Some c \<Rightarrow>
          if tool then (Inr (), ps(c := map_option (\<lambda>p. p\<lparr>px_asked := True\<rparr>) (ps c)))
          else (Inl (WorkspaceError ''request close''), ps))"

text \<open>What the system does while a child is stopped: whether it carries the kill out, what happens before
  the wait returns, and whether the wait fails. A wait for a child that still runs blocks: \<open>None\<close>.\<close>

record kill_world =
  kw_kill :: bool
  kw_events :: "os_event list"
  kw_wait_fails :: bool

definition child_wait :: "kill_world \<Rightarrow> nat \<Rightarrow> processes \<Rightarrow> ((session_error + unit) \<times> processes) option" where
  "child_wait w c ps =
     (let ps1 = os_steps (kw_events w) ps in
      if kw_wait_fails w then Some (Inl (WorkspaceError ''wait''), ps1)
      else if running ps1 c then None
      else Some (Inr (), ps1))"

definition kill :: "kill_world \<Rightarrow> viewer \<Rightarrow> processes \<Rightarrow> processes option" where
  "kill w v ps =
     (case vi_child v of
        None \<Rightarrow> Some ps
      | Some c \<Rightarrow> map_option snd (child_wait w c (if kw_kill w then os_exit c ps else ps)))"

definition viewer_wait :: "kill_world \<Rightarrow> viewer \<Rightarrow> processes \<Rightarrow> ((session_error + unit) \<times> processes) option" where
  "viewer_wait w v ps =
     (case vi_child v of
        None \<Rightarrow> Some (Inr (), ps)
      | Some c \<Rightarrow> child_wait w c ps)"

text \<open>One look of the wait: the clock, what happened since the last look, and whether asking fails.\<close>

record wait_turn =
  wu_now :: nat
  wu_events :: "os_event list"
  wu_try_fails :: bool

fun wait_until :: "nat \<Rightarrow> viewer \<Rightarrow> wait_turn list \<Rightarrow> processes \<Rightarrow> (bool \<times> processes) option" where
  "wait_until deadline v [] ps = None"
| "wait_until deadline v (t # ts) ps =
     (let ps1 = os_steps (wu_events t) ps in
      if \<not> wu_now t < deadline then Some (False, ps1)
      else case is_running (wu_try_fails t) v ps1 of
        Some False \<Rightarrow> Some (True, ps1)
      | None \<Rightarrow> Some (False, ps1)
      | Some True \<Rightarrow> wait_until deadline v ts ps1)"

definition wait_timeout :: "nat \<Rightarrow> nat \<Rightarrow> viewer \<Rightarrow> wait_turn list \<Rightarrow> processes \<Rightarrow> (bool \<times> processes) option" where
  "wait_timeout start timeout v ts ps = wait_until (start + timeout) v ts ps"

definition drop_viewer :: "bool \<Rightarrow> kill_world \<Rightarrow> viewer \<Rightarrow> processes \<Rightarrow> processes option" where
  "drop_viewer try_wait_fails w v ps =
     (if is_running try_wait_fails v ps = Some True then kill w v ps else Some ps)"

subsection \<open>viewer.rs: the save watcher's handle\<close>

text \<open>The channel from the watcher's thread. The notification library can refuse to start or to watch the
  directory; a path without a directory is refused before.\<close>

record save_watcher =
  sq_queue :: "save_event list"

definition watch_start :: "bool \<Rightarrow> bool \<Rightarrow> path option \<Rightarrow> session_error + save_watcher" where
  "watch_start library_ok watch_ok target =
     (case target of
        None \<Rightarrow> Inl (WorkspaceError ''watch target has no parent directory'')
      | Some _ \<Rightarrow>
          if \<not> library_ok then Inl (WorkspaceError ''watcher'')
          else if \<not> watch_ok then Inl (WorkspaceError ''watch'')
          else Inr \<lparr>sq_queue = []\<rparr>)"

definition sent :: "save_event list \<Rightarrow> save_watcher \<Rightarrow> save_watcher" where
  "sent evs w = w\<lparr>sq_queue := sq_queue w @ evs\<rparr>"

text \<open>The oldest report, where the argument is what arrives within the timeout.\<close>

definition next_event :: "save_event list \<Rightarrow> save_watcher \<Rightarrow> save_event option \<times> save_watcher" where
  "next_event arriving w =
     (case sq_queue (sent arriving w) of
        [] \<Rightarrow> (None, w)
      | e # es \<Rightarrow> (Some e, w\<lparr>sq_queue := es\<rparr>))"

definition drain_events :: "save_watcher \<Rightarrow> save_event list \<times> save_watcher" where
  "drain_events w = (sq_queue w, w\<lparr>sq_queue := []\<rparr>)"

subsection \<open>session.rs: which program shows the file\<close>

record viewer_spec =
  vs_program :: "(string \<times> string list) option"

definition CLOSE_GRACE :: nat where
  "CLOSE_GRACE = 5000"

text \<open>\<open>str::split_whitespace\<close> on the characters below 256; the first argument is the word read so far, backwards.\<close>

fun split_whitespace :: "string \<Rightarrow> string \<Rightarrow> string list" where
  "split_whitespace cur [] = (if cur = [] then [] else [rev cur])"
| "split_whitespace cur (c # cs) =
     (if char_whitespace c then (if cur = [] then [] else [rev cur]) @ split_whitespace [] cs
      else split_whitespace (c # cur) cs)"

text \<open>\<open>None\<close> is the panic of \<open>expect\<close>.\<close>

definition from_env :: "string option \<Rightarrow> viewer_spec option" where
  "from_env var =
     (case var of
        Some raw \<Rightarrow>
          if trim raw = [] then Some \<lparr>vs_program = None\<rparr>
          else (case split_whitespace [] raw of
                  [] \<Rightarrow> None
                | program # args \<Rightarrow> Some \<lparr>vs_program = Some (program, args)\<rparr>)
      | None \<Rightarrow> Some \<lparr>vs_program = None\<rparr>)"

definition spec_launch ::
  "platform \<Rightarrow> nat option \<Rightarrow> viewer_spec \<Rightarrow> path \<Rightarrow> processes \<Rightarrow> (string + viewer) \<times> processes" where
  "spec_launch pf number spec target ps =
     (let (r, ps') =
        (case vs_program spec of
           Some (program, args) \<Rightarrow> launch_with number program (map ArgText args @ [ArgPath target]) target ps
         | None \<Rightarrow> launch_default pf number target ps) in
      (map_err (\<lambda>_. ''no_viewer'') r, ps'))"

subsection \<open>Lemmas\<close>

lemma running_os_exit [simp]: "running (os_exit c ps) x \<longleftrightarrow> x \<noteq> c \<and> running ps x"
  by (auto simp: running_def os_exit_def split: option.splits)

lemma os_exit_known [simp]: "os_exit c ps x = None \<longleftrightarrow> ps x = None"
  by (simp add: os_exit_def)

text \<open>What other programs do never brings an exited process back and never frees its number.\<close>

definition exited :: "processes \<Rightarrow> nat \<Rightarrow> bool" where
  "exited ps c \<longleftrightarrow> ps c \<noteq> None \<and> \<not> running ps c"

lemma known_stable: "ps c \<noteq> None \<Longrightarrow> os_steps evs ps c \<noteq> None"
  unfolding os_steps_def
proof (induction evs arbitrary: ps)
  case (Cons e es)
  then have "os_step e ps c \<noteq> None" by (cases e) auto
  then show ?case using Cons.IH by simp
qed simp

lemma exited_stable: "exited ps c \<Longrightarrow> exited (os_steps evs ps) c"
  unfolding os_steps_def
proof (induction evs arbitrary: ps)
  case (Cons e es)
  then have "exited (os_step e ps) c" by (cases e) (auto simp: exited_def running_def os_exit_def split: option.splits)
  then show ?case using Cons.IH by simp
qed simp

lemma exited_os_exit [simp]: "ps c \<noteq> None \<Longrightarrow> exited (os_exit c ps) c"
  by (simp add: exited_def)

lemma request_close_keeps:
  "running (snd (request_close tool v ps)) c = running ps c"
  "snd (request_close tool v ps) c = None \<longleftrightarrow> ps c = None"
  "files_held (snd (request_close tool v ps)) = files_held ps"
proof -
  show "running (snd (request_close tool v ps)) c = running ps c" "snd (request_close tool v ps) c = None \<longleftrightarrow> ps c = None"
    by (auto simp: request_close_def running_def split: option.splits)
  have "files_held (ps(x := map_option (\<lambda>p. p\<lparr>px_asked := True\<rparr>) (ps x))) = files_held ps" for x
    by (force simp: files_held_def split: if_splits)
  then show "files_held (snd (request_close tool v ps)) = files_held ps" by (simp add: request_close_def split: option.splits)
qed

lemma kill_stops:
  assumes "kill w v ps = Some ps'" and "vi_child v = Some c" and "ps c \<noteq> None" and "\<not> kw_wait_fails w"
  shows "exited ps' c"
proof -
  let ?ps = "if kw_kill w then os_exit c ps else ps"
  have "os_steps (kw_events w) ?ps c \<noteq> None" using assms(3) by (intro known_stable) (simp add: os_exit_def)
  then show ?thesis using assms by (simp add: kill_def child_wait_def exited_def Let_def split: if_splits)
qed

lemma kill_returns:
  assumes "kw_kill w" and "\<And>c. vi_child v = Some c \<Longrightarrow> ps c \<noteq> None"
  shows "\<exists>ps'. kill w v ps = Some ps'"
proof (cases "vi_child v")
  case (Some c)
  then have "exited (os_steps (kw_events w) (os_exit c ps)) c" using assms(2) exited_stable by simp
  then show ?thesis using Some assms(1) by (auto simp: kill_def child_wait_def exited_def Let_def)
qed (simp add: kill_def)

lemma wait_until_known:
  "wait_until deadline v ts ps = Some (b, ps') \<Longrightarrow> ps c \<noteq> None \<Longrightarrow> ps' c \<noteq> None"
proof (induction ts arbitrary: ps)
  case (Cons t ts)
  have "os_steps (wu_events t) ps c \<noteq> None" using known_stable Cons.prems(2) .
  then show ?case using Cons by (auto simp: Let_def split: if_splits option.splits bool.splits)
qed simp

text \<open>The wait answers true only for a viewer that has exited.\<close>

lemma wait_until_True:
  "wait_until deadline v ts ps = Some (True, ps') \<Longrightarrow> ps c \<noteq> None \<Longrightarrow> vi_child v = Some c \<Longrightarrow> exited ps' c"
proof (induction ts arbitrary: ps)
  case (Cons t ts)
  let ?ps = "os_steps (wu_events t) ps"
  have k: "?ps c \<noteq> None" using known_stable Cons.prems(2) .
  show ?case
  proof (cases "is_running (wu_try_fails t) v ?ps")
    case None
    then show ?thesis using Cons.prems(1) by (auto simp: Let_def split: if_splits)
  next
    case (Some b)
    then have "b = running ?ps c" using Cons.prems(3) by (auto simp: is_running_def split: if_splits)
    then show ?thesis using Some Cons k by (cases b) (auto simp: Let_def exited_def split: if_splits)
  qed
qed simp

text \<open>The wait ends: its looks are at least 20 ms apart, so it takes no more than one look for every 20 ms of the
  timeout and one more, whatever the process does and however often asking fails.\<close>

lemma wait_until_returns:
  assumes "\<And>i. i < length ts \<Longrightarrow> start + 20 * i \<le> wu_now (ts ! i)" and "deadline \<le> start + 20 * n" and "n < length ts"
  shows "\<exists>r. wait_until deadline v ts ps = Some r"
  using assms
proof (induction ts arbitrary: start n ps)
  case (Cons t ts)
  show ?case
  proof (cases n)
    case 0
    then have "\<not> wu_now t < deadline" using Cons.prems(1) [of 0] Cons.prems(2) by simp
    then show ?thesis by (auto simp: Let_def)
  next
    case (Suc m)
    have "(start + 20) + 20 * i \<le> wu_now (ts ! i)" if "i < length ts" for i using Cons.prems(1) [of "Suc i"] that by simp
    then have "\<exists>r. wait_until deadline v ts ps' = Some r" for ps' using Cons.IH [of "start + 20" m] Cons.prems(2,3) Suc by simp
    then show ?thesis by (auto simp: Let_def split: option.splits bool.splits)
  qed
qed simp

lemma wait_timeout_returns:
  assumes "\<And>i. i < length ts \<Longrightarrow> start + 20 * i \<le> wu_now (ts ! i)" and "timeout div 20 + 1 < length ts"
  shows "\<exists>r. wait_timeout start timeout v ts ps = Some r"
proof -
  have "start + timeout \<le> start + 20 * (timeout div 20 + 1)" using mod_less_divisor [of 20 timeout] by presburger
  then show ?thesis unfolding wait_timeout_def using wait_until_returns [OF assms(1)] assms(2) by blast
qed

text \<open>A viewer the system chose cannot be asked, waited for or told apart from one that quit.\<close>

lemma delegated_unknown:
  assumes "vi_launch v = Delegated"
  shows "is_running b v ps = None"
    and "drop_viewer b w v ps = Some ps"
    and "wait_until deadline v (t # ts) ps = Some (False, os_steps (wu_events t) ps)"
  using assms by (simp_all add: is_running_def drop_viewer_def Let_def)

lemma spec_launch_Inr:
  assumes "spec_launch pf number spec target ps = (Inr v, ps')"
  obtains c where "number = Some c" "ps c = None" "vi_child v = Some c" "vi_path v = target" "running ps' c"
    "\<And>x. x \<noteq> c \<Longrightarrow> ps' x = ps x" "vi_launch v = (if vs_program spec = None then Delegated else Tracked)"
    "vi_pid v = (if vs_program spec = None then None else Some c)"
    "\<exists>p. ps' c = Some p \<and> px_held p = {} \<and> last (px_args p) = ArgPath target"
  using assms
  by (auto simp: spec_launch_def launch_with_def launch_default_def spawn_def running_def map_err_eq_Inr Let_def
      split: option.splits prod.splits platform.splits if_splits)

lemma spec_launch_Inl: "spec_launch pf number spec target ps = (Inl e, ps') \<Longrightarrow> e = ''no_viewer'' \<and> ps' = ps"
  by (auto simp: spec_launch_def launch_with_def launch_default_def spawn_def map_err_eq_Inl Let_def
      split: option.splits prod.splits platform.splits if_splits)

text \<open>The \<open>expect\<close> of \<open>from_env\<close> never fails: a text that is not blank has a first word.\<close>

lemma split_whitespace_some: "split_whitespace cur s = [] \<longleftrightarrow> cur = [] \<and> (\<forall>c \<in> set s. char_whitespace c)"
  by (induction cur s rule: split_whitespace.induct) auto

lemma from_env_total: "from_env var \<noteq> None"
  using split_whitespace_some [of "[]"] trim_blank by (auto simp: from_env_def split: option.splits list.splits)

lemma split_whitespace_words: "w \<in> set (split_whitespace cur s) \<Longrightarrow> (\<forall>c \<in> set cur. \<not> char_whitespace c) \<Longrightarrow> w \<noteq> [] \<and> (\<forall>c \<in> set w. \<not> char_whitespace c)"
  by (induction cur s rule: split_whitespace.induct) (auto split: if_splits)

lemma from_env_words:
  assumes "from_env var = Some spec" and "vs_program spec = Some (program, args)" and "w = program \<or> w \<in> set args"
  shows "w \<noteq> [] \<and> (\<forall>c \<in> set w. \<not> char_whitespace c)"
proof -
  obtain raw where "split_whitespace [] raw = program # args"
    using assms(1,2) by (auto simp: from_env_def split: option.splits if_splits list.splits)
  then show ?thesis using assms(3) split_whitespace_words [of w "[]" raw] by auto
qed

text \<open>Every report reaches the reader once, in the order it was sent.\<close>

lemma next_event_queue:
  assumes "next_event evs w = (r, w')"
  shows "sq_queue w @ evs = (case r of Some e \<Rightarrow> e # sq_queue w' | None \<Rightarrow> sq_queue w')"
  using assms by (auto simp: next_event_def sent_def split: list.splits)

end
