(* ===== verification/Session_Viewer.thy ===== *)
theory Session_Viewer
  imports Agent_Open Viewer
begin

text \<open>
  A whole session with the viewer's process in it (\<open>run_session\<close> of the agent's \<open>session.rs\<close>): the program is
  started, every turn of the loop asks the process table whether it still runs, and the end asks it
  to close, waits, stops it and wipes. The files that cannot be wiped are those a running process
  still holds open. The session of \<open>Agent_Open\<close>, where the viewer's answers are arguments, is shown to
  be this one seen from the file's side.
\<close>

subsection \<open>The session\<close>

text \<open>A turn with what the other programs did, whether asking for the viewer fails, and what the watcher's thread sent.\<close>

record viewer_turn =
  vt_turn :: sess_turn
  vt_events :: "os_event list"
  vt_try_fails :: bool
  vt_sent :: "save_event list"

text \<open>What a turn of the loop gets to see: the viewer's state, and the next report of the watcher if it could be
  started.\<close>

definition seen_turn ::
  "viewer \<Rightarrow> viewer_turn \<Rightarrow> processes \<Rightarrow> save_watcher option \<Rightarrow> sess_turn \<times> processes \<times> save_watcher option" where
  "seen_turn v tn ps sw =
     (let ps1 = os_steps (vt_events tn) ps;
          (event, sw1) = (case sw of None \<Rightarrow> (None, None) | Some q \<Rightarrow> (case next_event (vt_sent tn) q of (e, q1) \<Rightarrow> (e, Some q1)))
      in ((vt_turn tn)\<lparr>rt_running := is_running (vt_try_fails tn) v ps1, rt_event := event\<rparr>, ps1, sw1))"

fun viewer_loop ::
  "'x agent_lib_scheme \<Rightarrow> path \<Rightarrow> materialised \<Rightarrow> device_keys \<Rightarrow> bytes \<Rightarrow> u64 \<Rightarrow> viewer \<Rightarrow> viewer_turn list \<Rightarrow>
     save_watcher option \<Rightarrow> held \<Rightarrow> disk \<Rightarrow> processes \<Rightarrow> (sess_end \<times> held \<times> disk \<times> processes \<times> report list) option" where
  "viewer_loop A sealed mat dev signer expiry v [] sw h d ps = None"
| "viewer_loop A sealed mat dev signer expiry v (tn # tns) sw h d ps =
     (case seen_turn v tn ps sw of (t, ps1, sw1) \<Rightarrow>
        (case session_turn A sealed mat dev signer expiry t h d of
           (Some e, h1, d1, reports) \<Rightarrow> Some (e, h1, d1, ps1, reports)
         | (None, h1, d1, reports) \<Rightarrow>
             map_option (\<lambda>(e, h2, d2, ps2, rs). (e, h2, d2, ps2, reports @ rs))
               (viewer_loop A sealed mat dev signer expiry v tns sw1 h1 d1 ps1)))"

text \<open>The world of the end: whether the closing tool starts, the clock and the looks of the wait, the stop.\<close>

record end_world =
  ed_tool :: bool
  ed_start :: nat
  ed_looks :: "wait_turn list"
  ed_kill :: kill_world
  ed_drop_fails :: bool
  ed_drop :: kill_world
  ed_close :: open_world

definition end_viewer :: "end_world \<Rightarrow> viewer \<Rightarrow> processes \<Rightarrow> processes option" where
  "end_viewer w v ps =
     (let ps1 = snd (request_close (ed_tool w) v ps) in
      case wait_timeout (ed_start w) CLOSE_GRACE v (ed_looks w) ps1 of
        None \<Rightarrow> None
      | Some (True, ps2) \<Rightarrow> Some ps2
      | Some (False, ps2) \<Rightarrow> kill (ed_kill w) v ps2)"

text \<open>The viewer ends before the wipe; the wipe cannot touch what a running process holds. Last, the viewer's
  handle is dropped.\<close>

definition end_session ::
  "end_world \<Rightarrow> viewer \<Rightarrow> materialised \<Rightarrow> sess_end \<Rightarrow> held \<Rightarrow> disk \<Rightarrow> processes \<Rightarrow> (held \<times> disk \<times> processes) option" where
  "end_session w v mat e h d ps =
     (case end_viewer w v ps of
        None \<Rightarrow> None
      | Some ps1 \<Rightarrow>
          (case close ((ed_close w)\<lparr>ow_locked := files_held ps1\<rparr>) mat (end_event e) h d of
             (_, h1, d1) \<Rightarrow> map_option (\<lambda>ps2. (h1, d1, ps2)) (drop_viewer (ed_drop_fails w) (ed_drop w) v ps1)))"

definition run_viewer_session ::
  "'x agent_lib_scheme \<Rightarrow> open_world \<Rightarrow> end_world \<Rightarrow> platform \<Rightarrow> nat option \<Rightarrow> viewer_spec \<Rightarrow> bool \<times> bool \<Rightarrow> path \<Rightarrow> device_keys \<Rightarrow> bytes \<Rightarrow>
     string list \<Rightarrow> string \<Rightarrow> viewer_turn list \<Rightarrow> held \<Rightarrow> disk \<Rightarrow> processes \<Rightarrow> (sess_end \<times> held \<times> disk \<times> processes \<times> report list) option" where
  "run_viewer_session A w ew pf number spec watch sealed dev signer base sid tns h d ps =
     (let expiry = (case he_terms h of Some t \<Rightarrow> gt_expiry t | None \<Rightarrow> 0) in
      case materialise A w sealed dev base sid h d of
        (Inl e, h1, d1) \<Rightarrow> Some (EndFailed e, h1, d1, ps, [Phase ''problem''])
      | (Inr mat, h1, d1) \<Rightarrow>
          (case spec_launch pf number spec (ma_plain mat) ps of
             (Inl e, ps1) \<Rightarrow>
               (case close ((ed_close ew)\<lparr>ow_locked := files_held ps1\<rparr>) mat (EvFailed ''no_viewer'') h1 d1 of
                  (_, h2, d2) \<Rightarrow> Some (EndFailed e, h2, d2, ps1, [Phase ''problem'']))
           | (Inr v, ps1) \<Rightarrow>
               (case viewer_loop A sealed mat dev signer expiry v tns
                       (res_ok (watch_start (fst watch) (snd watch) (Some (ma_plain mat)))) h1 d1 ps1 of
                  None \<Rightarrow> None
                | Some (e, h2, d2, ps2, reports) \<Rightarrow>
                    (case end_session ew v mat e h2 d2 ps2 of
                       None \<Rightarrow> None
                     | Some (h3, d3, ps3) \<Rightarrow>
                         Some (e, h3, d3, ps3,
                           [Audited AeOpened (Some (permission_word (se_permission (he_session h)))), Phase ''opened'']
                             @ reports @ end_reports e)))))"

subsection \<open>The session seen from the file's side\<close>

fun seen_turns :: "viewer \<Rightarrow> viewer_turn list \<Rightarrow> processes \<Rightarrow> save_watcher option \<Rightarrow> sess_turn list" where
  "seen_turns v [] ps sw = []"
| "seen_turns v (tn # tns) ps sw = (case seen_turn v tn ps sw of (t, ps1, sw1) \<Rightarrow> t # seen_turns v tns ps1 sw1)"

lemma viewer_loop_session_loop:
  "map_option (\<lambda>(e, h', d', ps', rs). (e, h', d', rs)) (viewer_loop A sealed mat dev signer expiry v tns sw h d ps) =
     session_loop A sealed mat dev signer expiry (seen_turns v tns ps sw) h d"
proof (induction tns arbitrary: sw h d ps)
  case (Cons tn tns)
  obtain t ps1 sw1 where s: "seen_turn v tn ps sw = (t, ps1, sw1)" by (metis surj_pair)
  obtain stop h1 d1 rs where tn: "session_turn A sealed mat dev signer expiry t h d = (stop, h1, d1, rs)" by (metis surj_pair)
  show ?case
  proof (cases stop)
    case None
    then show ?thesis
      using Cons.IH [where sw=sw1 and h=h1 and d=d1 and ps=ps1, symmetric] s tn by (simp add: option.map_comp comp_def case_prod_beta)
  qed (use s tn in simp)
qed simp

lemma seen_turn_processes: "fst (snd (seen_turn v tn ps sw)) = os_steps (vt_events tn) ps"
  by (simp add: seen_turn_def Let_def case_prod_beta)

lemma viewer_loop_known:
  "viewer_loop A sealed mat dev signer expiry v tns sw h d ps = Some (e, h', d', ps', rs) \<Longrightarrow> ps c \<noteq> None \<Longrightarrow> ps' c \<noteq> None"
proof (induction tns arbitrary: sw h d ps rs)
  case (Cons tn tns)
  obtain t sw1 where s: "seen_turn v tn ps sw = (t, os_steps (vt_events tn) ps, sw1)"
    using seen_turn_processes [of v tn ps sw] by (metis prod.collapse)
  obtain stop h1 d1 rs1 where tn: "session_turn A sealed mat dev signer expiry t h d = (stop, h1, d1, rs1)" by (metis surj_pair)
  have k: "os_steps (vt_events tn) ps c \<noteq> None" using known_stable Cons.prems(2) .
  show ?case
    using Cons.prems(1) s tn k Cons.IH [where sw=sw1 and h=h1 and d=d1 and ps="os_steps (vt_events tn) ps"]
    by (cases stop) auto
qed simp

text \<open>After the end a viewer the agent started itself has exited.\<close>

lemma end_viewer_stops:
  assumes "end_viewer w v ps = Some ps'" and "vi_child v = Some c" and "ps c \<noteq> None" and "\<not> kw_wait_fails (ed_kill w)"
  shows "exited ps' c"
proof -
  let ?ps = "snd (request_close (ed_tool w) v ps)"
  have k: "?ps c \<noteq> None" using assms(3) request_close_keeps(2) by metis
  obtain b ps2 where wt: "wait_until (ed_start w + CLOSE_GRACE) v (ed_looks w) ?ps = Some (b, ps2)"
    using assms(1) by (auto simp: end_viewer_def wait_timeout_def Let_def split: option.splits)
  show ?thesis
  proof (cases b)
    case True
    then show ?thesis using wait_until_True [of _ _ _ ?ps ps2 c] wt k assms(1,2) by (simp add: end_viewer_def wait_timeout_def)
  next
    case False
    then have "kill (ed_kill w) v ps2 = Some ps'" using wt assms(1) by (simp add: end_viewer_def wait_timeout_def)
    then show ?thesis using kill_stops wait_until_known [OF wt k] assms(2,4) by blast
  qed
qed

lemma end_viewer_returns:
  assumes "\<And>i. i < length (ed_looks w) \<Longrightarrow> ed_start w + 20 * i \<le> wu_now (ed_looks w ! i)" and "251 < length (ed_looks w)"
    and "kw_kill (ed_kill w)" and "vi_child v = Some c" and "ps c \<noteq> None"
  shows "\<exists>ps'. end_viewer w v ps = Some ps'"
proof -
  let ?ps = "snd (request_close (ed_tool w) v ps)"
  have k: "?ps c \<noteq> None" using assms(5) request_close_keeps(2) by metis
  have "CLOSE_GRACE div 20 + 1 < length (ed_looks w)" using assms(2) by (simp add: CLOSE_GRACE_def)
  then obtain b ps2 where wt: "wait_timeout (ed_start w) CLOSE_GRACE v (ed_looks w) ?ps = Some (b, ps2)"
    using wait_timeout_returns [where ts="ed_looks w" and start="ed_start w" and timeout=CLOSE_GRACE and v=v and ps="?ps"] assms(1)
    by (metis surj_pair)
  then have "ps2 c \<noteq> None" using wait_until_known k by (simp add: wait_timeout_def)
  then have "\<exists>ps'. kill (ed_kill w) v ps2 = Some ps'" using kill_returns assms(3,4) by fastforce
  then show ?thesis using wt by (cases b) (simp_all add: end_viewer_def)
qed

lemma drop_exited: "exited ps c \<Longrightarrow> vi_child v = Some c \<Longrightarrow> drop_viewer b w v ps = Some ps"
  by (simp add: drop_viewer_def is_running_def exited_def)

text \<open>A file that is held open survives the wipe: it stays, or its blocks keep what it held.\<close>

lemma wipe_locked:
  assumes "wipe locked rm entries ws d = (r, d')" and "p \<in> locked" and "dk_files d p = Some content"
  shows "dk_files d' p = Some content \<or> dk_residue d' p = Some content"
proof -
  obtain er d1 where w: "wipe_entries locked entries d None = (er, d1)" by fastforce
  have "dk_files d1 p = Some content" using wipe_entries_files [of locked entries d None p] w assms(2,3) by simp
  then show ?thesis using assms(1) w by (auto simp: wipe_def unlink_all_def split: option.splits if_splits)
qed

lemma close_locked:
  assumes "close w mat ev h d = (r, h', d')" and "p \<in> ow_locked w" and "dk_files d p = Some content"
  shows "dk_files d' p = Some content \<or> dk_residue d' p = Some content"
proof -
  let ?d = "snd (clear_read_only (ma_workspace mat) (ma_name mat) d)"
  have "dk_files ?d p = Some content" using assms(3) by (simp add: clear_read_only_def split: sum.split)
  then show ?thesis
    using assms wipe_locked [of "ow_locked w" "ow_rm w" "ow_entries w" "ma_workspace mat" ?d _ d' p content]
    by (auto simp: close_def Let_def split: sum.splits prod.splits if_splits)
qed

subsection \<open>A sample session\<close>

text \<open>The program gets the number 7, holds the plaintext when the owner revokes, cannot be asked and is stopped.\<close>

definition sample_viewer_turn :: viewer_turn where
  "sample_viewer_turn =
     \<lparr>vt_turn = sample_revoked_turn, vt_events = [OsHold 7 ([''ws'', ''s''], ''a'')], vt_try_fails = False, vt_sent = []\<rparr>"

definition sample_look :: "nat \<Rightarrow> wait_turn" where
  "sample_look i = \<lparr>wu_now = 20 * i, wu_events = [], wu_try_fails = True\<rparr>"

definition sample_end :: end_world where
  "sample_end =
     (let k = \<lparr>kw_kill = True, kw_events = [], kw_wait_fails = False\<rparr> in
      \<lparr>ed_tool = False, ed_start = 0, ed_looks = map sample_look [0..<252], ed_kill = k, ed_drop_fails = False, ed_drop = k,
       ed_close = sample_open_world [([''ws'', ''s''], ''a'')]\<rparr>)"

definition sample_viewer :: viewer where
  "sample_viewer = \<lparr>vi_child = Some 7, vi_pid = Some 7, vi_launch = Tracked, vi_path = ([''ws'', ''s''], ''a'')\<rparr>"

definition sample_running :: "path set \<Rightarrow> processes" where
  "sample_running held =
     [7 \<mapsto> \<lparr>px_program = ''ed'', px_args = [ArgPath ([''ws'', ''s''], ''a'')], px_running = True, px_held = held, px_asked = False\<rparr>]"

lemma sample_launched:
  "spec_launch OtherUnix (Some 7) \<lparr>vs_program = Some (''ed'', [])\<rparr> (ma_plain (sample_mat es)) Map.empty =
     (Inr sample_viewer, sample_running {})"
  by (simp add: spec_launch_def launch_with_def spawn_def sample_viewer_def sample_running_def sample_mat_def Let_def)

lemma sample_looped:
  "viewer_loop sample_agent sample_path (sample_mat es) sample_keys [] 3700 sample_viewer [sample_viewer_turn] None h d (sample_running {}) =
     Some (EndRevoked, h, d, sample_running {([''ws'', ''s''], ''a'')}, [])"
  by (simp add: seen_turn_def sample_viewer_turn_def session_turn_def sample_revoked_turn_def sample_running_def os_steps_def Let_def)

lemma sample_ended: "end_viewer sample_end sample_viewer (sample_running held) = Some (os_exit 7 (sample_running held))"
proof -
  have "map sample_look [0..<252] = sample_look 0 # map sample_look [1..<252]" by (subst upt_conv_Cons) simp_all
  then have "wait_timeout 0 CLOSE_GRACE sample_viewer (map sample_look [0..<252]) ps = Some (False, ps)" for ps
    by (simp add: wait_timeout_def sample_look_def CLOSE_GRACE_def is_running_def sample_viewer_def os_steps_def)
  moreover have "snd (request_close False sample_viewer ps) = ps" for ps by (simp add: request_close_def sample_viewer_def)
  moreover have "kill \<lparr>kw_kill = True, kw_events = [], kw_wait_fails = False\<rparr> sample_viewer ps = Some (os_exit 7 ps)" for ps
    by (simp add: kill_def child_wait_def sample_viewer_def os_steps_def)
  ultimately show ?thesis by (simp add: end_viewer_def sample_end_def Let_def)
qed

section \<open>Properties\<close>



text \<open>Whatever the processes do, the session is one of \<open>Agent_Open\<close>: some answers of the viewer and some set of files
  that cannot be wiped give the same end, approval, disk and reports. What is shown of those sessions
  holds of this one.\<close>

theorem viewer_session_refines:
  assumes "run_viewer_session A w ew pf number spec watch sealed dev signer base sid tns h d ps = Some (e, h', d', ps', rs)"
  shows "\<exists>locked launched turns.
    run_session A w ((ed_close ew)\<lparr>ow_locked := locked\<rparr>) launched sealed dev signer base sid turns h d = Some (e, h', d', rs)"
proof -
  let ?expiry = "case he_terms h of Some t \<Rightarrow> gt_expiry t | None \<Rightarrow> 0"
  obtain r h1 d1 where m: "materialise A w sealed dev base sid h d = (r, h1, d1)" by (metis surj_pair)
  show ?thesis
  proof (cases r)
    case (Inl x)
    then show ?thesis using assms m by (simp add: run_viewer_session_def run_session_def Let_def)
  next
    case (Inr mat)
    let ?sw = "res_ok (watch_start (fst watch) (snd watch) (Some (ma_plain mat)))"
    obtain l ps1 where l: "spec_launch pf number spec (ma_plain mat) ps = (l, ps1)" by fastforce
    show ?thesis
    proof (cases l)
      case (Inl x)
      then have "x = ''no_viewer''" using spec_launch_Inl l by blast
      then show ?thesis
        using assms m Inr l Inl
        by (intro exI [of _ "files_held ps1"] exI [of _ False])
          (auto simp: run_viewer_session_def run_session_def Let_def split: prod.splits)
    next
      case (Inr v)
      then obtain h2 d2 ps2 rs2 ps3 where lp: "viewer_loop A sealed mat dev signer ?expiry v tns ?sw h1 d1 ps1 = Some (e, h2, d2, ps2, rs2)"
        and en: "end_session ew v mat e h2 d2 ps2 = Some (h', d', ps3)"
        and rs: "rs = [Audited AeOpened (Some (permission_word (se_permission (he_session h)))), Phase ''opened''] @ rs2 @ end_reports e"
        using assms m \<open>r = Inr mat\<close> l by (auto simp: run_viewer_session_def Let_def split: option.splits)
      obtain ps4 q where "close ((ed_close ew)\<lparr>ow_locked := files_held ps4\<rparr>) mat (end_event e) h2 d2 = (q, h', d')"
        using en by (auto simp: end_session_def split: option.splits prod.splits)
      moreover have "session_loop A sealed mat dev signer ?expiry (seen_turns v tns ps1 ?sw) h1 d1 = Some (e, h2, d2, rs2)"
        using viewer_loop_session_loop [of A sealed mat dev signer ?expiry v tns ?sw h1 d1 ps1] lp by simp
      ultimately show ?thesis
        using m \<open>r = Inr mat\<close> rs
        by (intro exI [of _ "files_held ps4"] exI [of _ True] exI [of _ "seen_turns v tns ps1 ?sw"]) (simp add: run_session_def)
    qed
  qed
qed

text \<open>A viewer the system chose is not stopped: the helper that opened it is, and the program itself can go on holding
  the plaintext, which then survives the end of the session.\<close>

theorem default_viewer_keeps_plaintext:
  assumes "spec_launch pf number \<lparr>vs_program = None\<rparr> target ps = (Inr v, ps1)" and "number = Some helper"
    and "editor \<noteq> helper" and "ps2 editor = Some q" and "px_running q" and "p \<in> px_held q" and "dk_files d p = Some content"
    and "ed_looks ew = [look]" and "wu_events look = []" and "kw_events (ed_kill ew) = []"
    and "end_session ew v mat e h d ps2 = Some (h', d', ps3)"
  shows "running ps3 editor \<and> (dk_files d' p = Some content \<or> dk_residue d' p = Some content)"
proof -
  have v: "vi_launch v = Delegated" "vi_child v = Some helper" "vi_pid v = None"
    using spec_launch_Inr [OF assms(1)] assms(2) by (metis option.inject viewer_spec.select_convs(1))+
  have wt: "wait_timeout (ed_start ew) CLOSE_GRACE v [look] ps2 = Some (False, ps2)"
    using delegated_unknown(1) [OF v(1)] assms(9) by (simp add: wait_timeout_def os_steps_def)
  obtain ps4 where ev: "end_viewer ew v ps2 = Some ps4" using assms(11) by (auto simp: end_session_def split: option.splits)
  then have "kill (ed_kill ew) v ps2 = Some ps4" using wt assms(8) v(3) by (simp add: end_viewer_def request_close_def)
  then have ed: "ps4 editor = Some q"
    using v(2) assms(3,4,10) by (auto simp: kill_def child_wait_def os_steps_def os_exit_def Let_def split: if_splits)
  let ?cw = "(ed_close ew)\<lparr>ow_locked := files_held ps4\<rparr>"
  obtain r where cl: "close ?cw mat (end_event e) h d = (r, h', d')" and "ps3 = ps4"
    using assms(11) ev delegated_unknown(2) [OF v(1)] by (auto simp: end_session_def split: prod.splits)
  moreover have "p \<in> files_held ps4" using ed assms(5,6) by (auto simp: files_held_def)
  ultimately show ?thesis using close_locked [OF cl _ assms(7)] ed assms(5) by (simp add: running_def)
qed

end
