(* ===== verification/Auth_Factory.thy ===== *)
theory Auth_Factory
  imports Auth_Setup
begin

text \<open>
  Setup with a signer factory that keeps state, and the software factory (\<open>SignerFactory\<close> of \<open>setup.rs\<close>,
  \<open>SoftwareSignerFactory\<close> of \<open>software.rs\<close>, \<open>get_or_create\<close> of \<open>store.rs\<close>). The trait is a locale: what \<open>create\<close>
  made, \<open>reopen\<close> finds again from the profile. Shown once in it: a device that finished setup resumes
  with the very signer it made, and the factory's state does not change.
\<close>

subsection \<open>Setup over a factory with state\<close>

type_synonym 'st create_signer = "approval_style \<Rightarrow> bool \<Rightarrow> 'st \<Rightarrow> (auth_error + created_signer) \<times> 'st"
type_synonym 'st reopen_signer = "device_profile \<Rightarrow> 'st \<Rightarrow> (auth_error + signer_info) \<times> 'st"

definition factory_at :: "capabilities \<Rightarrow> 'st create_signer \<Rightarrow> 'st reopen_signer \<Rightarrow> 'st \<Rightarrow> signer_factory" where
  "factory_at caps create reopen st =
     \<lparr>sf_capabilities = caps, sf_create = (\<lambda>style b. fst (create style b st)), sf_reopen = (\<lambda>p. fst (reopen p st))\<rparr>"

text \<open>\<open>resume\<close> and \<open>complete\<close> call the factory at most once, so its state before the call decides its answer.\<close>

definition resume_with ::
  "capabilities \<Rightarrow> 'st create_signer \<Rightarrow> 'st reopen_signer \<Rightarrow> profile_codec \<Rightarrow> setup_io \<Rightarrow> setup_state \<Rightarrow> 'st \<Rightarrow>
     (auth_error + prepared option) \<times> 'st" where
  "resume_with caps create reopen P io s st =
     (setup_resume P (factory_at caps create reopen st) io s,
      case setup_profile P io s of Inr (Some p) \<Rightarrow> snd (reopen p st) | _ \<Rightarrow> st)"

definition complete_with ::
  "capabilities \<Rightarrow> 'st create_signer \<Rightarrow> 'st reopen_signer \<Rightarrow> 'x crypto_scheme \<Rightarrow> profile_codec \<Rightarrow> setup_io \<Rightarrow> (string \<Rightarrow> bytes) \<Rightarrow>
     approval_style \<Rightarrow> u64 \<Rightarrow> setup_state \<Rightarrow> 'st \<Rightarrow> (auth_error + prepared) \<times> setup_state \<times> 'st" where
  "complete_with caps create reopen X P io fresh style now s st =
     (let (r, s') = setup_complete X P (factory_at caps create reopen st) io fresh style now s in
      (r, s',
       if setup_profile P io s \<noteq> Inr None then snd (resume_with caps create reopen P io s st)
       else if offers caps style \<and> is_ok (fst (load_four X io fresh (ss_store s)))
       then snd (create style (device_confirmation style = OsUserVerification) st)
       else st))"

lemma new_profile_fields:
  "new_profile X style now c ks = Inr q \<Longrightarrow> dp_schema q = PROFILE_SCHEMA \<and> dp_style q = style \<and>
     dp_require_os_confirm q = (device_confirmation style = OsUserVerification) \<and>
     dp_credential q = (case cs_credential c of Some cr \<Rightarrow> cr | None \<Rightarrow> []) \<and>
     dp_public_key q = si_public_key (cs_provider c) \<and> dp_key_id q = si_key_id (cs_provider c)"
  by (cases ks) (auto simp: new_profile_def rbind_eq_Inr fixed32_def split: if_splits)

text \<open>The trait \<open>SignerFactory\<close>: the signer that was created can be reopened from what the profile keeps of it.\<close>

locale device_factory =
  fixes caps :: capabilities
    and create :: "'st create_signer"
    and reopen :: "'st reopen_signer"
  assumes reopen_created:
    "create style b st = (Inr c, st') \<Longrightarrow> dp_style p = style \<Longrightarrow> dp_require_os_confirm p = b \<Longrightarrow>
     dp_credential p = (case cs_credential c of Some cr \<Rightarrow> cr | None \<Rightarrow> []) \<Longrightarrow>
     dp_public_key p = si_public_key (cs_provider c) \<Longrightarrow> reopen p st' = (Inr (cs_provider c), st')"
begin

lemma completed_profile:
  assumes "setup_complete X P (factory_at caps create reopen st) io fresh style now s = (Inr pp, s')"
    and "setup_profile P io s = Inr None"
  obtains c st' where "create style (device_confirmation style = OsUserVerification) st = (Inr c, st')"
    "offers caps style" "is_ok (fst (load_four X io fresh (ss_store s)))" "pp_signer pp = cs_provider c"
    "pp_pending pp = pending_for (factory_at caps create reopen st) (pp_profile pp)"
    "dp_schema (pp_profile pp) = PROFILE_SCHEMA" "dp_style (pp_profile pp) = style"
    "dp_require_os_confirm (pp_profile pp) = (device_confirmation style = OsUserVerification)"
    "dp_credential (pp_profile pp) = (case cs_credential c of Some cr \<Rightarrow> cr | None \<Rightarrow> [])"
    "dp_public_key (pp_profile pp) = si_public_key (cs_provider c)" "dp_key_id (pp_profile pp) = si_key_id (cs_provider c)"
proof -
  let ?F = "factory_at caps create reopen st" and ?b = "device_confirmation style = OsUserVerification"
  have F: "sf_capabilities ?F = caps" "sf_create ?F style ?b = fst (create style ?b st)" by (simp_all add: factory_at_def)
  have n: "setup_resume P ?F io s = Inr None" using assms(2) by (simp add: setup_resume_def)
  obtain c ks st1 where c: "fst (create style ?b st) = Inr c" and o: "offers caps style"
    and l: "load_four X io fresh (ss_store s) = (Inr ks, st1)" and p: "new_profile X style now c ks = Inr (pp_profile pp)"
    and pp: "pp_signer pp = cs_provider c" "pp_pending pp = pending_for ?F (pp_profile pp)"
    using assms(1) n F by (auto simp: setup_complete_def Let_def split: if_splits sum.splits prod.splits)
  obtain st' where "create style ?b st = (Inr c, st')" using c by (metis prod.collapse)
  then show thesis
    using that o l pp new_profile_fields [OF p] by (cases ks) (simp add: is_ok_iff)
qed

text \<open>After setup, the next start finds the same profile and opens the same signer.\<close>

lemma resumes_what_it_created:
  assumes "profile_lawful P" and "ss_profile s = None"
    and "complete_with caps create reopen X P io fresh style now s st = (Inr pp, s', st')" and "so_read io'"
  shows "resume_with caps create reopen P io' s' st' = (Inr (Some pp), st')"
proof -
  have none: "setup_profile P io s = Inr None" using assms(2) by (simp add: setup_profile_def)
  have done_: "setup_complete X P (factory_at caps create reopen st) io fresh style now s = (Inr pp, s')"
    using assms(3) by (auto simp: complete_with_def Let_def split: prod.splits)
  obtain c st1 where cr: "create style (device_confirmation style = OsUserVerification) st = (Inr c, st1)"
    and ok: "offers caps style" "is_ok (fst (load_four X io fresh (ss_store s)))"
    and pp: "pp_signer pp = cs_provider c" "pp_pending pp = pending_for (factory_at caps create reopen st) (pp_profile pp)"
      "dp_schema (pp_profile pp) = PROFILE_SCHEMA" "dp_style (pp_profile pp) = style"
      "dp_require_os_confirm (pp_profile pp) = (device_confirmation style = OsUserVerification)"
      "dp_credential (pp_profile pp) = (case cs_credential c of Some cr \<Rightarrow> cr | None \<Rightarrow> [])"
      "dp_public_key (pp_profile pp) = si_public_key (cs_provider c)" "dp_key_id (pp_profile pp) = si_key_id (cs_provider c)"
    using completed_profile [OF done_ none] .
  have st': "st' = st1" using assms(3) none ok cr by (auto simp: complete_with_def Let_def split: prod.splits)
  have re: "reopen (pp_profile pp) st' = (Inr (cs_provider c), st')" using reopen_created [OF cr pp(4-7)] st' by simp
  have "stored_profile P s' = Some (pp_profile pp)" using complete_stores [OF done_ assms(1)] .
  then have p: "setup_profile P io' s' = Inr (Some (pp_profile pp))"
    using assms(4) pp(3) by (auto simp: stored_profile_def setup_profile_def res_ok_def split: option.splits sum.splits)
  have "pending_for (factory_at caps create reopen st') p = pending_for (factory_at caps create reopen st) p" for p
    by (simp add: pending_for_def factory_at_def)
  then show ?thesis using p re pp(1,2,8) by (simp add: resume_with_def setup_resume_def factory_at_def)
qed

end

subsection \<open>software.rs: the software factory\<close>

text \<open>The factory's own entry of the key store is the only one it touches, and setup never touches it; the factory's
  state is the store as far as it uses it.\<close>

definition get_or_create :: "setup_io \<Rightarrow> string \<Rightarrow> bytes \<Rightarrow> key_store \<Rightarrow> (auth_error + bytes) \<times> key_store" where
  "get_or_create io name made st =
     (case store_get io name st of
        Inl e \<Rightarrow> (Inl e, st)
      | Inr (Some found) \<Rightarrow> (Inr found, st)
      | Inr None \<Rightarrow> (case store_put io name made st of (Inl e, st') \<Rightarrow> (Inl e, st') | (Inr _, st') \<Rightarrow> (Inr made, st')))"

record software_factory =
  fw_rp_id :: string
  fw_origin :: string
  fw_capabilities :: capabilities

definition software_factory_new :: "string \<Rightarrow> software_factory" where
  "software_factory_new rp_id =
     \<lparr>fw_rp_id = rp_id, fw_origin = ''https://'' @ rp_id,
      fw_capabilities = \<lparr>cp_os_authenticator = True, cp_hardware_key = False, cp_persistent_store = False\<rparr>\<rparr>"

definition with_capabilities :: "capabilities \<Rightarrow> software_factory \<Rightarrow> software_factory" where
  "with_capabilities caps f = f\<lparr>fw_capabilities := caps\<rparr>"

definition software_scalar :: "setup_io \<Rightarrow> bytes \<Rightarrow> key_store \<Rightarrow> (auth_error + bytes) \<times> key_store" where
  "software_scalar io fresh st =
     (case store_get io APPROVAL_SOFTWARE st of
        Inl e \<Rightarrow> (Inl e, st)
      | Inr (Some found) \<Rightarrow> (Inr found, st)
      | Inr None \<Rightarrow>
          (case store_put io APPROVAL_SOFTWARE fresh st of (Inl e, st') \<Rightarrow> (Inl e, st') | (Inr _, st') \<Rightarrow> (Inr fresh, st')))"

definition device_key_info :: "'x auth_lib_scheme \<Rightarrow> software_device_key \<Rightarrow> signer_info" where
  "device_key_info A k = \<lparr>si_kind = DeviceKey, si_key_id = p256_key_id A (dk_public k), si_public_key = Some (dk_public k)\<rparr>"

definition passkey_info :: "'x auth_lib_scheme \<Rightarrow> software_passkey \<Rightarrow> signer_info" where
  "passkey_info A k = \<lparr>si_kind = PlatformPasskey, si_key_id = p256_key_id A (pk_public k), si_public_key = Some (pk_public k)\<rparr>"

definition software_build ::
  "'x auth_lib_scheme \<Rightarrow> software_factory \<Rightarrow> setup_io \<Rightarrow> bytes \<Rightarrow> approval_style \<Rightarrow> bool \<Rightarrow> key_store \<Rightarrow>
     (auth_error + signer_info) \<times> key_store" where
  "software_build A f io fresh style confirm st =
     (case software_scalar io fresh st of
        (Inl e, st') \<Rightarrow> (Inl e, st')
      | (Inr scalar, st') \<Rightarrow>
          (case style of
             Biometric \<Rightarrow> rbind (passkey_from_secret A scalar (fw_rp_id f) (fw_origin f) False) (\<lambda>k. Inr (passkey_info A k))
           | ThisDevice \<Rightarrow> rbind (device_key_from_secret A scalar confirm) (\<lambda>k. Inr (device_key_info A k)), st'))"

definition software_create ::
  "'x auth_lib_scheme \<Rightarrow> software_factory \<Rightarrow> setup_io \<Rightarrow> bytes \<Rightarrow> key_store create_signer" where
  "software_create A f io fresh style confirm st =
     (case software_build A f io fresh style confirm st of
        (Inl e, st') \<Rightarrow> (Inl e, st')
      | (Inr provider, st') \<Rightarrow> (Inr \<lparr>cs_provider = provider, cs_credential = None, cs_hardware_backed = False\<rparr>, st'))"

definition software_reopen ::
  "'x auth_lib_scheme \<Rightarrow> software_factory \<Rightarrow> setup_io \<Rightarrow> bytes \<Rightarrow> key_store reopen_signer" where
  "software_reopen A f io fresh p st = software_build A f io fresh (dp_style p) (dp_require_os_confirm p) st"

lemma software_scalar_again:
  "software_scalar io fresh st = (Inr sec, st') \<Longrightarrow> software_scalar io fresh' st' = (Inr sec, st')"
  by (auto simp: software_scalar_def store_get_def store_put_def split: if_splits option.splits sum.splits prod.splits)

lemma software_scalar_frame: "software_scalar io fresh st = (r, st') \<Longrightarrow> n \<noteq> APPROVAL_SOFTWARE \<Longrightarrow> st' n = st n"
  by (auto simp: software_scalar_def store_get_def store_put_def split: if_splits option.splits sum.splits prod.splits)

lemma setup_secret_frame: "setup_secret io n f st = (r, st') \<Longrightarrow> m \<noteq> n \<Longrightarrow> st' m = st m"
  by (auto simp: setup_secret_def store_get_def store_put_def split: if_splits option.splits sum.splits prod.splits)

lemma load_four_frame:
  assumes "load_four X io fresh st = (r, st')" shows "st' APPROVAL_SOFTWARE = st APPROVAL_SOFTWARE"
proof -
  have x: "setup_x25519 X io n f s = (q, s') \<Longrightarrow> APPROVAL_SOFTWARE \<noteq> n \<Longrightarrow> s' APPROVAL_SOFTWARE = s APPROVAL_SOFTWARE"
    and e: "setup_ed25519 io n f s = (q2, s') \<Longrightarrow> APPROVAL_SOFTWARE \<noteq> n \<Longrightarrow> s' APPROVAL_SOFTWARE = s APPROVAL_SOFTWARE"
    for n f s q q2 s'
    using setup_secret_frame by (auto simp: setup_x25519_def setup_ed25519_def split: sum.splits prod.splits)
  have names: "APPROVAL_SOFTWARE \<noteq> DEVICE_X25519" "APPROVAL_SOFTWARE \<noteq> DEVICE_ED25519" "APPROVAL_SOFTWARE \<noteq> OWNER_SEALING"
    "APPROVAL_SOFTWARE \<noteq> OWNER_SIGNING"
    by (simp_all add: APPROVAL_SOFTWARE_def DEVICE_X25519_def DEVICE_ED25519_def OWNER_SEALING_def OWNER_SIGNING_def)
  show ?thesis
    using assms names by (auto simp: load_four_def split: sum.splits prod.splits dest!: x e)
qed

interpretation software: device_factory "fw_capabilities f" "software_create A f io fresh" "software_reopen A f io fresh'"
  for A f io fresh fresh'
proof unfold_locales
  fix style b st c st' and p :: device_profile
  assume "software_create A f io fresh style b st = (Inr c, st')" and p: "dp_style p = style" "dp_require_os_confirm p = b"
  then have b: "software_build A f io fresh style b st = (Inr (cs_provider c), st')"
    by (auto simp: software_create_def split: sum.splits prod.splits)
  obtain sec where s: "software_scalar io fresh st = (Inr sec, st')"
    using b by (auto simp: software_build_def split: sum.splits prod.splits)
  show "software_reopen A f io fresh' p st' = (Inr (cs_provider c), st')"
    using b s software_scalar_again [OF s, of fresh'] p by (simp add: software_reopen_def software_build_def)
qed

text \<open>A store that died with the process: the profile is there, the approval key is not. The factory makes another
  key, and resuming is refused because it is not the one of the profile.\<close>

theorem lost_software_key_refused:
  assumes "setup_profile P io s = Inr (Some p)" and "st APPROVAL_SOFTWARE = None" and "so_get io APPROVAL_SOFTWARE"
    and "so_put io APPROVAL_SOFTWARE" and "p256_secret_ok A fresh" and "p256_key_id A (public_key_of A fresh) \<noteq> dp_key_id p"
  shows "resume_with (fw_capabilities f) (software_create A f io fresh) (software_reopen A f io fresh) P io s st =
    (Inl (AuHardware ''stored approval key no longer matches this device''), st(APPROVAL_SOFTWARE \<mapsto> fresh))"
  using assms
  by (cases "dp_style p")
    (simp_all add: resume_with_def setup_resume_def factory_at_def software_reopen_def software_build_def software_scalar_def
      store_get_def store_put_def passkey_from_secret_def device_key_from_secret_def passkey_info_def device_key_info_def)

end
