(* ===== verification/Auth_Windows.thy ===== *)
theory Auth_Windows
  imports Auth_Factory
begin

unbundle bit_operations_syntax

text \<open>
  The Windows signers (\<open>crates/zbacs-auth/src/windows\<close>): folding a signature into the lower half of the
  curve's order byte by byte, the key of this device in a CNG key store, the Windows Hello passkey,
  reading their public keys, and the factory that makes them for setup. The key stores of CNG are a
  map from provider and name to keys; what the Windows calls answer (errors, attestations,
  assertions, signatures) are arguments, CBOR and DER are parameters.
\<close>

subsection \<open>mod.rs: signatures in the lower half\<close>

definition curve_n :: bytes where
  "curve_n = [0xff, 0xff, 0xff, 0xff, 0x00, 0x00, 0x00, 0x00, 0xff, 0xff, 0xff, 0xff, 0xff, 0xff, 0xff, 0xff, 0xbc,
     0xe6, 0xfa, 0xad, 0xa7, 0x17, 0x9e, 0x84, 0xf3, 0xb9, 0xca, 0xc2, 0xfc, 0x63, 0x25, 0x51]"

text \<open>The loop of \<open>half_n\<close>: each byte shifted right, with the bit that fell out of the one before it.\<close>

fun half_loop :: "u8 \<Rightarrow> bytes \<Rightarrow> bytes" where
  "half_loop carry [] = []"
| "half_loop carry (b # bs) = (drop_bit 1 b OR push_bit 7 carry) # half_loop (b AND 1) bs"

definition half_n :: bytes where
  "half_n = half_loop 0 curve_n"

text \<open>The loop of \<open>is_high_s\<close>: the first byte that differs decides.\<close>

fun greater_loop :: "bytes \<Rightarrow> bytes \<Rightarrow> bool" where
  "greater_loop (a # as) (b # bs) = (if b < a then True else if a < b then False else greater_loop as bs)"
| "greater_loop _ _ = False"

definition is_high_s :: "bytes \<Rightarrow> bool" where
  "is_high_s s = greater_loop s half_n"

text \<open>The subtraction with borrow, from the last byte to the first: the lists are reversed. The difference
  is an \<open>i16\<close> between -256 and 255.\<close>

fun borrow_loop :: "int \<Rightarrow> bytes \<Rightarrow> bytes \<Rightarrow> bytes" where
  "borrow_loop borrow (n # ns) (s # ss) =
     (let d = uint n - uint s - borrow in
      if d < 0 then word_of_int (d + 256) # borrow_loop 1 ns ss
      else word_of_int d # borrow_loop 0 ns ss)"
| "borrow_loop borrow _ _ = []"

definition normalize_low_s :: "bytes \<Rightarrow> bytes \<Rightarrow> bytes \<times> bytes" where
  "normalize_low_s r s =
     (if \<not> is_high_s s then (r, s) else (r, rev (borrow_loop 0 (rev curve_n) (rev s))))"

text \<open>DER and CBOR of the crates, and the constant Windows marks P-256 public keys with.\<close>

datatype cbor_value = CborInt int | CborBytes bytes | CborMap "(cbor_value \<times> cbor_value) list" | CborOther

record windows_lib =
  wl_from_der :: "bytes \<Rightarrow> (bytes \<times> bytes) option"
  wl_cbor :: "bytes \<Rightarrow> cbor_value option"
  wl_p256_magic :: u32

definition der_to_low_s :: "'x auth_lib_scheme \<Rightarrow> windows_lib \<Rightarrow> bytes \<Rightarrow> auth_error + bytes \<times> bytes" where
  "der_to_low_s A W der =
     rbind (ok_or (wl_from_der W der) (AuMalformed ''signature is not DER'')) (\<lambda>sig.
       Inr (case p256_normalize A sig of Some sig' \<Rightarrow> sig' | None \<Rightarrow> sig))"

definition DEVICE_KEY_NAME :: bytes where
  "DEVICE_KEY_NAME = ascii ''Z-BACS approval key''"

subsection \<open>device\_key.rs\<close>

text \<open>The CNG key stores: the platform's (the TPM) and the software one. A persisted key keeps its secret and
  whether Windows asks the person before it is used.\<close>

datatype cng_provider = PlatformProvider | SoftwareProvider

record cng_key =
  ck_secret :: bytes
  ck_ui_policy :: bool

type_synonym cng_store = "cng_provider \<times> bytes \<rightharpoonup> cng_key"

text \<open>What CNG answers: whether a provider opens, whether opening an existing key fails, the fresh secret of a new
  key or a failure, the other steps, the exported public key and a signature or an error code.\<close>

record cng_world =
  cg_provider :: "cng_provider \<Rightarrow> bool"
  cg_open_fails :: bool
  cg_create :: "bytes option"
  cg_set_policy :: bool
  cg_finalize :: bool
  cg_export_size :: bool
  cg_export :: "bytes \<Rightarrow> bytes option"
  cg_sign_size :: bool
  cg_sign :: "bytes \<Rightarrow> bytes \<Rightarrow> u32 + bytes"
  cg_delete :: bool

record windows_device_key =
  wk_provider :: cng_provider
  wk_key :: cng_key
  wk_public :: p256_key
  wk_require_os_confirm :: bool
  wk_tpm_backed :: bool
  wk_name :: bytes

definition open_provider :: "cng_world \<Rightarrow> cng_provider \<Rightarrow> auth_error + cng_provider" where
  "open_provider w p = (if cg_provider w p then Inr p else Inl (AuHardware ''open storage provider''))"

definition public_from_blob :: "windows_lib \<Rightarrow> bytes \<Rightarrow> auth_error + p256_key" where
  "public_from_blob W blob =
     (if length blob < 8 + 64 then Inl (AuMalformed ''ECC public blob is too short'')
      else if of_le_bytes (take 4 blob) \<noteq> unat (wl_p256_magic W) \<or> of_le_bytes (take 4 (drop 4 blob)) \<noteq> 32
      then Inl (AuMalformed ''key is not ECDSA P-256'')
      else Inr \<lparr>px = take 32 (drop 8 blob), py = take 32 (drop 40 blob)\<rparr>)"

definition export_public :: "windows_lib \<Rightarrow> cng_world \<Rightarrow> cng_key \<Rightarrow> auth_error + p256_key" where
  "export_public W w k =
     (if \<not> cg_export_size w then Inl (AuHardware ''size public key'')
      else rbind (ok_or (cg_export w (ck_secret k)) (AuHardware ''export public key'')) (public_from_blob W))"

text \<open>Opening the named key, or making it. A name that is taken cannot be created again, and a key is
  persisted when it is finalized.\<close>

definition create_key :: "cng_world \<Rightarrow> cng_provider \<Rightarrow> bytes \<Rightarrow> bool \<Rightarrow> cng_store \<Rightarrow> (auth_error + cng_key) \<times> cng_store" where
  "create_key w p name confirm st =
     (case (cg_create w, st (p, name)) of
        (Some sec, None) \<Rightarrow>
          if confirm \<and> \<not> cg_set_policy w then (Inl (AuHardware ''set ui policy''), st)
          else if \<not> cg_finalize w then (Inl (AuHardware ''finalize device key''), st)
          else let k = \<lparr>ck_secret = sec, ck_ui_policy = confirm\<rparr> in (Inr k, st((p, name) \<mapsto> k))
      | _ \<Rightarrow> (Inl (AuHardware ''create device key''), st))"

definition open_or_create ::
  "windows_lib \<Rightarrow> cng_world \<Rightarrow> bytes \<Rightarrow> bool \<Rightarrow> bool \<Rightarrow> cng_store \<Rightarrow> (auth_error + windows_device_key) \<times> cng_store" where
  "open_or_create W w name confirm fallback st =
     (case (case open_provider w PlatformProvider of
              Inr p \<Rightarrow> Inr (p, True)
            | Inl e \<Rightarrow> if fallback then rbind (open_provider w SoftwareProvider) (\<lambda>p. Inr (p, False)) else Inl e) of
        Inl e \<Rightarrow> (Inl e, st)
      | Inr (p, tpm) \<Rightarrow>
          let (r, st1) =
            (case st (p, name) of
               Some k \<Rightarrow> if cg_open_fails w then create_key w p name confirm st else (Inr k, st)
             | None \<Rightarrow> create_key w p name confirm st)
          in (rbind r (\<lambda>k. rbind (export_public W w k) (\<lambda>public.
                Inr \<lparr>wk_provider = p, wk_key = k, wk_public = public, wk_require_os_confirm = confirm,
                     wk_tpm_backed = tpm, wk_name = name\<rparr>)), st1))"

definition delete_device_key :: "cng_world \<Rightarrow> windows_device_key \<Rightarrow> cng_store \<Rightarrow> (auth_error + unit) \<times> cng_store" where
  "delete_device_key w k st =
     (if cg_delete w then (Inr (), st((wk_provider k, wk_name k) := None)) else (Inl (AuHardware ''delete device key''), st))"

definition windows_key_sign ::
  "'x auth_lib_scheme \<Rightarrow> cng_world \<Rightarrow> windows_device_key \<Rightarrow> approval_challenge \<Rightarrow> confirmation \<Rightarrow>
     (auth_error + assertion) \<times> windows_device_key" where
  "windows_key_sign A w k c conf =
     (if conf = OsUserVerification \<and> \<not> wk_require_os_confirm k then (Inl (ConfirmationUnavailable DeviceKey conf), k)
      else if \<not> cg_sign_size w then (Inl (AuHardware ''size signature''), k)
      else case cg_sign w (ck_secret (wk_key k)) (ch_digest c) of
        Inl code \<Rightarrow> (Inl (if code = 0x8009002E then AuCancelled else AuHardware ''sign''), k)
      | Inr sig \<Rightarrow>
          if length sig \<noteq> 64 then (Inl (AuMalformed ''CNG returned a signature that is not 64 bytes''), k)
          else let (r, s) = normalize_low_s (take 32 sig) (drop 32 sig)
               in (Inr (AsP256Raw (p256_key_id A (wk_public k)) r s), k))"

subsection \<open>passkey.rs\<close>

definition hello_err :: "string \<Rightarrow> u32 \<Rightarrow> auth_error" where
  "hello_err what code = (if code = 0x8009002E \<or> code = 0x800704C7 then AuCancelled else AuHardware what)"

text \<open>Windows Hello: making a credential answers with its id and authenticator data, an assertion with authenticator
  data and a signature in DER; a null pointer is \<open>None\<close>.\<close>

record hello_world =
  hl_make :: "string \<Rightarrow> string \<Rightarrow> string \<Rightarrow> bytes \<Rightarrow> string \<Rightarrow> u32 + (bytes \<times> bytes) option"
  hl_assert :: "string \<Rightarrow> bytes \<Rightarrow> string \<Rightarrow> u32 + (bytes \<times> bytes) option"

record windows_passkey =
  wp_rp_id :: string
  wp_origin :: string
  wp_credential :: bytes
  wp_public :: p256_key

definition origin_of :: "string \<Rightarrow> string" where
  "origin_of rp_id = ''https://'' @ rp_id"

definition client_data :: "'x auth_lib_scheme \<Rightarrow> bytes \<Rightarrow> string \<Rightarrow> string" where
  \<open>client_data A challenge org =
     ''{"type":"webauthn.get","challenge":"'' @ b64url_encode A challenge @ ''","origin":"'' @ org @
     ''","crossOrigin":false}''\<close>

definition cbor_bytes :: "cbor_value \<Rightarrow> bytes option" where
  "cbor_bytes v = (case v of CborBytes b \<Rightarrow> Some b | _ \<Rightarrow> None)"

text \<open>The loop over the map: a label that is no \<open>i64\<close> is skipped, the last entry of a label counts.\<close>

fun cose_loop :: "(cbor_value \<times> cbor_value) list \<Rightarrow> bytes option \<Rightarrow> bytes option \<Rightarrow> bytes option \<times> bytes option" where
  "cose_loop [] x y = (x, y)"
| "cose_loop ((k, v) # kvs) x y =
     (case k of
        CborInt label \<Rightarrow>
          if label < - (2 ^ 63) \<or> 2 ^ 63 \<le> label then cose_loop kvs x y
          else if label = -2 then cose_loop kvs (cbor_bytes v) y
          else if label = -3 then cose_loop kvs x (cbor_bytes v)
          else cose_loop kvs x y
      | _ \<Rightarrow> cose_loop kvs x y)"

definition cose_p256_public_key :: "windows_lib \<Rightarrow> bytes \<Rightarrow> auth_error + p256_key" where
  "cose_p256_public_key W bs =
     rbind (ok_or (wl_cbor W bs) (AuMalformed ''COSE key is not valid CBOR'')) (\<lambda>value.
     case value of
       CborMap kvs \<Rightarrow>
         (let (x, y) = cose_loop kvs None None in
          rbind (ok_or x (AuMalformed ''COSE key has no x'')) (\<lambda>x.
          rbind (ok_or y (AuMalformed ''COSE key has no y'')) (\<lambda>y.
            if length x \<noteq> 32 \<or> length y \<noteq> 32 then Inl (AuMalformed ''COSE key coordinates are not 32 bytes'')
            else Inr \<lparr>px = x, py = y\<rparr>)))
     | _ \<Rightarrow> Inl (AuMalformed ''COSE key is not a map''))"

definition public_key_from_authenticator_data :: "windows_lib \<Rightarrow> bytes \<Rightarrow> auth_error + p256_key" where
  "public_key_from_authenticator_data W ad =
     (if length ad < 55 then Inl (AuMalformed ''authenticator data has no attested credential'')
      else let start = 55 + of_le_bytes [ad ! 54, ad ! 53] in
           if length ad < start then Inl (AuMalformed ''credential id runs past the buffer'')
           else cose_p256_public_key W (drop start ad))"

definition passkey_create ::
  "'x auth_lib_scheme \<Rightarrow> windows_lib \<Rightarrow> hello_world \<Rightarrow> bytes \<Rightarrow> bytes \<Rightarrow> string \<Rightarrow> string \<Rightarrow> string \<Rightarrow> auth_error + windows_passkey" where
  "passkey_create A W w challenge user_id rp_id rp_name user_name =
     (case hl_make w rp_id rp_name user_name user_id (client_data A challenge (origin_of rp_id)) of
        Inl code \<Rightarrow> Inl (hello_err ''create passkey'' code)
      | Inr None \<Rightarrow> Inl (AuHardware ''webauthn returned no attestation'')
      | Inr (Some (credential, ad)) \<Rightarrow>
          rbind (public_key_from_authenticator_data W ad) (\<lambda>public.
            Inr \<lparr>wp_rp_id = rp_id, wp_origin = origin_of rp_id, wp_credential = credential, wp_public = public\<rparr>))"

definition passkey_from_stored :: "string \<Rightarrow> bytes \<Rightarrow> p256_key \<Rightarrow> windows_passkey" where
  "passkey_from_stored rp_id credential public =
     \<lparr>wp_rp_id = rp_id, wp_origin = origin_of rp_id, wp_credential = credential, wp_public = public\<rparr>"

definition windows_passkey_sign ::
  "'x auth_lib_scheme \<Rightarrow> windows_lib \<Rightarrow> hello_world \<Rightarrow> windows_passkey \<Rightarrow> approval_challenge \<Rightarrow> confirmation \<Rightarrow>
     (auth_error + assertion) \<times> windows_passkey" where
  "windows_passkey_sign A W w k c conf =
     (let cd = client_data A (ch_digest c) (wp_origin k) in
      (case hl_assert w (wp_rp_id k) (wp_credential k) cd of
         Inl code \<Rightarrow> Inl (hello_err ''approve with Windows Hello'' code)
       | Inr None \<Rightarrow> Inl (AuHardware ''webauthn returned no assertion'')
       | Inr (Some (ad, der)) \<Rightarrow> rbind (der_to_low_s A W der) (\<lambda>(r, s). Inr (AsWebAuthn ad cd r s)), k))"

subsection \<open>mod.rs: the factory\<close>

record windows_factory =
  wf_rp_id :: string
  wf_rp_name :: string
  wf_user_name :: string
  wf_fallback :: bool

definition windows_factory_new :: "string \<Rightarrow> string \<Rightarrow> string \<Rightarrow> windows_factory" where
  "windows_factory_new rp_id rp_name user_name =
     \<lparr>wf_rp_id = rp_id, wf_rp_name = rp_name, wf_user_name = user_name, wf_fallback = True\<rparr>"

definition require_hardware :: "windows_factory \<Rightarrow> windows_factory" where
  "require_hardware f = f\<lparr>wf_fallback := False\<rparr>"

definition windows_capabilities :: "u32 \<Rightarrow> bool \<Rightarrow> capabilities" where
  "windows_capabilities api_version keychain_available =
     \<lparr>cp_os_authenticator = 0 < api_version, cp_hardware_key = True, cp_persistent_store = keychain_available\<rparr>"

definition windows_passkey_info :: "'x auth_lib_scheme \<Rightarrow> windows_passkey \<Rightarrow> signer_info" where
  "windows_passkey_info A k =
     \<lparr>si_kind = PlatformPasskey, si_key_id = p256_key_id A (wp_public k), si_public_key = Some (wp_public k)\<rparr>"

definition windows_key_info :: "'x auth_lib_scheme \<Rightarrow> windows_device_key \<Rightarrow> signer_info" where
  "windows_key_info A k =
     \<lparr>si_kind = DeviceKey, si_key_id = p256_key_id A (wk_public k), si_public_key = Some (wk_public k)\<rparr>"

definition windows_create ::
  "'x auth_lib_scheme \<Rightarrow> windows_lib \<Rightarrow> cng_world \<Rightarrow> hello_world \<Rightarrow> bytes \<Rightarrow> bytes \<Rightarrow> windows_factory \<Rightarrow> cng_store create_signer" where
  "windows_create A W w hw challenge user_id f style confirm st =
     (case style of
        Biometric \<Rightarrow>
          (rbind (passkey_create A W hw challenge user_id (wf_rp_id f) (wf_rp_name f) (wf_user_name f)) (\<lambda>key.
             Inr \<lparr>cs_provider = windows_passkey_info A key, cs_credential = Some (wp_credential key), cs_hardware_backed = True\<rparr>), st)
      | ThisDevice \<Rightarrow>
          (case open_or_create W w DEVICE_KEY_NAME confirm (wf_fallback f) st of
             (Inl e, st') \<Rightarrow> (Inl e, st')
           | (Inr key, st') \<Rightarrow>
               (Inr \<lparr>cs_provider = windows_key_info A key, cs_credential = Some DEVICE_KEY_NAME,
                     cs_hardware_backed = wk_tpm_backed key\<rparr>, st')))"

definition windows_reopen ::
  "'x auth_lib_scheme \<Rightarrow> windows_lib \<Rightarrow> cng_world \<Rightarrow> windows_factory \<Rightarrow> cng_store reopen_signer" where
  "windows_reopen A W w f p st =
     (case dp_style p of
        Biometric \<Rightarrow>
          (rbind (ok_or (dp_public_key p) (AuMalformed ''profile has no approval public key'')) (\<lambda>public.
             Inr (windows_passkey_info A (passkey_from_stored (wf_rp_id f) (dp_credential p) public))), st)
      | ThisDevice \<Rightarrow>
          if \<not> utf8_valid (dp_credential p) then (Inl (AuMalformed ''profile key name is not text''), st)
          else let name = (if dp_credential p = [] then DEVICE_KEY_NAME else dp_credential p) in
               (case open_or_create W w name (dp_require_os_confirm p) (wf_fallback f) st of
                  (r, st') \<Rightarrow> (rbind r (\<lambda>key. Inr (windows_key_info A key)), st')))"

subsection \<open>Lemmas on the bytes\<close>

text \<open>The value of big-endian bytes.\<close>

definition of_be_bytes :: "bytes \<Rightarrow> nat" where
  "of_be_bytes bs = of_le_bytes (rev bs)"

lemma of_le_bytes_append: "of_le_bytes (xs @ ys) = of_le_bytes xs + 256 ^ length xs * of_le_bytes ys"
  by (induction xs) (simp_all add: algebra_simps)

lemma of_be_bytes_Cons: "of_be_bytes (b # bs) = unat b * 256 ^ length bs + of_be_bytes bs"
  by (simp add: of_be_bytes_def of_le_bytes_append)

lemma of_be_bytes_bound: "of_be_bytes bs < 256 ^ length bs"
  using of_le_bytes_bound [of "rev bs"] by (simp add: of_be_bytes_def)

lemma be_step_less:
  assumes "a < b" and "x < 256 ^ n" shows "a * 256 ^ n + x < b * (256::nat) ^ n + y"
proof -
  have "Suc a * 256 ^ n \<le> b * (256::nat) ^ n" using assms(1) by (intro mult_right_mono) auto
  then show ?thesis using assms(2) by (simp add: add.commute)
qed

lemma greater_loop_value: "length as = length bs \<Longrightarrow> greater_loop as bs \<longleftrightarrow> of_be_bytes bs < of_be_bytes as"
proof (induction as bs rule: greater_loop.induct)
  case (1 a as b bs)
  have l: "length bs = length as" using 1(2) by simp
  consider "b < a" | "a < b" | "a = b" by fastforce
  then show ?case
  proof cases
    case 1
    then have "of_be_bytes (b # bs) < of_be_bytes (a # as)"
      using be_step_less [of "unat b" "unat a" "of_be_bytes bs" "length as"] of_be_bytes_bound [of bs] l
      by (simp add: of_be_bytes_Cons word_less_nat_alt)
    then show ?thesis using 1 by simp
  next
    case 2
    then have "of_be_bytes (a # as) < of_be_bytes (b # bs)"
      using be_step_less [of "unat a" "unat b" "of_be_bytes as" "length as"] of_be_bytes_bound [of as] l
      by (simp add: of_be_bytes_Cons word_less_nat_alt)
    then show ?thesis using 2 by simp
  next
    case 3
    then show ?thesis using 1 by (simp add: of_be_bytes_Cons)
  qed
qed auto

lemma unat_byte_of_int: "0 \<le> d \<Longrightarrow> d < 256 \<Longrightarrow> int (unat (word_of_int d :: byte)) = d"
  by (simp add: uint_word_of_int)

text \<open>The loop subtracts: what is missing at the end is a borrow of one whole power.\<close>

lemma borrow_loop_value:
  assumes "length ns = length ss" and "0 \<le> borrow" and "borrow \<le> 1"
  shows "\<exists>k \<in> {0, 1}. int (of_le_bytes (borrow_loop borrow ns ss)) + int (of_le_bytes ss) + borrow =
    int (of_le_bytes ns) + k * 256 ^ length ns"
    and "length (borrow_loop borrow ns ss) = length ns"
  using assms
proof (induction borrow ns ss rule: borrow_loop.induct)
  case (1 borrow n ns s ss)
  let ?d = "uint n - uint s - borrow"
  have u: "0 \<le> uint n" "uint n < 256" "0 \<le> uint s" "uint s < 256" using uint_bounded [of n] uint_bounded [of s] by simp_all
  {
    case 1
    show ?case
    proof (cases "?d < 0")
      case True
      obtain k where k: "k \<in> {0, 1}" "int (of_le_bytes (borrow_loop 1 ns ss)) + int (of_le_bytes ss) + 1 =
          int (of_le_bytes ns) + k * 256 ^ length ns" using "1.IH"(1) [OF refl True] 1 by auto
      have "int (unat (word_of_int (?d + 256) :: byte)) = ?d + 256" using True u 1 by (intro unat_byte_of_int) linarith+
      then show ?thesis using k True by (intro bexI [of _ k]) (simp_all add: Let_def algebra_simps)
    next
      case False
      obtain k where k: "k \<in> {0, 1}" "int (of_le_bytes (borrow_loop 0 ns ss)) + int (of_le_bytes ss) + 0 =
          int (of_le_bytes ns) + k * 256 ^ length ns" using "1.IH"(3) [OF refl False] 1 by auto
      have "int (unat (word_of_int ?d :: byte)) = ?d" using False u 1 by (intro unat_byte_of_int) linarith+
      then show ?thesis using k False by (intro bexI [of _ k]) (simp_all add: Let_def algebra_simps)
    qed
  next
    case 2
    then show ?case using "1.IH" by (auto simp: Let_def)
  }
qed auto

lemma curve_length [simp]: "length curve_n = 32"
  by (simp add: curve_n_def)

lemma half_n_bytes:
  "half_n = [0x7f, 0xff, 0xff, 0xff, 0x80, 0x00, 0x00, 0x00, 0x7f, 0xff, 0xff, 0xff, 0xff, 0xff, 0xff, 0xff, 0xde,
     0x73, 0x7d, 0x56, 0xd3, 0x8b, 0xcf, 0x42, 0x79, 0xdc, 0xe5, 0x61, 0x7e, 0x31, 0x92, 0xa8]"
  by code_simp

lemma half_n_value: "length half_n = 32" "of_be_bytes half_n = of_be_bytes curve_n div 2"
  "2 * of_be_bytes half_n < of_be_bytes curve_n"
  by (simp_all add: half_n_bytes curve_n_def of_be_bytes_def)

lemma is_high_s_value: "length s = 32 \<Longrightarrow> is_high_s s \<longleftrightarrow> of_be_bytes curve_n div 2 < of_be_bytes s"
  using greater_loop_value [of s half_n] half_n_value by (simp add: is_high_s_def)

lemma normalize_length: "length s = 32 \<Longrightarrow> length (snd (normalize_low_s r s)) = 32"
  using borrow_loop_value(2) [of "rev curve_n" "rev s" 0] by (simp add: normalize_low_s_def)

text \<open>A high scalar is replaced by its negative modulo the curve's order.\<close>

lemma normalize_high:
  assumes "length s = 32" and "is_high_s s" and "of_be_bytes s < of_be_bytes curve_n"
  shows "of_be_bytes (snd (normalize_low_s r s)) = of_be_bytes curve_n - of_be_bytes s"
proof -
  let ?out = "borrow_loop 0 (rev curve_n) (rev s)"
  obtain k :: int where k: "k \<in> {0, 1}" "int (of_le_bytes ?out) + int (of_be_bytes s) = int (of_be_bytes curve_n) + k * 256 ^ 32"
    using borrow_loop_value(1) [of "rev curve_n" "rev s" 0] assms(1) by (auto simp: of_be_bytes_def)
  have "of_le_bytes ?out < 256 ^ 32"
    using of_le_bytes_bound [of ?out] borrow_loop_value(2) [of "rev curve_n" "rev s" 0] assms(1) by simp
  then have "int (of_le_bytes ?out) < 256 ^ 32" by (metis of_nat_less_iff of_nat_numeral of_nat_power)
  then have "k = 0" using k assms(3) by auto
  then show ?thesis using k(2) assms(2) by (simp add: normalize_low_s_def of_be_bytes_def)
qed

lemma half_complement: "n div 2 < x \<Longrightarrow> n - x \<le> n div 2" for n x :: nat
  by linarith

lemma normalize_result:
  assumes "length s = 32" and "of_be_bytes s < of_be_bytes curve_n"
  shows "fst (normalize_low_s r s) = r" and "\<not> is_high_s (snd (normalize_low_s r s))"
    and "snd (normalize_low_s r s) = s \<and> \<not> is_high_s s \<or>
      is_high_s s \<and> of_be_bytes (snd (normalize_low_s r s)) = of_be_bytes curve_n - of_be_bytes s"
proof -
  show "fst (normalize_low_s r s) = r" by (simp add: normalize_low_s_def)
  show cases: "snd (normalize_low_s r s) = s \<and> \<not> is_high_s s \<or>
      is_high_s s \<and> of_be_bytes (snd (normalize_low_s r s)) = of_be_bytes curve_n - of_be_bytes s"
    using normalize_high [OF assms(1) _ assms(2)] by (cases "is_high_s s") (simp_all add: normalize_low_s_def)
  show "\<not> is_high_s (snd (normalize_low_s r s))"
    using cases
  proof
    assume "is_high_s s \<and> of_be_bytes (snd (normalize_low_s r s)) = of_be_bytes curve_n - of_be_bytes s"
    then have "of_be_bytes (snd (normalize_low_s r s)) \<le> of_be_bytes curve_n div 2"
      using is_high_s_value [OF assms(1)] half_complement by metis
    then show ?thesis using is_high_s_value [OF normalize_length [OF assms(1)]] by (metis not_less)
  qed simp
qed

lemma le_bytes_one: "le_bytes (Suc w) 1 = 1 # replicate w 0"
proof -
  have "le_bytes w 0 = replicate w 0" by (induction w) simp_all
  then show ?thesis by simp
qed

subsection \<open>What the Windows signers promise\<close>

text \<open>What the P-256 crate documents: scalars lie between 1 and the order, a signature is normalised exactly when
  its second scalar is in the upper half, and a signature with the negated scalar is as good.\<close>

definition curve_lawful :: "'x auth_lib_scheme \<Rightarrow> bool" where
  "curve_lawful A \<longleftrightarrow>
     (\<forall>r s. p256_scalars A r s \<longrightarrow> length s = 32 \<and> 0 < of_be_bytes s \<and> of_be_bytes s < of_be_bytes curve_n \<and>
        (p256_normalize A (r, s) = None \<longleftrightarrow> of_be_bytes s \<le> of_be_bytes curve_n div 2)) \<and>
     (\<forall>r s s'. p256_scalars A r s \<longrightarrow> length s' = 32 \<longrightarrow> of_be_bytes s' = of_be_bytes curve_n - of_be_bytes s \<longrightarrow>
        p256_scalars A r s' \<and> (\<forall>pk d. p256_verify A pk d (r, s) \<longrightarrow> p256_verify A pk d (r, s')))"

lemma curve_lawfulD:
  assumes "curve_lawful A" and "p256_scalars A r s"
  shows "length s = 32" "of_be_bytes s < of_be_bytes curve_n"
    "p256_normalize A (r, s) = None \<longleftrightarrow> of_be_bytes s \<le> of_be_bytes curve_n div 2"
    "length s' = 32 \<Longrightarrow> of_be_bytes s' = of_be_bytes curve_n - of_be_bytes s \<Longrightarrow> p256_scalars A r s'"
    "length s' = 32 \<Longrightarrow> of_be_bytes s' = of_be_bytes curve_n - of_be_bytes s \<Longrightarrow> p256_verify A pk d (r, s) \<Longrightarrow> p256_verify A pk d (r, s')"
  using assms unfolding curve_lawful_def by blast+

lemma normalized_verifies:
  assumes "curve_lawful A" and "p256_scalars A r s" and "p256_verify A (to_sec1 key) d (r, s)" and "p256_point A (to_sec1 key)"
  shows "verify_p256 A key d r (snd (normalize_low_s r s)) = Inr ()"
proof -
  let ?s = "snd (normalize_low_s r s)"
  have s: "length s = 32" "of_be_bytes s < of_be_bytes curve_n" using curve_lawfulD [OF assms(1,2)] by blast+
  have l: "length ?s = 32" using normalize_length [OF s(1)] .
  have ok: "p256_scalars A r ?s \<and> p256_verify A (to_sec1 key) d (r, ?s)"
    using normalize_result(3) [OF s, of r]
  proof
    assume "snd (normalize_low_s r s) = s \<and> \<not> is_high_s s"
    then show ?thesis using assms(2,3) by simp
  next
    assume "is_high_s s \<and> of_be_bytes ?s = of_be_bytes curve_n - of_be_bytes s"
    then show ?thesis using curve_lawfulD(4,5) [OF assms(1,2) l] assms(3) by blast
  qed
  have "p256_normalize A (r, ?s) = None"
    using curve_lawfulD(3) [OF assms(1), of r ?s] ok normalize_result(2) [OF s, of r] is_high_s_value [OF l] by (metis not_less)
  then show ?thesis using ok assms(4) by (simp add: verify_p256_def)
qed

text \<open>A key is ready for a digest when its public key is the registered one and what CNG signs with its secret is
  a signature under that key.\<close>

definition windows_key_ready :: "'x auth_lib_scheme \<Rightarrow> cng_world \<Rightarrow> windows_device_key \<Rightarrow> p256_key \<Rightarrow> bytes \<Rightarrow> bool" where
  "windows_key_ready A w k key d \<longleftrightarrow>
     curve_lawful A \<and> p256_point A (to_sec1 key) \<and> wk_public k = key \<and>
     (\<forall>sig. cg_sign w (ck_secret (wk_key k)) d = Inr sig \<and> length sig = 64 \<longrightarrow>
        p256_scalars A (take 32 sig) (drop 32 sig) \<and> p256_verify A (to_sec1 key) d (take 32 sig, drop 32 sig))"

lemma windows_key_sign_Inr:
  assumes "windows_key_sign A w k c f = (Inr a, k')"
  obtains sig where "cg_sign w (ck_secret (wk_key k)) (ch_digest c) = Inr sig" "length sig = 64" "k' = k"
    "a = AsP256Raw (p256_key_id A (wk_public k)) (take 32 sig) (snd (normalize_low_s (take 32 sig) (drop 32 sig)))"
    "f = OsUserVerification \<Longrightarrow> wk_require_os_confirm k"
  using assms
  by (auto simp: windows_key_sign_def normalize_low_s_def Let_def split: if_splits sum.splits)

interpretation windows_key: checked_provider DeviceKey wk_require_os_confirm "windows_key_sign A w"
  "windows_key_ready A w" "verify_assertion A" for A w
proof unfold_locales
  fix s c f a s' v
  show "assertion_kind a = DeviceKey" if "windows_key_sign A w s c f = (Inr a, s')"
    using that by (rule windows_key_sign_Inr) simp
  show "wk_require_os_confirm s" if "windows_key_sign A w s c OsUserVerification = (Inr a, s')"
    using that by (rule windows_key_sign_Inr) simp
  show "verify_assertion A v (ch_digest c) a = Inr ()"
    if "windows_key_ready A w s v (ch_digest c)" "windows_key_sign A w s c f = (Inr a, s')"
    using that(2)
  proof (rule windows_key_sign_Inr)
    fix sig
    assume sig: "cg_sign w (ck_secret (wk_key s)) (ch_digest c) = Inr sig" "length sig = 64"
      and a: "a = AsP256Raw (p256_key_id A (wk_public s)) (take 32 sig) (snd (normalize_low_s (take 32 sig) (drop 32 sig)))"
    have "verify_p256 A v (ch_digest c) (take 32 sig) (snd (normalize_low_s (take 32 sig) (drop 32 sig))) = Inr ()"
      using normalized_verifies that(1) sig by (auto simp: windows_key_ready_def)
    then show ?thesis using a that(1) by (simp add: windows_key_ready_def)
  qed
qed

text \<open>A passkey is ready when Windows verified the person, as the request demands, and signed the data it returns.\<close>

definition windows_passkey_ready ::
  "'x auth_lib_scheme \<Rightarrow> windows_lib \<Rightarrow> hello_world \<Rightarrow> windows_passkey \<Rightarrow> p256_key \<Rightarrow> bytes \<Rightarrow> bool" where
  "windows_passkey_ready A W w k key d \<longleftrightarrow>
     p256_lawful A \<and> client_json_lawful A (wp_origin k) \<and> p256_point A (to_sec1 key) \<and>
     (\<forall>ad der. hl_assert w (wp_rp_id k) (wp_credential k) (client_data A d (wp_origin k)) = Inr (Some (ad, der)) \<longrightarrow>
        (\<exists>p. authenticator_parse ad = Inr p \<and> flag_up (ad_flags p) \<and> flag_uv (ad_flags p)) \<and>
        (\<forall>r s. wl_from_der W der = Some (r, s) \<longrightarrow> p256_scalars A r s \<and>
           p256_verify A (to_sec1 key) (webauthn_signed_digest A ad (client_data A d (wp_origin k))) (r, s)))"

lemma client_data_same: "client_data A d org = client_data_json A org d"
  by (simp add: client_data_def client_data_json_def)

lemma windows_passkey_sign_Inr:
  assumes "windows_passkey_sign A W w k c f = (Inr a, k')"
  obtains ad der r s r' s' where "k' = k"
    "hl_assert w (wp_rp_id k) (wp_credential k) (client_data A (ch_digest c) (wp_origin k)) = Inr (Some (ad, der))"
    "wl_from_der W der = Some (r, s)" "(r', s') = (case p256_normalize A (r, s) of Some sig \<Rightarrow> sig | None \<Rightarrow> (r, s))"
    "a = AsWebAuthn ad (client_data A (ch_digest c) (wp_origin k)) r' s'"
proof -
  let ?cd = "client_data A (ch_digest c) (wp_origin k)"
  obtain ad der where h: "hl_assert w (wp_rp_id k) (wp_credential k) ?cd = Inr (Some (ad, der))"
    using assms by (auto simp: windows_passkey_sign_def Let_def split: sum.splits option.splits)
  then have eq: "windows_passkey_sign A W w k c f = (rbind (der_to_low_s A W der) (\<lambda>sig. Inr (AsWebAuthn ad ?cd (fst sig) (snd sig))), k)"
    by (simp add: windows_passkey_sign_def Let_def case_prod_unfold)
  obtain sig where d: "der_to_low_s A W der = Inr sig" using assms eq by (cases "der_to_low_s A W der") simp_all
  then have a: "a = AsWebAuthn ad ?cd (fst sig) (snd sig)" and k: "k' = k" using assms eq by auto
  from d obtain r s where r: "wl_from_der W der = Some (r, s)" "sig = (case p256_normalize A (r, s) of Some sig' \<Rightarrow> sig' | None \<Rightarrow> (r, s))"
    by (auto simp: der_to_low_s_def rbind_eq_Inr ok_or_eq_Inr)
  show thesis using that [OF k h r(1), of "fst sig" "snd sig"] r(2) a by simp
qed

lemma crate_normalized_verifies:
  assumes "p256_lawful A" and "p256_point A (to_sec1 key)" and "p256_scalars A r s" and "p256_verify A (to_sec1 key) d (r, s)"
    and "(r', s') = (case p256_normalize A (r, s) of Some sig \<Rightarrow> sig | None \<Rightarrow> (r, s))"
  shows "verify_p256 A key d r' s' = Inr ()"
proof (cases "p256_normalize A (r, s)")
  case (Some sig)
  then have "p256_normalize A (r, s) = Some (r', s')" using assms(5) by simp
  then have "p256_scalars A r' s'" "p256_normalize A (r', s') = None" "p256_verify A (to_sec1 key) d (r', s')"
    using assms(1,3,4) unfolding p256_lawful_def by blast+
  then show ?thesis using assms(2) by (simp add: verify_p256_def)
qed (use assms in \<open>simp add: verify_p256_def\<close>)

interpretation windows_hello: checked_provider PlatformPasskey "\<lambda>_. True" "windows_passkey_sign A W w"
  "windows_passkey_ready A W w" "verify_assertion A" for A W w
proof unfold_locales
  fix s c f a s' v
  show "assertion_kind a = PlatformPasskey" if "windows_passkey_sign A W w s c f = (Inr a, s')"
    using that by (rule windows_passkey_sign_Inr) simp
  show "verify_assertion A v (ch_digest c) a = Inr ()"
    if r: "windows_passkey_ready A W w s v (ch_digest c)" and "windows_passkey_sign A W w s c f = (Inr a, s')"
    using that(2)
  proof (rule windows_passkey_sign_Inr)
    fix ad der ra sa ra' sa'
    let ?cd = "client_data A (ch_digest c) (wp_origin s)"
    assume h: "hl_assert w (wp_rp_id s) (wp_credential s) ?cd = Inr (Some (ad, der))"
      and d: "wl_from_der W der = Some (ra, sa)" "(ra', sa') = (case p256_normalize A (ra, sa) of Some sig \<Rightarrow> sig | None \<Rightarrow> (ra, sa))"
      and a: "a = AsWebAuthn ad ?cd ra' sa'"
    have "verify_p256 A v (webauthn_signed_digest A ad ?cd) ra' sa' = Inr ()"
      using crate_normalized_verifies [OF _ _ _ _ d(2)] r h d(1) by (auto simp: windows_passkey_ready_def)
    moreover have "client_data_challenge A ?cd = Inr (ch_digest c)"
      using r by (auto simp: windows_passkey_ready_def client_json_lawful_def client_data_challenge_def client_data_same)
    ultimately show ?thesis using r h a by (auto simp: windows_passkey_ready_def)
  qed
qed simp

subsection \<open>The factory\<close>

text \<open>A machine whose stores answer for the keys they hold.\<close>

definition steady :: "cng_world \<Rightarrow> cng_world" where
  "steady w = w\<lparr>cg_open_fails := False\<rparr>"

lemma steady_opens [simp]: "cg_open_fails (steady w) = False"
  by (simp add: steady_def)

lemma device_key_name_text: "utf8_valid DEVICE_KEY_NAME" "DEVICE_KEY_NAME \<noteq> []"
  by code_simp+

lemma create_key_Inr:
  "create_key w p name confirm st = (Inr k, st') \<Longrightarrow> st' (p, name) = Some k \<and> ck_ui_policy k = confirm"
  by (auto simp: create_key_def Let_def split: option.splits if_splits)

text \<open>Opening again finds the key: nothing is created and the answer is the same.\<close>

lemma open_or_create_again:
  assumes "open_or_create W (steady w) name confirm fallback st = (Inr k, st')"
  shows "open_or_create W (steady w) name confirm fallback st' = (Inr k, st')"
proof -
  let ?w = "steady w"
  obtain p tpm where p: "(case open_provider ?w PlatformProvider of Inr p \<Rightarrow> Inr (p, True)
      | Inl e \<Rightarrow> if fallback then rbind (open_provider ?w SoftwareProvider) (\<lambda>p. Inr (p, False)) else Inl e) = Inr (p, tpm)"
    using assms by (auto simp: open_or_create_def split: sum.splits)
  let ?open = "\<lambda>st. case st (p, name) of Some k \<Rightarrow> (Inr k, st) | None \<Rightarrow> create_key ?w p name confirm st"
  have eq: "open_or_create W ?w name confirm fallback st = (let (r, st1) = ?open st in
      (rbind r (\<lambda>k. rbind (export_public W ?w k) (\<lambda>public.
        Inr \<lparr>wk_provider = p, wk_key = k, wk_public = public, wk_require_os_confirm = confirm, wk_tpm_backed = tpm, wk_name = name\<rparr>)), st1))"
    for st
    by (simp add: open_or_create_def p split: option.split)
  obtain r st1 where o: "?open st = (r, st1)" by fastforce
  then obtain k0 where k0: "r = Inr k0" "st1 = st'" using assms unfolding eq by (cases r) (auto simp: Let_def)
  have "st' (p, name) = Some k0" using o k0 create_key_Inr by (auto split: option.splits)
  then have "?open st' = ?open st" using o k0 by simp
  then show ?thesis using assms unfolding eq by simp
qed

interpretation windows: device_factory "windows_capabilities api kc" "windows_create A W (steady w) hw challenge user_id f"
  "windows_reopen A W (steady w) f" for api kc A W w hw challenge user_id f
proof unfold_locales
  fix style b st c st' and p :: device_profile
  assume c: "windows_create A W (steady w) hw challenge user_id f style b st = (Inr c, st')"
    and p: "dp_style p = style" "dp_require_os_confirm p = b"
      "dp_credential p = (case cs_credential c of Some cr \<Rightarrow> cr | None \<Rightarrow> [])" "dp_public_key p = si_public_key (cs_provider c)"
  show "windows_reopen A W (steady w) f p st' = (Inr (cs_provider c), st')"
  proof (cases style)
    case Biometric
    then show ?thesis
      using c p by (auto simp: windows_create_def windows_reopen_def windows_passkey_info_def passkey_from_stored_def rbind_eq_Inr)
  next
    case ThisDevice
    then obtain key where k: "open_or_create W (steady w) DEVICE_KEY_NAME b (wf_fallback f) st = (Inr key, st')"
      and cs: "cs_provider c = windows_key_info A key" "cs_credential c = Some DEVICE_KEY_NAME"
      using c by (auto simp: windows_create_def split: sum.splits prod.splits)
    then show ?thesis
      using open_or_create_again [OF k] ThisDevice p device_key_name_text by (simp add: windows_reopen_def)
  qed
qed

subsection \<open>A sample machine\<close>

text \<open>A library whose scalars are the numbers between 0 and the order and in which every signature verifies.\<close>

definition sample_curve :: auth_lib where
  "sample_curve = sample_auth
     \<lparr>p256_scalars := (\<lambda>r s. length s = 32 \<and> 0 < of_be_bytes s \<and> of_be_bytes s < of_be_bytes curve_n),
      p256_normalize := (\<lambda>(r, s). if of_be_bytes curve_n div 2 < of_be_bytes s then Some (normalize_low_s r s) else None)\<rparr>"

lemma sample_curve_lawful: "curve_lawful sample_curve"
  by (auto simp: curve_lawful_def sample_curve_def sample_auth_sel)

definition sample_cng :: cng_world where
  "sample_cng =
     \<lparr>cg_provider = (\<lambda>_. True), cg_open_fails = False, cg_create = Some [9], cg_set_policy = True, cg_finalize = True,
      cg_export_size = True, cg_export = (\<lambda>_. Some ([1, 0, 0, 0, 32, 0, 0, 0] @ replicate 64 1)), cg_sign_size = True,
      cg_sign = (\<lambda>_ _. Inr (replicate 32 1 @ butlast curve_n @ [0x50])), cg_delete = True\<rparr>"

definition sample_windows :: windows_lib where
  "sample_windows = \<lparr>wl_from_der = (\<lambda>_. None), wl_cbor = (\<lambda>_. None), wl_p256_magic = 1\<rparr>"

definition sample_hello :: hello_world where
  "sample_hello = \<lparr>hl_make = (\<lambda>_ _ _ _ _. Inr None), hl_assert = (\<lambda>_ _ _. Inr None)\<rparr>"

definition sample_point :: p256_key where
  "sample_point = \<lparr>px = replicate 32 1, py = replicate 32 1\<rparr>"

definition sample_cng_key :: "bool \<Rightarrow> windows_device_key" where
  "sample_cng_key confirm =
     \<lparr>wk_provider = PlatformProvider, wk_key = \<lparr>ck_secret = [9], ck_ui_policy = confirm\<rparr>, wk_public = sample_point,
      wk_require_os_confirm = confirm, wk_tpm_backed = True, wk_name = DEVICE_KEY_NAME\<rparr>"

definition sample_windows_profile :: device_profile where
  "sample_windows_profile =
     sample_profile\<lparr>dp_key_id := replicate 32 3, dp_public_key := Some sample_point, dp_credential := DEVICE_KEY_NAME,
       dp_hardware_backed := True\<rparr>"

definition sample_windows_codec :: profile_codec where
  "sample_windows_codec =
     \<lparr>pc_to = (\<lambda>p. if p = sample_windows_profile then Inr [0] else Inl []),
      pc_from = (\<lambda>bs. if bs = [0] then Inr sample_windows_profile else Inl [])\<rparr>"

lemma sample_windows_codec_lawful: "profile_lawful sample_windows_codec"
  by (simp add: profile_lawful_def sample_windows_codec_def)

lemma sample_opened:
  "open_or_create sample_windows (steady sample_cng) DEVICE_KEY_NAME confirm fb Map.empty =
     (Inr (sample_cng_key confirm), [(PlatformProvider, DEVICE_KEY_NAME) \<mapsto> wk_key (sample_cng_key confirm)])"
  by (simp add: open_or_create_def open_provider_def create_key_def export_public_def public_from_blob_def steady_def
      sample_cng_def sample_windows_def sample_cng_key_def sample_point_def Let_def)

section \<open>Properties\<close>

text \<open>C36. The signatures Windows makes are folded into the lower half of the curve's order: the byte loops of
  \<open>normalize_low_s\<close> leave the first scalar and a low second scalar alone and replace a high one by
  the order minus it; the result is never high and folding it again changes nothing.\<close>

theorem low_s_folded:
  assumes "length s = 32" and "0 < of_be_bytes s" and "of_be_bytes s < of_be_bytes curve_n"
  shows "\<exists>s'. normalize_low_s r s = (r, s') \<and> length s' = 32 \<and> 0 < of_be_bytes s' \<and> 2 * of_be_bytes s' < of_be_bytes curve_n \<and>
    of_be_bytes s' = (if 2 * of_be_bytes s < of_be_bytes curve_n then of_be_bytes s else of_be_bytes curve_n - of_be_bytes s) \<and>
    normalize_low_s r s' = (r, s')"
proof -
  let ?n = "of_be_bytes curve_n" and ?s = "snd (normalize_low_s r s)"
  have l: "length ?s = 32" using normalize_length [OF assms(1)] .
  have half: "2 * (?n div 2) < ?n" using half_n_value(2,3) by simp
  have low: "\<not> is_high_s x \<longleftrightarrow> 2 * of_be_bytes x < ?n" if "length x = 32" for x
    using is_high_s_value [OF that] half by linarith
  have "normalize_low_s r s = (r, ?s)" using normalize_result(1) [OF assms(1,3), of r] by (metis prod.collapse)
  moreover have "normalize_low_s r ?s = (r, ?s)" using normalize_result(2) [OF assms(1,3), of r] by (simp add: normalize_low_s_def)
  moreover have "of_be_bytes ?s = (if 2 * of_be_bytes s < ?n then of_be_bytes s else ?n - of_be_bytes s)"
    using normalize_result(3) [OF assms(1,3), of r] low [OF assms(1)] by (auto split: if_splits)
  moreover have "2 * of_be_bytes ?s < ?n" using normalize_result(2) [OF assms(1,3), of r] low [OF l] by simp
  ultimately show ?thesis using l assms(2,3) by (intro exI [of _ ?s]) (simp split: if_splits)
qed

theorem low_s_folded_witness:
  "normalize_low_s [] (butlast curve_n @ [0x50]) = ([], replicate 31 0 @ [1])"
proof -
  have n: "of_be_bytes (butlast curve_n @ [0x50]) = of_be_bytes curve_n - 1" "of_be_bytes curve_n > 2"
    by (simp_all add: curve_n_def of_be_bytes_def)
  obtain s' where s': "normalize_low_s [] (butlast curve_n @ [0x50]) = ([], s')" "length s' = 32" "of_be_bytes s' = 1"
    using low_s_folded [of "butlast curve_n @ [0x50]" "[]"] n by (auto split: if_splits)
  have "le_bytes 32 1 = 1 # replicate 31 0" using le_bytes_one [of 31] by simp
  moreover have "le_bytes 32 1 = rev s'" using le_bytes_of_le_bytes [of "rev s'"] s'(2,3) by (simp add: of_be_bytes_def)
  ultimately have "s' = rev (1 # replicate 31 0)" by (metis rev_rev_ident)
  then show ?thesis using s'(1) by simp
qed



text \<open>Every approval a Windows signer gives is accepted for the same digest with the registered key, whether or not
  CNG returned a low signature.\<close>

theorem windows_approvals_verify:
  shows "(windows_key_ready A w k key (ch_digest c) \<and> fst (windows_key_sign A w k c f) = Inr a \<longrightarrow>
      verify_assertion A key (ch_digest c) a = Inr () \<and> assertion_kind a = DeviceKey) \<and>
    (windows_passkey_ready A W hw p key (ch_digest c) \<and> fst (windows_passkey_sign A W hw p c f) = Inr a \<longrightarrow>
      verify_assertion A key (ch_digest c) a = Inr () \<and> assertion_kind a = PlatformPasskey)"
  using windows_key.approval_accepted [of A w k key c f a] windows_hello.approval_accepted [of A W hw p key c f a] by blast

theorem windows_approvals_verify_witness:
  "\<exists>a. fst (windows_key_sign sample_curve sample_cng (sample_cng_key False)
        \<lparr>ch_digest = [65], ch_context = \<lparr>ac_permission = ReadOnly, ac_file_id = []\<rparr>\<rparr> NotRequired) = Inr a \<and>
     verify_assertion sample_curve sample_point [65] a = Inr ()"
proof -
  let ?c = "\<lparr>ch_digest = [65], ch_context = \<lparr>ac_permission = ReadOnly, ac_file_id = []\<rparr>\<rparr>"
  let ?s = "butlast curve_n @ [0x50]"
  have n: "of_be_bytes ?s = of_be_bytes curve_n - 1" "of_be_bytes curve_n > 2" by (simp_all add: curve_n_def of_be_bytes_def)
  have "windows_key_ready sample_curve sample_cng (sample_cng_key False) sample_point (ch_digest ?c)"
    using n sample_curve_lawful
    by (simp add: windows_key_ready_def sample_cng_def sample_cng_key_def sample_curve_def sample_auth_sel)
  moreover obtain a where "fst (windows_key_sign sample_curve sample_cng (sample_cng_key False) ?c NotRequired) = Inr a"
    by (cases "normalize_low_s (replicate 32 1) ?s") (simp add: windows_key_sign_def sample_cng_def sample_cng_key_def)
  ultimately show ?thesis
    using windows_approvals_verify [of sample_curve sample_cng "sample_cng_key False" sample_point ?c NotRequired a] by auto
qed

text \<open>A key that exists is opened as it is: asked for with confirmation, it claims to confirm although Windows was never
  told to ask the person.\<close>

theorem existing_key_claims_confirmation:
  assumes "st (PlatformProvider, name) = Some k" and "\<not> ck_ui_policy k" and "cg_provider w PlatformProvider" and "\<not> cg_open_fails w"
    and "export_public W w k = Inr public"
  shows "\<exists>key. open_or_create W w name True fallback st = (Inr key, st) \<and> wk_require_os_confirm key \<and> \<not> ck_ui_policy (wk_key key)"
  using assms by (simp add: open_or_create_def open_provider_def)

text \<open>Where the platform's key store does not open for once, reopening the signer of a device does not fail: it makes
  a second key under the same name in the software store.\<close>

theorem reopening_makes_second_key:
  assumes "\<not> cg_provider w PlatformProvider" and "cg_provider w SoftwareProvider" and "wf_fallback f" and "dp_style p = ThisDevice"
    and "dp_credential p = DEVICE_KEY_NAME" and "st (SoftwareProvider, DEVICE_KEY_NAME) = None" and "cg_create w = Some sec"
    and "cg_set_policy w" and "cg_finalize w" and "export_public W w \<lparr>ck_secret = sec, ck_ui_policy = dp_require_os_confirm p\<rparr> = Inr public"
  shows "windows_reopen A W w f p st =
    (Inr \<lparr>si_kind = DeviceKey, si_key_id = p256_key_id A public, si_public_key = Some public\<rparr>,
     st((SoftwareProvider, DEVICE_KEY_NAME) \<mapsto> \<lparr>ck_secret = sec, ck_ui_policy = dp_require_os_confirm p\<rparr>))"
  using assms device_key_name_text
  by (simp add: windows_reopen_def open_or_create_def open_provider_def create_key_def windows_key_info_def Let_def)

end
