(* ===== verification/Chain_Writers.thy ===== *)
theory Chain_Writers
  imports Agent_Chain
begin

text \<open>
  The single writes of the chain client and of the two writers, the JSON-RPC bundler and the list of
  bundlers (\<open>client.rs\<close>, \<open>writer.rs\<close>, \<open>bundler.rs\<close> of \<open>crates/zbacs-chain\<close>), and what the agent adds to them
  (\<open>chain.rs\<close>: the stub signature, the loop that merges events). A node answers to calldata sent to
  an address; the JSON-RPC transport is a record of its typed answers. Shown: every path that writes -
  a plain transaction, a user operation of one call, a batch of one - puts the same call to the same
  contract.
\<close>

subsection \<open>client.rs: connecting\<close>

definition deployment_from_file ::
  "(string \<Rightarrow> string + deployment) \<Rightarrow> string \<Rightarrow> string + string \<Rightarrow> chain_error + deployment" where
  "deployment_from_file parse path content =
     (case content of
        Inl e \<Rightarrow> Inl (ChConfig (path @ '': '' @ e))
      | Inr text \<Rightarrow>
          map_err (\<lambda>e. case e of ChConfig why \<Rightarrow> ChConfig (path @ '': '' @ why) | other \<Rightarrow> other) (deployment_from_json parse text))"

type_synonym chain_node = "address \<Rightarrow> bytes \<Rightarrow> tx_answer"

record chain_client =
  cl_provider :: chain_node
  cl_deployment :: deployment
  cl_cache :: cache

definition with_provider :: "chain_node \<Rightarrow> deployment \<Rightarrow> chain_client" where
  "with_provider provider d = \<lparr>cl_provider = provider, cl_deployment = d, cl_cache = cache_new\<rparr>"

definition client_connect :: "string + chain_node \<Rightarrow> string \<Rightarrow> deployment \<Rightarrow> chain_error + chain_client" where
  "client_connect connected url d =
     (case connected of
        Inl e \<Rightarrow> Inl (ChConfig (''connect '' @ url @ '': '' @ e))
      | Inr provider \<Rightarrow> Inr \<lparr>cl_provider = provider, cl_deployment = d, cl_cache = cache_new\<rparr>)"

definition client_block_number :: "string + u64 \<Rightarrow> chain_error + u64" where
  "client_block_number ans = map_err ChUnreachable ans"

subsection \<open>client.rs: the writes\<close>

definition client_register :: "'x chain_lib_scheme \<Rightarrow> chain_client \<Rightarrow> bytes \<Rightarrow> bytes \<Rightarrow> chain_error + bytes" where
  "client_register A c fid hh = client_send (cl_provider c (dep_registry (cl_deployment c)) (calls_register A fid hh))"

definition client_bump :: "'x chain_lib_scheme \<Rightarrow> nat \<Rightarrow> chain_client \<Rightarrow> bytes \<Rightarrow> bytes \<Rightarrow> (chain_error + bytes) \<times> chain_client" where
  "client_bump A now c fid hh =
     (case client_bump_version (cl_provider c (dep_registry (cl_deployment c)) (calls_bump_version A fid hh)) fid hh now (cl_cache c) of
        (r, cache) \<Rightarrow> (r, c\<lparr>cl_cache := cache\<rparr>))"

definition client_retire :: "'x chain_lib_scheme \<Rightarrow> chain_client \<Rightarrow> bytes \<Rightarrow> chain_error + bytes" where
  "client_retire A c fid =
     client_send (cl_provider c (dep_registry (cl_deployment c)) (calldata A ''retire(bytes32)'' (abi_params A [AWord fid])))"

definition client_grant :: "'x chain_lib_scheme \<Rightarrow> chain_client \<Rightarrow> grant_args \<Rightarrow> bytes \<Rightarrow> chain_error + bytes" where
  "client_grant A c g owner_sig = client_send (cl_provider c (dep_policy (cl_deployment c)) (calls_grant A g owner_sig))"

definition client_revoke_grant :: "'x chain_lib_scheme \<Rightarrow> nat \<Rightarrow> chain_client \<Rightarrow> bytes \<Rightarrow> (chain_error + bytes) \<times> chain_client" where
  "client_revoke_grant A now c gid =
     (case client_revoke (cl_provider c (dep_policy (cl_deployment c)) (calls_revoke A gid)) gid now (cl_cache c) of
        (r, cache) \<Rightarrow> (r, c\<lparr>cl_cache := cache\<rparr>))"

definition client_audit :: "'x chain_lib_scheme \<Rightarrow> chain_client \<Rightarrow> bytes \<Rightarrow> u8 \<Rightarrow> bytes \<Rightarrow> bytes \<Rightarrow> chain_error + bytes" where
  "client_audit A c fid k actor detail =
     client_send (cl_provider c (dep_audit (cl_deployment c)) (calls_audit_log A fid k actor detail))"

subsection \<open>writer.rs: the direct writer\<close>

record direct_writer =
  dw_client :: chain_client
  dw_owner :: address

fun trim_start_0x :: "string \<Rightarrow> string" where
  "trim_start_0x (a # b # cs) = (if [a, b] = ''0x'' then trim_start_0x cs else a # b # cs)"
| "trim_start_0x s = s"

text \<open>The key parses to its address; connecting with it is the other argument.\<close>

definition direct_connect ::
  "(string \<Rightarrow> address option) \<Rightarrow> string + chain_node \<Rightarrow> string \<Rightarrow> deployment \<Rightarrow> string \<Rightarrow> chain_error + direct_writer" where
  "direct_connect parse connected url d key_hex =
     (case parse (trim_start_0x (trim key_hex)) of
        None \<Rightarrow> Inl (ChConfig ''the chain key is not a 32-byte hex private key'')
      | Some owner \<Rightarrow>
          rbind (client_connect connected url d) (\<lambda>c. Inr \<lparr>dw_client = c, dw_owner = owner\<rparr>))"

definition direct_write ::
  "'x chain_lib_scheme \<Rightarrow> nat \<Rightarrow> chain_call \<Rightarrow> direct_writer \<Rightarrow> (chain_error + bytes) \<times> direct_writer" where
  "direct_write A now call w =
     (case call of
        CRegister fid hh \<Rightarrow> (client_register A (dw_client w) fid hh, w)
      | CBumpVersion fid hh \<Rightarrow> (case client_bump A now (dw_client w) fid hh of (r, c) \<Rightarrow> (r, w\<lparr>dw_client := c\<rparr>))
      | CGrant g \<Rightarrow> (client_grant A (dw_client w) g [], w)
      | CRevoke fid gid \<Rightarrow> (case client_revoke_grant A now (dw_client w) gid of (r, c) \<Rightarrow> (r, w\<lparr>dw_client := c\<rparr>)))"

fun direct_writes ::
  "'x chain_lib_scheme \<Rightarrow> nat \<Rightarrow> bytes \<Rightarrow> chain_call list \<Rightarrow> direct_writer \<Rightarrow> (chain_error + bytes) \<times> direct_writer" where
  "direct_writes A now lst [] w = (Inr lst, w)"
| "direct_writes A now lst (call # calls) w =
     (case direct_write A now call w of
        (Inl e, w') \<Rightarrow> (Inl e, w')
      | (Inr h, w') \<Rightarrow> direct_writes A now h calls w')"

subsection \<open>writer.rs: the smart account's single writes\<close>

definition is_deployed :: "smart_env \<Rightarrow> chain_error + bool" where
  "is_deployed v = rbind (map_err ChUnreachable (sv_code v)) (\<lambda>code. Inr (code \<noteq> []))"

definition smart_send ::
  "'x chain_lib_scheme \<Rightarrow> kernel_account \<Rightarrow> u64 \<Rightarrow> smart_env \<Rightarrow> address \<Rightarrow> bytes \<Rightarrow> chain_write \<Rightarrow>
     ((chain_error + bytes) \<times> rpc_op option) option" where
  "smart_send A k chain_id v target data about = send_call_data A k chain_id v (execute_call A target data) about"

definition smart_register ::
  "'x chain_lib_scheme \<Rightarrow> kernel_account \<Rightarrow> deployment \<Rightarrow> u64 \<Rightarrow> smart_env \<Rightarrow> bytes \<Rightarrow> bytes \<Rightarrow>
     ((chain_error + bytes) \<times> rpc_op option) option" where
  "smart_register A k d chain_id v fid hh =
     smart_send A k chain_id v (dep_registry d) (calls_register A fid hh) (WRegister fid)"

definition smart_bump_version ::
  "'x chain_lib_scheme \<Rightarrow> kernel_account \<Rightarrow> deployment \<Rightarrow> u64 \<Rightarrow> smart_env \<Rightarrow> bytes \<Rightarrow> bytes \<Rightarrow>
     ((chain_error + bytes) \<times> rpc_op option) option" where
  "smart_bump_version A k d chain_id v fid hh =
     smart_send A k chain_id v (dep_registry d) (calls_bump_version A fid hh) (WBumpVersion fid)"

definition smart_grant ::
  "'x chain_lib_scheme \<Rightarrow> kernel_account \<Rightarrow> deployment \<Rightarrow> u64 \<Rightarrow> smart_env \<Rightarrow> grant_args \<Rightarrow>
     ((chain_error + bytes) \<times> rpc_op option) option" where
  "smart_grant A k d chain_id v g =
     smart_send A k chain_id v (dep_policy d) (calls_grant A g []) (WGrant (ga_file_id g) (ga_permission g))"

definition smart_revoke ::
  "'x chain_lib_scheme \<Rightarrow> kernel_account \<Rightarrow> deployment \<Rightarrow> u64 \<Rightarrow> smart_env \<Rightarrow> bytes \<Rightarrow> bytes \<Rightarrow>
     ((chain_error + bytes) \<times> rpc_op option) option" where
  "smart_revoke A k d chain_id v fid gid =
     smart_send A k chain_id v (dep_policy d) (calls_revoke A gid) (WRevoke fid)"

subsection \<open>bundler.rs: JSON-RPC\<close>

datatype rpc_param = ParOp rpc_op | ParEntryPoint address | ParContext string | ParHash bytes

datatype 'a rpc_reply = RpcErrorResponse string | RpcNoAnswer string | RpcResult 'a

record json_rpc =
  jr_gas_price :: "string \<Rightarrow> rpc_param list \<Rightarrow> (nat \<times> nat) rpc_reply"
  jr_estimate :: "string \<Rightarrow> rpc_param list \<Rightarrow> gas_estimate rpc_reply"
  jr_sponsor :: "string \<Rightarrow> rpc_param list \<Rightarrow> sponsorship rpc_reply"
  jr_send :: "string \<Rightarrow> rpc_param list \<Rightarrow> bytes rpc_reply"
  jr_receipt :: "string \<Rightarrow> rpc_param list \<Rightarrow> op_receipt option rpc_reply"

definition rpc :: "(string \<Rightarrow> rpc_param list \<Rightarrow> 'a rpc_reply) \<Rightarrow> string \<Rightarrow> rpc_param list \<Rightarrow> chain_error + 'a" where
  "rpc transport method params =
     (case transport method params of
        RpcErrorResponse text \<Rightarrow> Inl (ChRejected (method @ '': '' @ text))
      | RpcNoAnswer text \<Rightarrow> Inl (ChUnreachable (method @ '': '' @ text))
      | RpcResult x \<Rightarrow> Inr x)"

record json_rpc_bundler =
  jb_provider :: json_rpc
  jb_with_paymaster :: bool
  jb_context :: "string option"

definition json_bundler_new :: "(string \<Rightarrow> string + json_rpc) \<Rightarrow> string \<Rightarrow> bool \<Rightarrow> chain_error + json_rpc_bundler" where
  "json_bundler_new parse url with_paymaster =
     rbind (map_err (\<lambda>e. ChConfig (''bundler url: '' @ e)) (parse url)) (\<lambda>provider.
       Inr \<lparr>jb_provider = provider, jb_with_paymaster = with_paymaster, jb_context = None\<rparr>)"

definition with_sponsor_context :: "string \<Rightarrow> json_rpc_bundler \<Rightarrow> json_rpc_bundler" where
  "with_sponsor_context ctx b = b\<lparr>jb_context := Some ctx\<rparr>"

definition json_bundler :: "json_rpc_bundler \<Rightarrow> bundler" where
  "json_bundler b =
     \<lparr>bu_gas_price = rpc (jr_gas_price (jb_provider b)) ''pimlico_getUserOperationGasPrice'' [],
      bu_estimate = (\<lambda>op. rpc (jr_estimate (jb_provider b)) ''eth_estimateUserOperationGas'' [ParOp op, ParEntryPoint ENTRY_POINT_V07]),
      bu_sponsor = (\<lambda>op.
        if \<not> jb_with_paymaster b then Inr None
        else rbind (rpc (jr_sponsor (jb_provider b)) ''pm_sponsorUserOperation''
                 (case jb_context b of
                    Some ctx \<Rightarrow> [ParOp op, ParEntryPoint ENTRY_POINT_V07, ParContext ctx]
                  | None \<Rightarrow> [ParOp op, ParEntryPoint ENTRY_POINT_V07])) (\<lambda>s. Inr (Some s))),
      bu_send = (\<lambda>op. rpc (jr_send (jb_provider b)) ''eth_sendUserOperation'' [ParOp op, ParEntryPoint ENTRY_POINT_V07]),
      bu_receipt = (\<lambda>h. rpc (jr_receipt (jb_provider b)) ''eth_getUserOperationReceipt'' [ParHash h])\<rparr>"

fun endpoints_from_urls ::
  "(string \<Rightarrow> string + json_rpc) \<Rightarrow> bool \<Rightarrow> string option \<Rightarrow> string list \<Rightarrow> chain_error + json_rpc_bundler list" where
  "endpoints_from_urls parse pm ctx [] = Inr []"
| "endpoints_from_urls parse pm ctx (url # urls) =
     rbind (json_bundler_new parse url pm) (\<lambda>b.
     rbind (endpoints_from_urls parse pm ctx urls) (\<lambda>bs.
       Inr ((case ctx of Some c \<Rightarrow> with_sponsor_context c b | None \<Rightarrow> b) # bs)))"

definition failover_from_urls ::
  "(string \<Rightarrow> string + json_rpc) \<Rightarrow> string \<Rightarrow> bool \<Rightarrow> string option \<Rightarrow> chain_error + json_rpc_bundler list" where
  "failover_from_urls parse urls pm ctx =
     rbind (endpoints_from_urls parse pm ctx (filter (\<lambda>s. s \<noteq> []) (map trim (split_at (CHR '','') [] urls)))) failover_new"

subsection \<open>The agent's chain.rs\<close>

definition stub_signature :: "'x chain_lib_scheme \<Rightarrow> signer_kind \<Rightarrow> bytes" where
  \<open>stub_signature C k =
     (case k of
        PlatformPasskey \<Rightarrow>
          webauthn_signature C (replicate 37 0)
            ''{"type":"webauthn.get","challenge":"AAAAAAAAAAAAAAAAAAAAAAAAAAAAAAAAAAAAAAAAAAA","origin":"https://zbacs.local"}''
            (replicate 32 1) (replicate 32 1) True
      | _ \<Rightarrow> p256_raw_signature (replicate 32 0xAA) (replicate 32 0xAA) (replicate 32 0xAA))\<close>

record 'l merge_turn =
  mt_io :: store_io
  mt_append :: append_io
  mt_block :: "string + u64"
  mt_node :: "'l node_answer"
  mt_now :: u64

text \<open>The rounds of the loop that \<open>ensure\<close> leaves running; a failed round is logged and the next one tries again.\<close>

fun merge_rounds ::
  "'x agent_lib_scheme \<Rightarrow> json \<Rightarrow> audit_json \<Rightarrow> 'l log_codec \<Rightarrow> 'l merge_turn list \<Rightarrow> ledger_disk \<Rightarrow> audit_file \<Rightarrow>
     ledger_disk \<times> audit_file" where
  "merge_rounds A J AJ L [] d f = (d, f)"
| "merge_rounds A J AJ L (t # ts) d f =
     (case merge_events A J AJ (mt_io t) (mt_append t) L (mt_block t) (mt_node t) (mt_now t) d f of
        (_, d', f') \<Rightarrow> merge_rounds A J AJ L ts d' f')"

subsection \<open>Lemmas\<close>

lemma direct_write_call:
  "fst (direct_write A now call w) =
     client_send (case target_and_data A (cl_deployment (dw_client w)) call of (t, data) \<Rightarrow> cl_provider (dw_client w) t data)"
  by (cases call)
    (auto simp: direct_write_def client_register_def client_bump_def client_bump_version_def client_grant_def client_revoke_grant_def
      client_revoke_def split: sum.splits)

lemma direct_write_keeps:
  assumes "direct_write A now call w = (r, w')"
  shows "cl_provider (dw_client w') = cl_provider (dw_client w)" "cl_deployment (dw_client w') = cl_deployment (dw_client w)"
    "dw_owner w' = dw_owner w"
  using assms by (cases call; auto simp: direct_write_def client_bump_def client_revoke_grant_def split: prod.splits)+

lemma direct_writes_submit:
  "fst (direct_writes A now lst batch w) =
     submit_each (\<lambda>c. client_send (case target_and_data A (cl_deployment (dw_client w)) c of (t, data) \<Rightarrow> cl_provider (dw_client w) t data))
       lst batch"
proof (induction batch arbitrary: lst w)
  case (Cons call calls)
  obtain r w' where dw: "direct_write A now call w = (r, w')" by fastforce
  then have r: "client_send (case target_and_data A (cl_deployment (dw_client w)) call of (t, data) \<Rightarrow> cl_provider (dw_client w) t data) = r"
    using direct_write_call [of A now call w] by simp
  show ?case
    using Cons.IH [of _ w'] direct_write_keeps [OF dw] dw r by (cases r) simp_all
qed simp

lemma direct_write_remembers:
  assumes "direct_write A now (CRevoke fid gid) w = (Inr h, w')"
  shows "known_dead gid (cl_cache (dw_client w'))"
  using assms by (auto simp: direct_write_def client_revoke_grant_def client_revoke_def put_grant_False split: sum.splits)

text \<open>A bundler that answers with an error settles the question; only silence is passed on to the next.\<close>

lemma rpc_unreachable: "rpc transport m ps = Inl e \<Longrightarrow> is_unreachable e \<longleftrightarrow> (\<exists>t. transport m ps = RpcNoAnswer t)"
  by (auto simp: rpc_def split: rpc_reply.splits)

lemma failover_takes_first_answer:
  assumes "\<forall>b \<in> set pre. \<exists>t. jr_send (jb_provider b) ''eth_sendUserOperation'' [ParOp op, ParEntryPoint ENTRY_POINT_V07] = RpcNoAnswer t"
    and "\<forall>t. jr_send (jb_provider b) ''eth_sendUserOperation'' [ParOp op, ParEntryPoint ENTRY_POINT_V07] \<noteq> RpcNoAnswer t"
  shows "bu_send (failover_bundler (map json_bundler (pre @ b # rest))) op = bu_send (json_bundler b) op"
proof -
  have "failover_each (\<lambda>b. bu_send b op) (map json_bundler pre @ json_bundler b # map json_bundler rest) = bu_send (json_bundler b) op"
  proof (rule failover_first)
    show "\<forall>x \<in> set (map json_bundler pre). \<exists>e. bu_send x op = Inl e \<and> is_unreachable e"
      using assms(1) by (fastforce simp: json_bundler_def rpc_def)
    show "\<forall>e. bu_send (json_bundler b) op = Inl e \<longrightarrow> \<not> is_unreachable e"
      using assms(2) rpc_unreachable by (fastforce simp: json_bundler_def)
  qed
  then show ?thesis by (simp add: failover_bundler_def)
qed

lemma endpoints_all: "endpoints_from_urls parse pm ctx urls = Inr bs \<Longrightarrow> length bs = length urls \<and>
    (\<forall>b \<in> set bs. jb_with_paymaster b = pm \<and> jb_context b = ctx)"
  by (induction urls arbitrary: bs)
    (auto simp: rbind_eq_Inr json_bundler_new_def with_sponsor_context_def split: option.splits)

text \<open>The stub is as long as the signature of a device key that takes its place.\<close>

lemma stub_length:
  assumes "length kid = 32" and "length r = 32" and "length s = 32" and "encode_assertion C (AsP256Raw kid r s) = Inr sig"
  shows "length (stub_signature C DeviceKey) = length sig"
  using assms by (auto simp: stub_signature_def p256_raw_signature_def)

section \<open>Properties\<close>

text \<open>All paths that write put the same call to the same contract: a direct writer's batch is the
  default loop over transactions carrying each call's calldata to its target, and a single write of
  the smart account is the user operation its batch of one would be, announced to the signer as the
  same kind of write about the same file.\<close>

theorem writers_agree:
  "fst (direct_writes A now (replicate 32 0) batch w) =
     direct_submit (\<lambda>c. case target_and_data A (cl_deployment (dw_client w)) c of (t, data) \<Rightarrow> cl_provider (dw_client w) t data) batch \<and>
   smart_register A k d chain_id v fid hh = smart_submit A k d chain_id v [CRegister fid hh] (WRegister fid) \<and>
   smart_bump_version A k d chain_id v fid hh = smart_submit A k d chain_id v [CBumpVersion fid hh] (WBumpVersion fid) \<and>
   smart_grant A k d chain_id v g = smart_submit A k d chain_id v [CGrant g] (WGrant (ga_file_id g) (ga_permission g)) \<and>
   smart_revoke A k d chain_id v fid gid = smart_submit A k d chain_id v [CRevoke fid gid] (WRevoke fid)"
  by (simp add: direct_submit_def direct_writes_submit smart_register_def smart_bump_version_def smart_grant_def smart_revoke_def
      smart_send_def smart_submit_def batch_call_data_def)

end
