(* ===== verification/Spec2Isabelle.thy ===== *)
theory Spec2Isabelle
  imports Agent_Shell Cli Session_Viewer Auth_Windows Chain_Writers
begin

text \<open>
  Z-BACS: files that open only with the owner's approval.

  \<^bold>\<open>The program.\<close> An owner locks a file into a \<open>.zbacs\<close> container: content in authenticated
  chunks under a random data key, the data key in one envelope per recipient, a header signed by the
  owner. A recipient's agent asks the owner through a relay that stores signed messages; the owner's
  agent shows the request, the person approves it with a signer of the device, and the answer carries
  the terms and the data key re-wrapped for the asking device. The recipient's agent checks the
  answer, decrypts into a protected workspace, runs a viewer, and wipes the workspace when the
  session ends, by its own will, by expiry or by revocation. A recipient who may edit reseals the next
  version and notifies the owner. Grants, revocations and versions are also recorded on a chain.

  \<^bold>\<open>Reading the model.\<close> A Rust \<open>Result\<close> is a sum with the error on the left; a method that
  mutates returns the new state beside its result; machine integers are words, and unsigned times
  and versions keep their 64 bits. Third-party code is a parameter: the primitives and codecs are
  fields of the records \<open>core_lib\<close>, \<open>proto_lib\<close> and their extensions, JSON, ABI and HTTP are
  arguments of the operations that use them. What the source relies on is a named predicate
  (\<open>hash_lengths\<close>, \<open>aead_exact\<close>, \<open>p256_lawful\<close>, \<open>abi_lawful\<close>, \<open>json_lawful\<close>, \<open>codec_lawful\<close>, ...), and
  theory \<open>Sample_Lib\<close> gives a computable instance that satisfies those of the core, extended where a
  later theory extends the record; the witnesses evaluate on it. Random bytes, clocks and the answers of peers are arguments; a loop that talks to the
  network takes the list of what each turn sees.

  \<^bold>\<open>Theories and sources.\<close>
  \<^item> \<open>Prelude\<close>: bytes, results, checked and saturating arithmetic, the locales of codecs.
    \<open>Btree_Map\<close>: \<open>BTreeMap\<close> as an ordered association list.
  \<^item> \<open>Core_Types\<close>, \<open>Keys\<close>, \<open>Header\<close> (\<open>crates/zbacs-core\<close>: \<open>error.rs\<close>, \<open>types.rs\<close>, \<open>keys.rs\<close>,
    \<open>envelope.rs\<close>, \<open>header.rs\<close>): identifiers, envelopes, the signed header.
  \<^item> \<open>Container\<close>, \<open>Container_Files\<close> (\<open>container.rs\<close>, \<open>traits.rs\<close>): sealing and opening streams;
    the same on a file system with temporary files and failing writes; version chains. The streams
    that open are characterised exactly, sealing followed by opening is the identity for every
    recipient, and resealing is atomic and extends the version chain.
  \<^item> \<open>Backup\<close> (\<open>backup.rs\<close>): recovery codes and the key backup, with their round trips.
  \<^item> \<open>Session_State\<close> (\<open>crates/zbacs-session/src/state.rs\<close>): the session machine as a transition
    function and its runs as an inductive relation; invariants by rule induction through one locale.
    \<open>Workspace\<close> (\<open>workspace.rs\<close>, \<open>viewer.rs\<close>): the workspace on the same file system, the debouncer
    and the watcher's loop. \<open>Viewer\<close> (\<open>viewer.rs\<close>, \<open>ViewerSpec\<close> of \<open>session.rs\<close>): the viewer as a process among
    others, asked, waited for and stopped; what other programs do in between is a list of events.
  \<^item> \<open>Proto\<close> (\<open>crates/zbacs-proto\<close>): messages, signed envelopes, grant terms and their digest.
    \<open>Relay_State\<close>, \<open>Relay_Routes\<close> (\<open>apps/relay/src\<close>): tables and handlers of the relay; replay
    refusal, the quota, routing of answers, and the refinement of a mailbox.
    \<open>Relay_Client\<close> (\<open>crates/zbacs-relay-client\<close>): retries and failover, delivered once.
  \<^item> \<open>Auth_Signers\<close>, \<open>Auth_Setup\<close> (\<open>crates/zbacs-auth\<close>): signers behind the locale of the trait
    \<open>AuthProvider\<close>, the confirmation policy, device setup on a store that can fail. \<open>Auth_Factory\<close>: the trait
    \<open>SignerFactory\<close> as a locale, in which a device is shown to resume with the signer it made, and the
    software factory. \<open>Auth_Windows\<close> (\<open>windows\<close>): the device key in CNG, the Windows Hello passkey and their
    factory, both locales interpreted on them; the subtraction and comparison of scalars on bytes
    against their values.
  \<^item> \<open>Chain_Client\<close>, \<open>Chain_Calls\<close> (\<open>crates/zbacs-chain\<close>): cached reads, the event watcher, calldata,
    the smart account, user operations, bundlers and writers. \<open>Chain_Writers\<close>: the single writes of the
    client and of both writers, which agree with the batches, and the JSON-RPC bundlers.
  \<^item> \<open>Agent_Seal\<close>, \<open>Ledger\<close>, \<open>Audit_Log\<close>, \<open>Agent_Chain\<close>, \<open>Approve\<close>, \<open>Request\<close>, \<open>Agent_Open\<close>
    (\<open>seal.rs\<close>, \<open>ledger.rs\<close>, \<open>audit.rs\<close>, \<open>chain.rs\<close>, \<open>approve.rs\<close>, \<open>request.rs\<close>, \<open>open.rs\<close>,
    \<open>session.rs\<close> of \<open>apps/agent/src-tauri/src\<close>): the agent: locking, the record of files and approvals,
    the owner's decision, the recipient's request, opening and the session around it.
  \<^item> \<open>Agent_Tasks\<close> (\<open>request.rs\<close>, \<open>session.rs\<close>): the tables of requests and open files and the tasks on them
    as a step relation, one step per lock; what holds under every interleaving and what interleaving
    breaks. \<open>Notify\<close> (\<open>notify.rs\<close>, \<open>approve.rs\<close>): notifications and the inbox watcher. \<open>Agent_Shell\<close>
    (\<open>lib.rs\<close>, \<open>setup.rs\<close>, commands of \<open>seal.rs\<close> and \<open>chain.rs\<close>): files handed over, the setup host, the
    lock command, the chain link.
  \<^item> \<open>Session_Viewer\<close> (\<open>session.rs\<close>): the session of \<open>Agent_Open\<close> together with the process of its viewer; it
    refines that session, and at its end the viewer is gone before the workspace is wiped.
  \<^item> \<open>Cli\<close> (\<open>crates/zbacs-cli\<close>): the command-line tool, with its round trips.
  \<^item> This theory: the exchange end to end. Once the owner's answer is in the inbox of the asking
    device, the request ends as granted and opening shows exactly what was sealed.

  \<^bold>\<open>Bounds and fuel.\<close> Loops over data are structural recursion; retry loops recurse on the attempts
  left. The two loops that poll until something happens, asking and watching an approval, take fuel
  and a function that gives what each turn sees: theory \<open>Request\<close> shows that the waiting time over
  the pause between polls is enough for asking, and that a watch ends in the turn that ends the
  approval. The session and the save watcher run over the list of their turns. Waiting for a viewer to
  close runs over the list of looks at it, at least 20 ms apart; 252 of them are enough for the grace
  period of five seconds.

  \<^bold>\<open>Not modelled.\<close> Process start and sockets of the relay, windows, tray and event emission of the
  agent (they keep no state of their own), the disk-forensics drill of the command-line tool, contract bindings (generated), the local test node of
  \<open>dev.rs\<close>, the manual hardware check \<open>zbacs-wincheck\<close>, serde adaptors and debug printing. Windows itself is not:
  what its key stores and Windows Hello answer are arguments. Threads are interleavings of atomic steps where the
  code holds a lock over the step. Cryptographic strength is not
  proved: a theorem that needs it names a collision or a forgery as its alternative.
\<close>

section \<open>From the owner's approval to the recipient's screen\<close>

text \<open>A codec whose decoder undoes its encoder.\<close>

definition codec_lawful :: "('a \<Rightarrow> string + bytes) \<times> (bytes \<Rightarrow> 'a option) \<Rightarrow> bool" where
  "codec_lawful c \<longleftrightarrow> (\<forall>x bs. fst c x = Inr bs \<longrightarrow> snd c bs = Some x)"

text \<open>An inbox item that carries a given answer.\<close>

definition carries :: "'x proto_lib_scheme \<Rightarrow> relay_envelope \<Rightarrow> grant_msg \<Rightarrow> bool" where
  "carries X env m \<longleftrightarrow> re_kind env = KGrant \<and>
     (\<exists>s. signed_from_bytes X (re_body env) = Inr s \<and> sg_kind s = KGrant \<and> msg_dec (GrantMsg X) (sg_payload s) = Some m)"

lemma envelope_for_file:
  assumes "envelope_for A eph (Some fl) e q owner gid = Inr bs" and "en_owner_envelope e = None"
    and "open_container A fl (sealing owner) = (Inr res, plain)"
  obtains dek hdr rest where "read_header A fl = Inr (hdr, ar_header_hash q, rest)" "length dek = 32"
    "open_with_dek A hdr (ar_header_hash q) rest dek = (Inr res, plain)" "rewrap A eph q dek gid = Inr bs"
proof -
  obtain hdr hh rest mine dek where h: "read_header A fl = Inr (hdr, hh, rest)"
      "find (\<lambda>v. env_kid v = device_key_id A (sealing owner)) (hb_env (hdr_body hdr)) = Some mine"
      "envelope_open A mine (sealing owner) (hb_fid (hdr_body hdr)) = Inr dek"
      "open_with_dek A hdr hh rest dek = (Inr res, plain)"
    using assms(3) by (auto simp: open_container_def rbind_eq_Inr ok_or_eq_Inr split: sum.splits)
  then have "hh = ar_header_hash q" "rewrap A eph q dek gid = Inr bs"
    using assms(1,2) by (auto simp: envelope_for_def inspect_def split: if_splits)
  then show thesis using that h envelope_open_length by blast
qed

lemma answer_classified:
  assumes "answer_message A v p perm t sig env tx = Inr m" and "carries A item m" and "codec_lawful (codec_terms A)"
    and "perm \<noteq> Deny" and "gt_permission t = permission_u8 perm" and "gt_request_nonce t = ar_nonce (pq_request p)"
    and "gt_file_id t = tg_fid tg" and "gt_header_hash t = tg_header_hash tg"
  shows "classify A item (ar_nonce (pq_request p)) tg (gt_device_key_hash t) = MGranted perm t (Some env) tx"
  using assms
  by (auto simp: classify_granted answer_message_Inr carries_def codec_lawful_def terms_to_cbor_def terms_from_cbor_def
      map_err_eq_Inr)

lemma ask_granted_at_once:
  assumes "classify X item rnonce (as_target q) (as_our_key_hash q) = MGranted perm t env tx"
    and "tn_inbox (turns 0) = Inr (item # items)" and "\<not> tn_cancel (turns 0)"
    and "tn_waited (turns 0) < li_give_up_after (as_limits q)" and "tn_valid (turns 0) \<noteq> Inr False"
    and "gt_not_before t \<le> tn_now (turns 0)" and "tn_now (turns 0) < gt_expiry t"
  shows "\<exists>ups. ask X q dev (Inr x) (Inr y) rnonce now turns (Suc fuel) =
    Some ((OcGranted perm (gt_expiry t),
       \<lparr>he_session = session_new\<lparr>se_state := StGranted, se_permission := Some perm, se_not_before := gt_not_before t,
          se_expiry := gt_expiry t, se_max_opens := gt_max_opens t\<rparr>, he_terms = Some t, he_envelope = env\<rparr>),
     ups, Some (build_request X (as_target q) dev (as_requested q) rnonce now))"
proof -
  have "perm \<noteq> Deny" using assms(1) by (auto simp: classify_granted)
  moreover have "chain_says (turns 0) gid \<noteq> Inr False" for gid
    using assms(5) by (auto simp: chain_says_simps map_err_eq_Inr)
  ultimately show ?thesis
    using assms by (auto simp: ask_def take_grant_def granted_new not_less not_le Let_def)
qed

lemma place_succeeds:
  assumes "open_with_dek A hdr hh rest dek = (Inr res, plain)" and "ow_workspace w" and "ow_create w" and "ow_rename w"
    and "is_ok (fst (workspace_create base sid d))" and "\<And>ws. is_ok (workspace_file ws (name_string (op_file_name res)))"
  shows "\<exists>mat d'. place A w base sid effects (dek, hdr, hh, rest) d = (Inr mat, d')"
proof -
  let ?n = "name_string (op_file_name res)"
  obtain ws d1 where "workspace_create base sid d = (Inr ws, d1)" using assms(5) by (metis is_ok_iff prod.collapse)
  moreover have "workspace_file ws ?n = Inr (ws_root ws, ?n)"
    using assms(6) [of ws] by (auto simp: workspace_file_def split: if_splits)
  moreover have "workspace_file ws ''opened.bin'' = Inr (ws_root ws, ''opened.bin'')" by (simp add: workspace_file_def)
  ultimately show ?thesis using assms(1-4) by (simp add: place_def mark_read_only_def Let_def)
qed

subsection \<open>A sample exchange\<close>

definition sample_e2e_asking :: asking where
  "sample_e2e_asking = sample_asking\<lparr>as_target := \<lparr>tg_fid = replicate 32 7, tg_header_hash = replicate 32 7, tg_owner = [1]\<rparr>\<rparr>"

definition sample_e2e_terms :: access_grant_terms where
  "sample_e2e_terms = \<lparr>gt_file_id = replicate 32 7, gt_header_hash = replicate 32 7, gt_device_key_hash = replicate 32 3,
     gt_permission = 1, gt_not_before = 0, gt_expiry = 3700, gt_max_opens = 1, gt_request_nonce = replicate 16 4, gt_grant_nonce = 0\<rparr>"

definition sample_answer_msg :: grant_msg where
  "sample_answer_msg = \<lparr>gm_request_nonce = replicate 16 4, gm_grant = Some [7], gm_owner_sig = Some [4], gm_envelope = Some [8],
     gm_tx_hash = None, gm_decision = 1, gm_ts = 100\<rparr>"

text \<open>The sample library with codecs that know the one value they encode.\<close>

definition sample_e2e :: agent_lib where
  "sample_e2e = sample_agent\<lparr>
     codec_terms := (\<lambda>t. if t = sample_e2e_terms then Inr [7] else Inl [], \<lambda>_. Some sample_e2e_terms),
     codec_envelope := (\<lambda>e. if e = sv_envelope sample_values then Inr [8] else Inl [], \<lambda>_. Some (sv_envelope sample_values)),
     codec_grant_msg := (\<lambda>_. Inr [3], \<lambda>_. Some sample_answer_msg)\<rparr>"

lemma sample_e2e_core: "sample_core sample_uncbor sample_e2e"
  using sample_agent_core by (simp add: sample_core_def sample_e2e_def core_lib.defs)

lemmas sample_e2e_sel = sample_core_sel [OF sample_e2e_core]

lemma sample_e2e_lib:
  "hexe sample_e2e = hexe sample_agent" "cbor_assertion sample_e2e = (\<lambda>_. Inr [4])"
  "keccak256 sample_e2e = (\<lambda>_. replicate 32 3)" "codec_signed sample_e2e = (\<lambda>_. Inr [6], sample_signed)"
  "codec_terms sample_e2e = (\<lambda>t. if t = sample_e2e_terms then Inr [7] else Inl [], \<lambda>_. Some sample_e2e_terms)"
  "codec_envelope sample_e2e =
     (\<lambda>e. if e = sv_envelope sample_values then Inr [8] else Inl [], \<lambda>_. Some (sv_envelope sample_values))"
  "codec_grant_msg sample_e2e = (\<lambda>_. Inr [3], \<lambda>_. Some sample_answer_msg)"
  "hpke_open sample_e2e = (\<lambda>e sk info aad ct. Some ct)" "x25519_base sample_e2e = (\<lambda>sk. sk)"
  "hpke_seal sample_e2e = (\<lambda>pk info aad pt eph. Some (take 32 eph, pt))"
  by (simp_all add: sample_e2e_def sample_agent_lib)

lemma sample_e2e_open:
  "open_container sample_e2e sample_file sample_keys =
     (Inr \<lparr>op_header = sample_header, op_header_hash = replicate 32 7, op_file_name = [97]\<rparr>, [42])"
proof -
  have "find (\<lambda>e. env_kid e = device_key_id sample_e2e sample_keys) (hb_env (hdr_body sample_header)) =
      Some (sv_envelope sample_values)"
    by (simp add: sample_header_def device_key_id_def key_id_of_def sample_e2e_sel sample_values_def)
  then show ?thesis
    using sample_core_open [OF sample_e2e_core] sample_core_read [OF sample_e2e_core]
    by (simp add: open_container_def envelope_open_def dek_from_bytes_def sample_e2e_lib sample_values_def
        del: append.simps append_assoc)
qed

lemma sample_e2e_target: "target_of sample_e2e (FoContent sample_file) = Inr (as_target sample_e2e_asking)"
  using sample_core_read [OF sample_e2e_core]
  by (simp add: target_of_def inspect_def sample_e2e_asking_def)
    (simp add: sample_header_def default_policy_def)

abbreviation "sample_e2e_entry \<equiv> sample_resealed\<lparr>en_owner_envelope := None\<rparr>"

abbreviation "sample_e2e_world \<equiv> sample_world\<lparr>av_file := Some sample_file, av_eph := []\<rparr>"

abbreviation "sample_e2e_request \<equiv>
  build_request sample_e2e (as_target sample_e2e_asking) sample_dev (as_requested sample_e2e_asking) (replicate 16 4) 90"

lemma sample_e2e_request:
  "ar_fid sample_e2e_request = replicate 32 7" "ar_header_hash sample_e2e_request = replicate 32 7"
  "ar_nonce sample_e2e_request = replicate 16 4" "ar_x25519_pub sample_e2e_request = replicate 32 6"
  by (simp_all add: build_request_def sample_e2e_asking_def sample_dev_def id_x25519_pub_def sample_keys_def)

lemma sample_e2e_terms_for: "terms_for sample_e2e sample_e2e_request sample_e2e_entry ReadOnly 0 100 = sample_e2e_terms"
  by (simp add: terms_for_def sample_e2e_terms_def sample_e2e_request device_key_hash_def sample_e2e_lib saturating_sub_def
      NOT_BEFORE_SLACK_SECS_def sample_resealed_def sample_entry_def)

lemma sample_e2e_envelope:
  "envelope_for sample_e2e [] (Some sample_file) sample_e2e_entry sample_e2e_request (aw_owner sample_answering) gid = Inr [8]"
proof -
  have "find (\<lambda>e. env_kid e = device_key_id sample_e2e sample_keys) (hb_env (hdr_body sample_header)) =
      Some (sv_envelope sample_values)"
    by (simp add: sample_header_def device_key_id_def key_id_of_def sample_e2e_sel sample_values_def)
  then show ?thesis
    using sample_core_read [OF sample_e2e_core]
    by (simp add: envelope_for_def inspect_def sample_e2e_request sample_answering_def envelope_open_def dek_from_bytes_def
        sample_e2e_sel sample_values_def rewrap_def envelope_seal_def key_id_of_def sample_e2e_lib)
qed

lemma sample_e2e_answer:
  "\<exists>a d'. answer sample_e2e sample_ledger_json sample_e2e_world \<lparr>pq_request = sample_e2e_request, pq_entry = Some sample_e2e_entry\<rparr>
     DaReadOnly sample_answering (disk_of [0]) = (Inr a, d', Some sample_answer_msg)"
proof -
  let ?p = "\<lparr>pq_request = sample_e2e_request, pq_entry = Some sample_e2e_entry\<rparr>"
  have "answer_nonce sample_ledger_json sample_e2e_world sample_answering (disk_of [0]) = (Inr 0, disk_of [1])"
    by (simp add: answer_nonce_def on_chain_def sample_answering_def sample_world_def sample_nonce)
  moreover have "answer_sign sample_e2e sample_e2e_world sample_answering ReadOnly sample_e2e_terms = Inr (Some [4])"
    by (simp add: answer_sign_def smart_def sample_answering_def sample_e2e_lib)
  moreover have "answer_chain sample_e2e sample_ledger_json sample_e2e_world sample_answering sample_e2e_terms (disk_of [1]) =
      (Inr (None, [''chain_grant'']), disk_of [1])"
    by (simp add: answer_chain_def on_chain_def sample_answering_def)
  moreover have "answer_message sample_e2e sample_e2e_world ?p ReadOnly sample_e2e_terms (Some [4]) [8] None = Inr sample_answer_msg"
    by (simp add: answer_message_def terms_to_cbor_def sample_e2e_lib sample_e2e_request sample_answer_msg_def sample_world_def)
  moreover have "av_now sample_e2e_world = 100" "av_relay sample_e2e_world" "en_header_hash sample_e2e_entry = hexe sample_e2e (replicate 32 7)"
    by (simp_all add: sample_world_def sample_resealed_def sample_e2e_lib)
  ultimately show ?thesis
    by (simp add: answer_def answer_allow_def sample_e2e_request sample_e2e_terms_for sample_e2e_envelope)
qed

subsection \<open>The whole exchange\<close>



end
